(* ===== verification/Prelude.thy ===== *)
theory Prelude
  imports Main "HOL-Library.Word" "HOL-Library.Signed_Division"
begin

text \<open>
  What every component shares: the 64-bit signed integers of Go, its durations, and the
  generic facts about lists that the component proofs use.

  A Go \<open>int\<close>, \<open>int64\<close> or \<open>time.Duration\<close> is an \<open>int\<close> of HOL whose every addition,
  subtraction, multiplication and division goes through \<open>i64\<close>, which wraps around as the
  machine does (\<open>i64_word\<close> relates it to the two's complement words of the library).
  A moment that the code keeps as \<open>UnixNano()\<close> is such an integer.
\<close>

named_theorems go_arith "unfolding rules of the 64-bit operations"

subsection \<open>64-bit signed integers\<close>

definition i64 :: "int \<Rightarrow> int" where
  "i64 x = (x + 2 ^ 63) mod 2 ^ 64 - 2 ^ 63"

definition in64 :: "int \<Rightarrow> bool" where
  "in64 x \<longleftrightarrow> - (2 ^ 63) \<le> x \<and> x < 2 ^ 63"

definition add64 :: "int \<Rightarrow> int \<Rightarrow> int" where
  "add64 a b = i64 (a + b)"

definition sub64 :: "int \<Rightarrow> int \<Rightarrow> int" where
  "sub64 a b = i64 (a - b)"

definition mul64 :: "int \<Rightarrow> int \<Rightarrow> int" where
  "mul64 a b = i64 (a * b)"

text \<open>Go's \<open>/\<close> truncates towards zero, as \<open>sdiv\<close> does.\<close>

definition div64 :: "int \<Rightarrow> int \<Rightarrow> int" where
  "div64 a b = i64 (a sdiv b)"

lemmas ops64_def [go_arith] = add64_def sub64_def mul64_def div64_def

lemma i64_word: "i64 x = sint (word_of_int x :: 64 word)"
  by (simp add: i64_def int_word_sint)

lemma in64_i64 [simp, intro]: "in64 (i64 x)"
  by (simp add: i64_def in64_def)

lemma i64_id [simp]: "in64 x \<Longrightarrow> i64 x = x"
  by (simp add: i64_def in64_def)

lemma i64_idem [simp]: "i64 (i64 x) = i64 x"
  by simp

lemma in64_small: "0 \<le> x \<Longrightarrow> x \<le> 2 ^ 32 \<Longrightarrow> in64 x"
  by (simp add: in64_def)

lemma i64_once: "2 ^ 63 \<le> x \<Longrightarrow> x < 2 ^ 64 \<Longrightarrow> i64 x = x - 2 ^ 64"
proof -
  assume "2 ^ 63 \<le> x" "x < 2 ^ 64"
  then have "(x + 2 ^ 63) mod 2 ^ 64 = x + 2 ^ 63 - 2 ^ 64"
    by (intro int_mod_pos_eq [of _ _ 1]) simp_all
  then show ?thesis by (simp add: i64_def)
qed

lemma in64_ops [simp, intro]: "in64 (add64 a b)" "in64 (sub64 a b)" "in64 (mul64 a b)" "in64 (div64 a b)"
  by (simp_all add: go_arith)

text \<open>The operations are exact where the exact result fits.\<close>

lemma add64_exact: "in64 (a + b) \<Longrightarrow> add64 a b = a + b"
  by (simp add: add64_def)

lemma sub64_exact: "in64 (a - b) \<Longrightarrow> sub64 a b = a - b"
  by (simp add: sub64_def)

lemma mul64_exact: "in64 (a * b) \<Longrightarrow> mul64 a b = a * b"
  by (simp add: mul64_def)

lemma sdiv_nonneg_eq: "0 \<le> a \<Longrightarrow> 0 < b \<Longrightarrow> a sdiv b = a div (b::int)"
  by (simp add: signed_divide_int_def sgn_if)

lemma div64_exact:
  assumes "0 \<le> a" and "a < 2 ^ 63" and "0 < b"
  shows "div64 a b = a div b"
proof -
  have "0 \<le> a div b" using assms by (simp add: pos_imp_zdiv_nonneg_iff)
  moreover have "a div b \<le> a" using assms zdiv_mono2 [of a 1 b] by simp
  ultimately show ?thesis
    using assms by (simp add: div64_def sdiv_nonneg_eq in64_def)
qed

text \<open>Two clock readings that are not negative subtract exactly.\<close>

lemma sub64_times:
  "0 \<le> a \<Longrightarrow> in64 a \<Longrightarrow> 0 \<le> b \<Longrightarrow> in64 b \<Longrightarrow> sub64 a b = a - b"
  by (simp add: sub64_exact in64_def)

lemma add64_Suc: "0 \<le> a \<Longrightarrow> a < b \<Longrightarrow> in64 b \<Longrightarrow> add64 a 1 = a + 1"
  by (simp add: add64_exact in64_def)

subsection \<open>Durations\<close>

definition Millisecond :: int where "Millisecond = 1000000"
definition Second :: int where "Second = 1000000000"
definition Minute :: int where "Minute = 60 * Second"
definition Hour :: int where "Hour = 60 * Minute"

lemmas duration_defs = Millisecond_def Second_def Minute_def Hour_def

subsection \<open>Lists\<close>

lemma sum_list_update_int:
  "i < length xs \<Longrightarrow> sum_list (map f (xs[i := x])) = sum_list (map f xs) - f (xs ! i) + (f x :: int)"
  by (induction xs arbitrary: i) (auto split: nat.splits)

lemma sum_list_map_nonneg: "(\<And>x. x \<in> set xs \<Longrightarrow> 0 \<le> f x) \<Longrightarrow> 0 \<le> sum_list (map f xs :: int list)"
  by (induction xs) (auto intro: add_nonneg_nonneg)

lemma list_all_update:
  "list_all P xs \<Longrightarrow> P x \<Longrightarrow> list_all P (xs[i := x])"
  by (auto simp: list_all_iff dest: set_update_subset_insert [THEN subsetD])

end
