(* ===== verification/CircuitBreaker.thy ===== *)
theory CircuitBreaker
  imports Prelude
begin

text \<open>
  The circuit breaker of \<open>circuit_breaker.go\<close> as one goroutine sees it: its configuration and
  state, the constructor with its defaults, and the three operations \<open>Allow\<close>, \<open>RecordFailure\<close>
  and \<open>RecordSuccess\<close>. Each reading of \<open>time.Now().UnixNano()\<close> is the argument \<open>now\<close>; the
  compare-and-swap of \<open>Allow\<close> always finds the value just loaded, as it does when no other
  goroutine moves in between (\<open>CircuitBreakerConcurrent\<close> models the interleavings).

  The abstract breaker is the three-phase automaton of the type \<open>phase\<close>. The locale \<open>breaker\<close>
  is the contract between the automaton and an implementation; both implementations of the
  repository interpret it.
\<close>

subsection \<open>Configuration and state\<close>

record CircuitBreakerConfig =
  FailureThreshold :: int
  RecoveryTimeout :: int
  SuccessThreshold :: int

definition StateClosed :: int where "StateClosed = 0"
definition StateOpen :: int where "StateOpen = 1"
definition StateHalfOpen :: int where "StateHalfOpen = 2"

lemmas state_codes = StateClosed_def StateOpen_def StateHalfOpen_def

record CircuitBreaker =
  cb_config :: CircuitBreakerConfig
  cb_state :: int
  cb_failures :: int
  cb_lastFailure :: int
  cb_successes :: int

definition breaker_defaults :: "CircuitBreakerConfig \<Rightarrow> CircuitBreakerConfig" where
  "breaker_defaults config =
     (let config = (if FailureThreshold config = 0 then config\<lparr>FailureThreshold := 5\<rparr> else config);
          config = (if RecoveryTimeout config = 0 then config\<lparr>RecoveryTimeout := mul64 60 Second\<rparr> else config);
          config = (if SuccessThreshold config = 0 then config\<lparr>SuccessThreshold := 2\<rparr> else config)
      in config)"

definition NewCircuitBreaker :: "CircuitBreakerConfig \<Rightarrow> CircuitBreaker" where
  "NewCircuitBreaker config =
     \<lparr>cb_config = breaker_defaults config, cb_state = StateClosed,
      cb_failures = 0, cb_lastFailure = 0, cb_successes = 0\<rparr>"

subsection \<open>Operations\<close>

definition cb_Allow :: "int \<Rightarrow> CircuitBreaker \<Rightarrow> bool \<times> CircuitBreaker" where
  "cb_Allow now cb =
     (let state = cb_state cb in
      if state = StateClosed then (True, cb)
      else if state = StateOpen then
        (let lastFailure = cb_lastFailure cb in
         if sub64 now lastFailure \<ge> RecoveryTimeout (cb_config cb)
         then (True, cb\<lparr>cb_state := StateHalfOpen, cb_successes := 0\<rparr>)
         else (False, cb))
      else if state = StateHalfOpen then (True, cb)
      else (False, cb))"

definition cb_RecordFailure :: "int \<Rightarrow> CircuitBreaker \<Rightarrow> CircuitBreaker" where
  "cb_RecordFailure now cb0 =
     (let cb = cb0\<lparr>cb_lastFailure := now\<rparr>;
          state = cb_state cb
      in if state = StateClosed then
           (let failures = add64 (cb_failures cb) 1;
                cb = cb\<lparr>cb_failures := failures\<rparr>
            in if failures \<ge> FailureThreshold (cb_config cb)
               then cb\<lparr>cb_state := StateOpen\<rparr> else cb)
         else if state = StateOpen then cb
         else if state = StateHalfOpen then
           cb\<lparr>cb_failures := add64 (cb_failures cb) 1, cb_state := StateOpen, cb_successes := 0\<rparr>
         else cb)"

definition cb_RecordSuccess :: "CircuitBreaker \<Rightarrow> CircuitBreaker" where
  "cb_RecordSuccess cb =
     (let state = cb_state cb
      in if state = StateClosed then cb
         else if state = StateOpen then cb
         else if state = StateHalfOpen then
           (let successes = add64 (cb_successes cb) 1;
                cb = cb\<lparr>cb_successes := successes\<rparr>
            in if successes \<ge> SuccessThreshold (cb_config cb)
               then cb\<lparr>cb_state := StateClosed, cb_failures := 0, cb_successes := 0\<rparr> else cb)
         else cb)"

subsection \<open>The abstract breaker\<close>

text \<open>
  \<open>Closed n\<close>: closed after \<open>n\<close> failures since it last closed. \<open>Open t\<close>: open, the last
  failure was at \<open>t\<close>. \<open>HalfOpen n\<close>: probing, with \<open>n\<close> successes so far. The arithmetic is
  that of the integers: the refinement shows that the 64-bit counters never wrap.
\<close>

datatype phase = Closed int | Open int | HalfOpen int

datatype breaker_event = AskAllow int | Failure int | Success

fun spec_allow :: "CircuitBreakerConfig \<Rightarrow> int \<Rightarrow> phase \<Rightarrow> bool \<times> phase" where
  "spec_allow c now (Closed n) = (True, Closed n)"
| "spec_allow c now (Open t) =
     (if now \<ge> t + RecoveryTimeout c then (True, HalfOpen 0) else (False, Open t))"
| "spec_allow c now (HalfOpen n) = (True, HalfOpen n)"

fun spec_failure :: "CircuitBreakerConfig \<Rightarrow> int \<Rightarrow> phase \<Rightarrow> phase" where
  "spec_failure c now (Closed n) = (if n + 1 \<ge> FailureThreshold c then Open now else Closed (n + 1))"
| "spec_failure c now (Open t) = Open now"
| "spec_failure c now (HalfOpen n) = Open now"

fun spec_success :: "CircuitBreakerConfig \<Rightarrow> phase \<Rightarrow> phase" where
  "spec_success c (Closed n) = Closed n"
| "spec_success c (Open t) = Open t"
| "spec_success c (HalfOpen n) = (if n + 1 \<ge> SuccessThreshold c then Closed 0 else HalfOpen (n + 1))"

text \<open>A run: the answers of the \<open>Allow\<close> calls and the final state.\<close>

fun run_breaker ::
  "(int \<Rightarrow> 'b \<Rightarrow> bool \<times> 'b) \<Rightarrow> (int \<Rightarrow> 'b \<Rightarrow> 'b) \<Rightarrow> ('b \<Rightarrow> 'b) \<Rightarrow> breaker_event list \<Rightarrow> 'b \<Rightarrow> bool list \<times> 'b"
where
  "run_breaker allow failure success [] b = ([], b)"
| "run_breaker allow failure success (AskAllow now # es) b =
     (let (d, b') = allow now b; (ds, b'') = run_breaker allow failure success es b' in (d # ds, b''))"
| "run_breaker allow failure success (Failure now # es) b =
     run_breaker allow failure success es (failure now b)"
| "run_breaker allow failure success (Success # es) b =
     run_breaker allow failure success es (success b)"

abbreviation run_spec :: "CircuitBreakerConfig \<Rightarrow> breaker_event list \<Rightarrow> phase \<Rightarrow> bool list \<times> phase" where
  "run_spec c \<equiv> run_breaker (spec_allow c) (spec_failure c) (spec_success c)"

text \<open>Clock readings are those of a clock after 1970 that fits 64 bits.\<close>

definition clock_ok :: "int \<Rightarrow> bool" where
  "clock_ok now \<longleftrightarrow> 0 \<le> now \<and> in64 now"

fun event_ok :: "breaker_event \<Rightarrow> bool" where
  "event_ok (AskAllow now) = clock_ok now"
| "event_ok (Failure now) = clock_ok now"
| "event_ok Success = True"

definition config_ok :: "CircuitBreakerConfig \<Rightarrow> bool" where
  "config_ok c \<longleftrightarrow> 0 < FailureThreshold c \<and> in64 (FailureThreshold c) \<and>
     0 < SuccessThreshold c \<and> in64 (SuccessThreshold c) \<and> in64 (RecoveryTimeout c)"

subsection \<open>The contract\<close>

locale breaker =
  fixes allow :: "int \<Rightarrow> 'b \<Rightarrow> bool \<times> 'b"
    and failure :: "int \<Rightarrow> 'b \<Rightarrow> 'b"
    and success :: "'b \<Rightarrow> 'b"
    and phase_of :: "'b \<Rightarrow> phase"
    and conf :: "'b \<Rightarrow> CircuitBreakerConfig"
    and inv :: "'b \<Rightarrow> bool"
  assumes allow_sim: "inv b \<Longrightarrow> clock_ok now \<Longrightarrow>
        spec_allow (conf b) now (phase_of b) = (fst (allow now b), phase_of (snd (allow now b)))"
    and failure_sim: "inv b \<Longrightarrow> clock_ok now \<Longrightarrow>
        phase_of (failure now b) = spec_failure (conf b) now (phase_of b)"
    and success_sim: "inv b \<Longrightarrow> phase_of (success b) = spec_success (conf b) (phase_of b)"
    and allow_inv: "inv b \<Longrightarrow> clock_ok now \<Longrightarrow> inv (snd (allow now b))"
    and failure_inv: "inv b \<Longrightarrow> clock_ok now \<Longrightarrow> inv (failure now b)"
    and success_inv: "inv b \<Longrightarrow> inv (success b)"
    and allow_conf: "conf (snd (allow now b)) = conf b"
    and failure_conf: "conf (failure now b) = conf b"
    and success_conf: "conf (success b) = conf b"
begin

lemma run_sim:
  assumes "inv b" and "list_all event_ok es"
  shows "run_spec (conf b) es (phase_of b) =
     (fst (run_breaker allow failure success es b), phase_of (snd (run_breaker allow failure success es b)))"
  using assms
proof (induction es arbitrary: b)
  case Nil
  show ?case by simp
next
  case (Cons e es)
  show ?case
  proof (cases e)
    case (AskAllow now)
    with Cons.prems have ok: "clock_ok now" "list_all event_ok es" by auto
    obtain d b' where a: "allow now b = (d, b')" by force
    have b': "inv b'" "conf b' = conf b"
      using allow_inv [OF Cons.prems(1) ok(1)] allow_conf [of now b] a by auto
    have "spec_allow (conf b) now (phase_of b) = (d, phase_of b')"
      using allow_sim [OF Cons.prems(1) ok(1)] a by simp
    with Cons.IH [OF b'(1) ok(2)] b'(2) AskAllow a show ?thesis
      by (simp add: split_def Let_def)
  next
    case (Failure now)
    with Cons.prems have "inv (failure now b)" "list_all event_ok es" by (auto intro: failure_inv)
    from Cons.IH [OF this] Failure Cons.prems show ?thesis
      by (simp add: failure_conf failure_sim)
  next
    case Success
    with Cons.prems have "inv (success b)" "list_all event_ok es" by (auto intro: success_inv)
    from Cons.IH [OF this] Success Cons.prems show ?thesis
      by (simp add: success_conf success_sim)
  qed
qed

lemma run_inv:
  "inv b \<Longrightarrow> list_all event_ok es \<Longrightarrow> inv (snd (run_breaker allow failure success es b))"
proof (induction es arbitrary: b)
  case (Cons e es)
  then show ?case
    by (cases e) (auto simp: split_def Let_def allow_inv failure_inv success_inv)
qed simp

lemma run_conf: "conf (snd (run_breaker allow failure success es b)) = conf b"
proof (induction es arbitrary: b)
  case (Cons e es)
  then show ?case
    by (cases e) (auto simp: split_def Let_def allow_conf failure_conf success_conf)
qed simp

end

text \<open>Two implementations of the contract with the same configuration answer alike.\<close>

locale two_breakers =
  one: breaker allow1 failure1 success1 phase1 conf1 inv1 +
  two: breaker allow2 failure2 success2 phase2 conf2 inv2
  for allow1 :: "int \<Rightarrow> 'b \<Rightarrow> bool \<times> 'b" and failure1 success1 phase1 conf1 inv1
    and allow2 :: "int \<Rightarrow> 'c \<Rightarrow> bool \<times> 'c" and failure2 success2 phase2 conf2 inv2
begin

lemma runs_agree:
  assumes "inv1 b" and "inv2 c" and "phase1 b = phase2 c" and "conf1 b = conf2 c"
    and "list_all event_ok es"
  shows "fst (run_breaker allow1 failure1 success1 es b) = fst (run_breaker allow2 failure2 success2 es c) \<and>
         phase1 (snd (run_breaker allow1 failure1 success1 es b)) =
         phase2 (snd (run_breaker allow2 failure2 success2 es c))"
  using one.run_sim [OF assms(1,5)] two.run_sim [OF assms(2,5)] assms(3,4) by simp

end

subsection \<open>The implementation meets the contract\<close>

definition cb_phase :: "CircuitBreaker \<Rightarrow> phase" where
  "cb_phase cb = (if cb_state cb = StateClosed then Closed (cb_failures cb)
     else if cb_state cb = StateOpen then Open (cb_lastFailure cb)
     else HalfOpen (cb_successes cb))"

definition cb_inv :: "CircuitBreaker \<Rightarrow> bool" where
  "cb_inv cb \<longleftrightarrow> config_ok (cb_config cb) \<and> clock_ok (cb_lastFailure cb) \<and>
     cb_state cb \<in> {StateClosed, StateOpen, StateHalfOpen} \<and>
     (cb_state cb = StateClosed \<longrightarrow>
        0 \<le> cb_failures cb \<and> cb_failures cb < FailureThreshold (cb_config cb)) \<and>
     (cb_state cb = StateHalfOpen \<longrightarrow>
        0 \<le> cb_successes cb \<and> cb_successes cb < SuccessThreshold (cb_config cb))"

lemmas cb_defs = cb_Allow_def cb_RecordFailure_def cb_RecordSuccess_def cb_inv_def cb_phase_def
  state_codes config_ok_def clock_ok_def Let_def

lemma recovered_iff:
  "clock_ok now \<Longrightarrow> clock_ok t \<Longrightarrow> r \<le> sub64 now t \<longleftrightarrow> t + r \<le> now"
  by (auto simp: clock_ok_def sub64_times)

lemma count_up: "config_ok c \<Longrightarrow> 0 \<le> n \<Longrightarrow> n < FailureThreshold c \<Longrightarrow> add64 n 1 = n + 1"
  "config_ok c \<Longrightarrow> 0 \<le> n \<Longrightarrow> n < SuccessThreshold c \<Longrightarrow> add64 n 1 = n + 1"
  by (auto simp: config_ok_def intro: add64_Suc)

lemma config_ok_pos: "config_ok c \<Longrightarrow> 0 < FailureThreshold c" "config_ok c \<Longrightarrow> 0 < SuccessThreshold c"
  by (simp_all add: config_ok_def)

lemma cb_Allow_sim: "cb_inv b \<Longrightarrow> clock_ok now \<Longrightarrow>
    spec_allow (cb_config b) now (cb_phase b) = (fst (cb_Allow now b), cb_phase (snd (cb_Allow now b)))"
  by (auto simp: cb_Allow_def cb_phase_def cb_inv_def state_codes Let_def recovered_iff)

lemma cb_RecordFailure_sim: "cb_inv b \<Longrightarrow> clock_ok now \<Longrightarrow>
    cb_phase (cb_RecordFailure now b) = spec_failure (cb_config b) now (cb_phase b)"
  by (auto simp: cb_RecordFailure_def cb_phase_def cb_inv_def state_codes Let_def count_up)

lemma cb_RecordSuccess_sim: "cb_inv b \<Longrightarrow>
    cb_phase (cb_RecordSuccess b) = spec_success (cb_config b) (cb_phase b)"
  by (auto simp: cb_RecordSuccess_def cb_phase_def cb_inv_def state_codes Let_def count_up)

lemma cb_Allow_inv: "cb_inv b \<Longrightarrow> cb_inv (snd (cb_Allow now b))"
  by (auto simp: cb_Allow_def cb_inv_def state_codes Let_def config_ok_pos)

lemma cb_RecordFailure_inv: "cb_inv b \<Longrightarrow> clock_ok now \<Longrightarrow> cb_inv (cb_RecordFailure now b)"
  by (auto simp: cb_RecordFailure_def cb_inv_def state_codes Let_def count_up)

lemma cb_RecordSuccess_inv: "cb_inv b \<Longrightarrow> cb_inv (cb_RecordSuccess b)"
  by (auto simp: cb_RecordSuccess_def cb_inv_def state_codes Let_def count_up config_ok_pos)

lemma cb_conf_frame [simp]:
  "cb_config (snd (cb_Allow now b)) = cb_config b"
  "cb_config (cb_RecordFailure now b) = cb_config b"
  "cb_config (cb_RecordSuccess b) = cb_config b"
  by (simp_all add: cb_Allow_def cb_RecordFailure_def cb_RecordSuccess_def Let_def)

interpretation cb: breaker cb_Allow cb_RecordFailure cb_RecordSuccess cb_phase cb_config cb_inv
  by unfold_locales
    (auto intro: cb_Allow_sim cb_RecordFailure_sim cb_RecordSuccess_sim
       cb_Allow_inv cb_RecordFailure_inv cb_RecordSuccess_inv)

lemma breaker_defaults_ok:
  "config_ok (breaker_defaults c) \<longleftrightarrow>
     0 \<le> FailureThreshold c \<and> in64 (FailureThreshold c) \<and>
     0 \<le> SuccessThreshold c \<and> in64 (SuccessThreshold c) \<and> in64 (RecoveryTimeout c)"
  by (auto simp: config_ok_def breaker_defaults_def Let_def in64_def mul64_def Second_def i64_def)

lemma NewCircuitBreaker_inv: "config_ok (breaker_defaults c) \<Longrightarrow> cb_inv (NewCircuitBreaker c)"
  by (simp add: NewCircuitBreaker_def cb_inv_def clock_ok_def in64_def state_codes config_ok_def)

lemma NewCircuitBreaker_phase [simp]: "cb_phase (NewCircuitBreaker c) = Closed 0"
  by (simp add: NewCircuitBreaker_def cb_phase_def)

lemma NewCircuitBreaker_config [simp]: "cb_config (NewCircuitBreaker c) = breaker_defaults c"
  by (simp add: NewCircuitBreaker_def)

subsection \<open>Runs of the automaton\<close>

lemma run_breaker_append:
  "run_breaker allow failure success (xs @ ys) b =
     (let (ds, b') = run_breaker allow failure success xs b;
          (ds', b'') = run_breaker allow failure success ys b' in (ds @ ds', b''))"
proof (induction xs arbitrary: b)
  case (Cons x xs)
  then show ?case by (cases x) (simp_all add: split_def Let_def)
qed simp

lemma spec_failures_below:
  "n + int (length ts) < FailureThreshold c \<Longrightarrow>
   run_spec c (map Failure ts) (Closed n) = ([], Closed (n + int (length ts)))"
  by (induction ts arbitrary: n) (simp_all add: algebra_simps)

lemma spec_failures_open:
  "run_spec c (map Failure ts) (Open t) = ([], Open (last (t # ts)))"
  by (induction ts arbitrary: t) simp_all

lemma spec_failures_reach:
  assumes "ts \<noteq> []" and "FailureThreshold c \<le> n + int (length ts)"
  shows "run_spec c (map Failure ts) (Closed n) = ([], Open (last ts))"
  using assms
proof (induction ts arbitrary: n)
  case (Cons t ts)
  show ?case
  proof (cases "n + 1 \<ge> FailureThreshold c")
    case True
    then show ?thesis by (simp add: spec_failures_open)
  next
    case False
    with Cons.prems have "ts \<noteq> []" by auto
    moreover have "FailureThreshold c \<le> (n + 1) + int (length ts)" using Cons.prems by simp
    ultimately show ?thesis using Cons.IH False by simp
  qed
qed simp

lemma spec_successes_below:
  "n + int k < SuccessThreshold c \<Longrightarrow>
   run_spec c (replicate k Success) (HalfOpen n) = ([], HalfOpen (n + int k))"
  by (induction k arbitrary: n) (simp_all add: algebra_simps)

lemma spec_successes_closed: "run_spec c (replicate k Success) (Closed n) = ([], Closed n)"
  by (induction k) simp_all

lemma spec_successes_reach:
  assumes "0 < k" and "SuccessThreshold c \<le> n + int k"
  shows "run_spec c (replicate k Success) (HalfOpen n) = ([], Closed 0)"
  using assms
proof (induction k arbitrary: n)
  case (Suc k)
  show ?case
  proof (cases "n + 1 \<ge> SuccessThreshold c")
    case True
    then show ?thesis by (simp add: spec_successes_closed)
  next
    case False
    with Suc.prems have "0 < k" "SuccessThreshold c \<le> (n + 1) + int k" by auto
    from Suc.IH [OF this] False show ?thesis by simp
  qed
qed simp

lemma spec_denies_while_open:
  "(\<And>t'. t' \<in> set ts \<Longrightarrow> t' < t + RecoveryTimeout c) \<Longrightarrow>
   run_spec c (map AskAllow ts) (Open t) = (replicate (length ts) False, Open t)"
  by (induction ts) (auto simp: split_def Let_def not_le)

subsection \<open>Properties\<close>

abbreviation run_cb :: "breaker_event list \<Rightarrow> CircuitBreaker \<Rightarrow> bool list \<times> CircuitBreaker" where
  "run_cb \<equiv> run_breaker cb_Allow cb_RecordFailure cb_RecordSuccess"

text \<open>
  C1. Refinement: over any sequence of \<open>Allow\<close>, \<open>RecordFailure\<close> and \<open>RecordSuccess\<close> calls, a
  breaker made by \<open>NewCircuitBreaker\<close> from a configuration without negative values gives
  exactly the answers of the closed / open / half-open automaton with the defaulted
  thresholds, and ends in the state the automaton ends in.
\<close>

theorem breaker_refines_automaton:
  assumes "config_ok (breaker_defaults c)" and "list_all event_ok es"
  shows "run_spec (breaker_defaults c) es (Closed 0) =
    (fst (run_cb es (NewCircuitBreaker c)), cb_phase (snd (run_cb es (NewCircuitBreaker c))))"
  using cb.run_sim [OF NewCircuitBreaker_inv [OF assms(1)] assms(2)] by simp

lemma breaker_refines_automaton_witness:
  "run_spec (breaker_defaults \<lparr>FailureThreshold = 2, RecoveryTimeout = 10, SuccessThreshold = 1\<rparr>)
     [Failure 5, Failure 6, AskAllow 7, AskAllow 16, Success] (Closed 0) =
   (fst (run_cb [Failure 5, Failure 6, AskAllow 7, AskAllow 16, Success]
       (NewCircuitBreaker \<lparr>FailureThreshold = 2, RecoveryTimeout = 10, SuccessThreshold = 1\<rparr>)),
    cb_phase (snd (run_cb [Failure 5, Failure 6, AskAllow 7, AskAllow 16, Success]
       (NewCircuitBreaker \<lparr>FailureThreshold = 2, RecoveryTimeout = 10, SuccessThreshold = 1\<rparr>))))"
  by (rule breaker_refines_automaton) (simp_all add: breaker_defaults_ok in64_def clock_ok_def)

text \<open>
  C21. Life cycle: after at least \<open>FailureThreshold\<close> failures a fresh breaker denies every call
  made before the recovery time has passed since the last failure; the first call after that is
  let through as a probe; \<open>SuccessThreshold\<close> successes then close the breaker with its failure
  count at zero, and a single failure instead opens it again at once.
\<close>

theorem breaker_life_cycle:
  assumes ok: "config_ok (breaker_defaults c)"
    and times: "list_all clock_ok (ts @ early @ [late, again])"
    and ts: "ts \<noteq> []" "FailureThreshold (breaker_defaults c) \<le> int (length ts)"
    and early: "\<forall>t\<in>set early. t < last ts + RecoveryTimeout (breaker_defaults c)"
    and late: "last ts + RecoveryTimeout (breaker_defaults c) \<le> late"
    and k: "SuccessThreshold (breaker_defaults c) \<le> int k"
  shows "\<exists>cb. run_cb (map Failure ts @ map AskAllow early @ [AskAllow late]) (NewCircuitBreaker c) =
        (replicate (length early) False @ [True], cb) \<and> cb_phase cb = HalfOpen 0 \<and>
      cb_phase (snd (run_cb (replicate k Success) cb)) = Closed 0 \<and>
      cb_phase (cb_RecordFailure again cb) = Open again"
proof -
  let ?c = "breaker_defaults c" and ?es = "map Failure ts @ map AskAllow early @ [AskAllow late]"
  obtain ds cb where r: "run_cb ?es (NewCircuitBreaker c) = (ds, cb)" by force
  have inv0: "cb_inv (NewCircuitBreaker c)" by (rule NewCircuitBreaker_inv [OF ok])
  have evs: "list_all event_ok ?es" using times by (auto simp: list_all_iff)
  have "run_spec ?c ?es (Closed 0) = (replicate (length early) False @ [True], HalfOpen 0)"
    using spec_failures_reach [of ts ?c 0] spec_denies_while_open [of early "last ts" ?c] ts early late
    by (simp add: run_breaker_append split_def Let_def)
  with cb.run_sim [OF inv0 evs] r
  have ds: "ds = replicate (length early) False @ [True]" and ph: "cb_phase cb = HalfOpen 0" by auto
  have inv: "cb_inv cb" using cb.run_inv [OF inv0 evs] r by simp
  have conf: "cb_config cb = ?c"
    using cb.run_conf [of ?es "NewCircuitBreaker c"] r by simp
  have "0 < k" using k config_ok_pos(2) [OF ok] by (cases k) auto
  then have "cb_phase (snd (run_cb (replicate k Success) cb)) = Closed 0"
    using cb.run_sim [OF inv, of "replicate k Success"] spec_successes_reach [of k ?c 0] k ph conf
    by (simp add: list_all_iff)
  moreover have "cb_phase (cb_RecordFailure again cb) = Open again"
    using cb.failure_sim [OF inv, of again] ph times by simp
  ultimately show ?thesis using r ds ph by blast
qed

lemma breaker_life_cycle_witness:
  "\<exists>cb. run_cb (map Failure [3, 4] @ map AskAllow [5, 13] @ [AskAllow 14])
      (NewCircuitBreaker \<lparr>FailureThreshold = 2, RecoveryTimeout = 10, SuccessThreshold = 2\<rparr>) =
        (replicate (length [5, 13 :: int]) False @ [True], cb) \<and> cb_phase cb = HalfOpen 0 \<and>
      cb_phase (snd (run_cb (replicate 2 Success) cb)) = Closed 0 \<and>
      cb_phase (cb_RecordFailure 15 cb) = Open 15"
  by (rule breaker_life_cycle)
    (simp_all add: breaker_defaults_ok in64_def clock_ok_def, simp_all add: breaker_defaults_def)

end
