(* ===== verification/CircuitBreakerOptimized.thy ===== *)
theory CircuitBreakerOptimized
  imports CircuitBreaker
begin

text \<open>
  The lock-free breaker of \<open>circuit_breaker_optimized.go\<close>: the same contract with its own state
  (thresholds unpacked from the configuration), the statistics and the reset. As in
  \<open>CircuitBreaker\<close>, each operation is what a goroutine does when no other moves in between.
\<close>

subsection \<open>State and operations\<close>

record OptimizedCircuitBreaker =
  ocb_failureThreshold :: int
  ocb_recoveryTimeout :: int
  ocb_successThreshold :: int
  ocb_state :: int
  ocb_failures :: int
  ocb_lastFailure :: int
  ocb_successes :: int
  ocb_stateMask :: int

text \<open>
  \<open>time.Time\<close> values in the statistics are nanoseconds since 1970, with \<open>None\<close> for the zero
  \<open>time.Time\<close>.
\<close>

record CircuitBreakerStats =
  st_State :: int
  st_Failures :: int
  st_Successes :: int
  st_LastFailure :: "int option"
  st_IsRecovered :: bool
  st_TimeToRecover :: int

definition NewOptimizedCircuitBreaker :: "CircuitBreakerConfig \<Rightarrow> OptimizedCircuitBreaker" where
  "NewOptimizedCircuitBreaker config =
     (let config = (if FailureThreshold config = 0 then config\<lparr>FailureThreshold := 5\<rparr> else config);
          config = (if RecoveryTimeout config = 0 then config\<lparr>RecoveryTimeout := mul64 60 Second\<rparr> else config);
          config = (if SuccessThreshold config = 0 then config\<lparr>SuccessThreshold := 2\<rparr> else config)
      in \<lparr>ocb_failureThreshold = FailureThreshold config,
          ocb_recoveryTimeout = RecoveryTimeout config,
          ocb_successThreshold = SuccessThreshold config,
          ocb_state = StateClosed, ocb_failures = 0, ocb_lastFailure = 0, ocb_successes = 0,
          ocb_stateMask = 0\<rparr>)"

definition ocb_Allow :: "int \<Rightarrow> OptimizedCircuitBreaker \<Rightarrow> bool \<times> OptimizedCircuitBreaker" where
  "ocb_Allow now cb =
     (let currentState = ocb_state cb in
      if currentState = StateClosed then (True, cb)
      else if currentState = StateOpen then
        (let lastFail = ocb_lastFailure cb in
         if sub64 now lastFail \<ge> ocb_recoveryTimeout cb
         then (True, cb\<lparr>ocb_state := StateHalfOpen, ocb_successes := 0\<rparr>)
         else (False, cb))
      else if currentState = StateHalfOpen then (True, cb)
      else (False, cb))"

definition ocb_RecordFailure :: "int \<Rightarrow> OptimizedCircuitBreaker \<Rightarrow> OptimizedCircuitBreaker" where
  "ocb_RecordFailure now cb0 =
     (let cb = cb0\<lparr>ocb_lastFailure := now\<rparr>;
          currentState = ocb_state cb
      in if currentState = StateClosed then
           (let newFailures = add64 (ocb_failures cb) 1;
                cb = cb\<lparr>ocb_failures := newFailures\<rparr>
            in if newFailures \<ge> ocb_failureThreshold cb
               then (if ocb_state cb = StateClosed then cb\<lparr>ocb_state := StateOpen\<rparr> else cb)
               else cb)
         else if currentState = StateOpen then
           cb\<lparr>ocb_failures := add64 (ocb_failures cb) 1\<rparr>
         else if currentState = StateHalfOpen then
           cb\<lparr>ocb_successes := 0, ocb_failures := add64 (ocb_failures cb) 1, ocb_state := StateOpen\<rparr>
         else cb)"

definition ocb_RecordSuccess :: "OptimizedCircuitBreaker \<Rightarrow> OptimizedCircuitBreaker" where
  "ocb_RecordSuccess cb =
     (let currentState = ocb_state cb
      in if currentState = StateHalfOpen then
           (let newSuccesses = add64 (ocb_successes cb) 1;
                cb = cb\<lparr>ocb_successes := newSuccesses\<rparr>
            in if newSuccesses \<ge> ocb_successThreshold cb
               then (if ocb_state cb = StateHalfOpen
                     then cb\<lparr>ocb_state := StateClosed, ocb_failures := 0, ocb_successes := 0\<rparr>
                     else cb)
               else cb)
         else cb)"

definition ocb_GetStats :: "int \<Rightarrow> OptimizedCircuitBreaker \<Rightarrow> CircuitBreakerStats" where
  "ocb_GetStats now cb =
     (let state = ocb_state cb; lastFailNano = ocb_lastFailure cb;
          elapsed = sub64 now lastFailNano;
          open = (lastFailNano > 0 \<and> state = StateOpen);
          recovered = (elapsed \<ge> ocb_recoveryTimeout cb)
      in \<lparr>st_State = state, st_Failures = ocb_failures cb, st_Successes = ocb_successes cb,
          st_LastFailure = (if lastFailNano > 0 then Some lastFailNano else None),
          st_IsRecovered = (open \<and> recovered),
          st_TimeToRecover = (if open \<and> \<not> recovered then sub64 (ocb_recoveryTimeout cb) elapsed else 0)\<rparr>)"

definition ocb_Reset :: "OptimizedCircuitBreaker \<Rightarrow> OptimizedCircuitBreaker" where
  "ocb_Reset cb =
     cb\<lparr>ocb_state := StateClosed, ocb_failures := 0, ocb_successes := 0, ocb_lastFailure := 0\<rparr>"

text \<open>\<open>unsafe.Sizeof\<close> of a struct that has \<open>int64\<close> fields only: eight bytes for each, no padding.\<close>

definition ocb_MemoryFootprint :: "OptimizedCircuitBreaker \<Rightarrow> nat" where
  "ocb_MemoryFootprint cb =
     8 * length [ocb_failureThreshold cb, ocb_recoveryTimeout cb, ocb_successThreshold cb, ocb_state cb,
       ocb_failures cb, ocb_lastFailure cb, ocb_successes cb, ocb_stateMask cb]"

subsection \<open>The contract\<close>

definition ocb_config :: "OptimizedCircuitBreaker \<Rightarrow> CircuitBreakerConfig" where
  "ocb_config cb = \<lparr>FailureThreshold = ocb_failureThreshold cb,
     RecoveryTimeout = ocb_recoveryTimeout cb, SuccessThreshold = ocb_successThreshold cb\<rparr>"

definition ocb_phase :: "OptimizedCircuitBreaker \<Rightarrow> phase" where
  "ocb_phase cb = (if ocb_state cb = StateClosed then Closed (ocb_failures cb)
     else if ocb_state cb = StateOpen then Open (ocb_lastFailure cb)
     else HalfOpen (ocb_successes cb))"

definition ocb_inv :: "OptimizedCircuitBreaker \<Rightarrow> bool" where
  "ocb_inv cb \<longleftrightarrow> config_ok (ocb_config cb) \<and> clock_ok (ocb_lastFailure cb) \<and>
     ocb_state cb \<in> {StateClosed, StateOpen, StateHalfOpen} \<and>
     (ocb_state cb = StateClosed \<longrightarrow>
        0 \<le> ocb_failures cb \<and> ocb_failures cb < ocb_failureThreshold cb) \<and>
     (ocb_state cb = StateHalfOpen \<longrightarrow>
        0 \<le> ocb_successes cb \<and> ocb_successes cb < ocb_successThreshold cb)"

lemma ocb_config_simps [simp]:
  "FailureThreshold (ocb_config cb) = ocb_failureThreshold cb"
  "RecoveryTimeout (ocb_config cb) = ocb_recoveryTimeout cb"
  "SuccessThreshold (ocb_config cb) = ocb_successThreshold cb"
  by (simp_all add: ocb_config_def)

lemma ocb_count_up:
  "config_ok (ocb_config b) \<Longrightarrow> 0 \<le> n \<Longrightarrow> n < ocb_failureThreshold b \<Longrightarrow> add64 n 1 = n + 1"
  "config_ok (ocb_config b) \<Longrightarrow> 0 \<le> n \<Longrightarrow> n < ocb_successThreshold b \<Longrightarrow> add64 n 1 = n + 1"
  using count_up [of "ocb_config b"] by simp_all

lemma ocb_pos: "config_ok (ocb_config b) \<Longrightarrow> 0 < ocb_failureThreshold b"
  "config_ok (ocb_config b) \<Longrightarrow> 0 < ocb_successThreshold b"
  using config_ok_pos [of "ocb_config b"] by simp_all

lemma ocb_conf_frame [simp]:
  "ocb_config (snd (ocb_Allow now b)) = ocb_config b"
  "ocb_config (ocb_RecordFailure now b) = ocb_config b"
  "ocb_config (ocb_RecordSuccess b) = ocb_config b"
  by (simp_all add: ocb_config_def ocb_Allow_def ocb_RecordFailure_def ocb_RecordSuccess_def Let_def)

lemma ocb_Allow_sim: "ocb_inv b \<Longrightarrow> clock_ok now \<Longrightarrow>
    spec_allow (ocb_config b) now (ocb_phase b) = (fst (ocb_Allow now b), ocb_phase (snd (ocb_Allow now b)))"
  by (auto simp: ocb_Allow_def ocb_phase_def ocb_inv_def state_codes Let_def recovered_iff)

lemma ocb_RecordFailure_sim: "ocb_inv b \<Longrightarrow> clock_ok now \<Longrightarrow>
    ocb_phase (ocb_RecordFailure now b) = spec_failure (ocb_config b) now (ocb_phase b)"
  by (auto simp: ocb_RecordFailure_def ocb_phase_def ocb_inv_def state_codes Let_def ocb_count_up)

lemma ocb_RecordSuccess_sim: "ocb_inv b \<Longrightarrow>
    ocb_phase (ocb_RecordSuccess b) = spec_success (ocb_config b) (ocb_phase b)"
  by (auto simp: ocb_RecordSuccess_def ocb_phase_def ocb_inv_def state_codes Let_def ocb_count_up)

lemma ocb_Allow_inv: "ocb_inv b \<Longrightarrow> ocb_inv (snd (ocb_Allow now b))"
  unfolding ocb_inv_def ocb_conf_frame
  by (auto simp: ocb_Allow_def state_codes Let_def ocb_pos)

lemma ocb_RecordFailure_inv: "ocb_inv b \<Longrightarrow> clock_ok now \<Longrightarrow> ocb_inv (ocb_RecordFailure now b)"
  unfolding ocb_inv_def ocb_conf_frame
  by (auto simp: ocb_RecordFailure_def state_codes Let_def ocb_count_up)

lemma ocb_RecordSuccess_inv: "ocb_inv b \<Longrightarrow> ocb_inv (ocb_RecordSuccess b)"
  unfolding ocb_inv_def ocb_conf_frame
  by (auto simp: ocb_RecordSuccess_def state_codes Let_def ocb_count_up ocb_pos)

interpretation ocb: breaker ocb_Allow ocb_RecordFailure ocb_RecordSuccess ocb_phase ocb_config ocb_inv
  by unfold_locales
    (auto intro: ocb_Allow_sim ocb_RecordFailure_sim ocb_RecordSuccess_sim
       ocb_Allow_inv ocb_RecordFailure_inv ocb_RecordSuccess_inv)

interpretation both: two_breakers
  cb_Allow cb_RecordFailure cb_RecordSuccess cb_phase cb_config cb_inv
  ocb_Allow ocb_RecordFailure ocb_RecordSuccess ocb_phase ocb_config ocb_inv
  by unfold_locales

lemma NewOptimized_eq: "NewOptimizedCircuitBreaker c =
  \<lparr>ocb_failureThreshold = FailureThreshold (breaker_defaults c),
   ocb_recoveryTimeout = RecoveryTimeout (breaker_defaults c),
   ocb_successThreshold = SuccessThreshold (breaker_defaults c),
   ocb_state = 0, ocb_failures = 0, ocb_lastFailure = 0, ocb_successes = 0, ocb_stateMask = 0\<rparr>"
  by (simp add: NewOptimizedCircuitBreaker_def breaker_defaults_def StateClosed_def Let_def)

lemma NewOptimized_config [simp]: "ocb_config (NewOptimizedCircuitBreaker c) = breaker_defaults c"
  by (simp add: NewOptimized_eq ocb_config_def)

lemma NewOptimized_inv: "config_ok (breaker_defaults c) \<Longrightarrow> ocb_inv (NewOptimizedCircuitBreaker c)"
  unfolding ocb_inv_def NewOptimized_config
  by (simp add: NewOptimized_eq clock_ok_def in64_def state_codes config_ok_pos)

lemma NewOptimized_phase [simp]: "ocb_phase (NewOptimizedCircuitBreaker c) = Closed 0"
  by (simp add: NewOptimized_eq ocb_phase_def StateClosed_def)

lemma ocb_Reset_inv: "ocb_inv b \<Longrightarrow> ocb_inv (ocb_Reset b)"
  using ocb_pos [of b]
  by (simp add: ocb_inv_def ocb_Reset_def ocb_config_def clock_ok_def in64_def state_codes)

subsection \<open>Properties\<close>

abbreviation run_ocb :: "breaker_event list \<Rightarrow> OptimizedCircuitBreaker \<Rightarrow> bool list \<times> OptimizedCircuitBreaker" where
  "run_ocb \<equiv> run_breaker ocb_Allow ocb_RecordFailure ocb_RecordSuccess"

text \<open>
  C14. The optimized breaker is a drop-in replacement: built from the same configuration, it
  answers every sequence of calls exactly as the plain breaker does and stays in the same phase
  with the same counts, although it counts failures while open and resets by compare-and-swap.
\<close>

theorem optimized_breaker_equivalent:
  assumes "config_ok (breaker_defaults c)" and "list_all event_ok es"
  shows "fst (run_ocb es (NewOptimizedCircuitBreaker c)) = fst (run_cb es (NewCircuitBreaker c)) \<and>
     ocb_phase (snd (run_ocb es (NewOptimizedCircuitBreaker c))) =
     cb_phase (snd (run_cb es (NewCircuitBreaker c)))"
  using both.runs_agree [OF NewCircuitBreaker_inv [OF assms(1)] NewOptimized_inv [OF assms(1)] _ _ assms(2)]
  by simp

lemma optimized_breaker_equivalent_witness:
  "fst (run_ocb [Failure 5, AskAllow 6, Failure 7, AskAllow 70, Success]
      (NewOptimizedCircuitBreaker \<lparr>FailureThreshold = 1, RecoveryTimeout = 50, SuccessThreshold = 1\<rparr>)) =
    fst (run_cb [Failure 5, AskAllow 6, Failure 7, AskAllow 70, Success]
      (NewCircuitBreaker \<lparr>FailureThreshold = 1, RecoveryTimeout = 50, SuccessThreshold = 1\<rparr>)) \<and>
   ocb_phase (snd (run_ocb [Failure 5, AskAllow 6, Failure 7, AskAllow 70, Success]
      (NewOptimizedCircuitBreaker \<lparr>FailureThreshold = 1, RecoveryTimeout = 50, SuccessThreshold = 1\<rparr>))) =
   cb_phase (snd (run_cb [Failure 5, AskAllow 6, Failure 7, AskAllow 70, Success]
      (NewCircuitBreaker \<lparr>FailureThreshold = 1, RecoveryTimeout = 50, SuccessThreshold = 1\<rparr>)))"
  by (rule optimized_breaker_equivalent) (simp_all add: breaker_defaults_ok in64_def clock_ok_def)

text \<open>
  The statistics agree with the behaviour: once a failure was recorded, \<open>IsRecovered\<close> of an
  open breaker says whether \<open>Allow\<close> at that moment lets a call through, and otherwise
  \<open>TimeToRecover\<close> is the wait after which it does.
\<close>

lemma GetStats_predicts_Allow:
  assumes inv: "ocb_inv cb" and open_cb: "ocb_state cb = StateOpen" and last: "0 < ocb_lastFailure cb"
    and now: "clock_ok now" "ocb_lastFailure cb \<le> now"
  shows "st_IsRecovered (ocb_GetStats now cb) = fst (ocb_Allow now cb) \<and>
    (\<not> st_IsRecovered (ocb_GetStats now cb) \<longrightarrow> st_TimeToRecover (ocb_GetStats now cb) > 0 \<and>
       now + st_TimeToRecover (ocb_GetStats now cb) = ocb_lastFailure cb + ocb_recoveryTimeout cb)"
proof -
  have lf: "clock_ok (ocb_lastFailure cb)" and rt: "in64 (ocb_recoveryTimeout cb)"
    using inv by (auto simp: ocb_inv_def config_ok_def)
  have e: "sub64 now (ocb_lastFailure cb) = now - ocb_lastFailure cb"
    using now lf by (simp add: clock_ok_def sub64_times)
  have d: "sub64 (ocb_recoveryTimeout cb) (now - ocb_lastFailure cb) = ocb_recoveryTimeout cb - (now - ocb_lastFailure cb)"
    if "now - ocb_lastFailure cb < ocb_recoveryTimeout cb"
    using that now rt by (intro sub64_exact) (simp add: in64_def)
  show ?thesis
    using last open_cb d by (auto simp: ocb_GetStats_def ocb_Allow_def Let_def state_codes e)
qed

end
