(* ===== verification/Interleaving.thy ===== *)
theory Interleaving
  imports Prelude
begin

text \<open>
  Goroutines that share one object through \<open>sync/atomic\<close>: a system is the shared object and
  the program counters of any number of goroutines (a list, so the number is arbitrary but
  fixed). \<open>exec pc s\<close> is the next atomic operation of a goroutine at \<open>pc\<close>, with the values it
  has loaded so far inside \<open>pc\<close>; \<open>start pc pc'\<close> says that a goroutine whose last call is over
  may begin a call. \<open>mt_step\<close> moves one goroutine by one atomic operation, any one of them:
  Go's atomics are sequentially consistent, so these are all the executions.
\<close>

inductive mt_step :: "('pc \<Rightarrow> 's \<Rightarrow> 's \<times> 'pc) \<Rightarrow> ('pc \<Rightarrow> 'pc \<Rightarrow> bool) \<Rightarrow>
    's \<times> 'pc list \<Rightarrow> 's \<times> 'pc list \<Rightarrow> bool"
  for exec :: "'pc \<Rightarrow> 's \<Rightarrow> 's \<times> 'pc" and start :: "'pc \<Rightarrow> 'pc \<Rightarrow> bool"
where
  call: "i < length pcs \<Longrightarrow> start (pcs ! i) pc \<Longrightarrow> mt_step exec start (s, pcs) (s, pcs[i := pc])"
| move: "i < length pcs \<Longrightarrow> exec (pcs ! i) s = (s', pc) \<Longrightarrow> mt_step exec start (s, pcs) (s', pcs[i := pc])"

inductive_cases mt_stepE: "mt_step exec start (s, pcs) (s', pcs')"

inductive mt_reach :: "('pc \<Rightarrow> 's \<Rightarrow> 's \<times> 'pc) \<Rightarrow> ('pc \<Rightarrow> 'pc \<Rightarrow> bool) \<Rightarrow>
    's \<times> 'pc list \<Rightarrow> 's \<times> 'pc list \<Rightarrow> bool"
  for exec :: "'pc \<Rightarrow> 's \<Rightarrow> 's \<times> 'pc" and start :: "'pc \<Rightarrow> 'pc \<Rightarrow> bool" and c0 :: "'s \<times> 'pc list"
where
  init: "mt_reach exec start c0 c0"
| step: "mt_reach exec start c0 c \<Longrightarrow> mt_step exec start c c' \<Longrightarrow> mt_reach exec start c0 c'"

lemma mt_reach_trans:
  "mt_reach exec start c1 c2 \<Longrightarrow> mt_reach exec start c0 c1 \<Longrightarrow> mt_reach exec start c0 c2"
  by (induction rule: mt_reach.induct) (auto intro: mt_reach.step)

subsection \<open>Schedules\<close>

text \<open>
  A schedule names the goroutine of each step: \<open>(i, Some pc)\<close> begins a call at \<open>pc\<close> in
  goroutine \<open>i\<close>, \<open>(i, None)\<close> lets it execute one operation. \<open>None\<close> is a schedule that asks for
  a step that does not exist. Running one is a function, so that a concrete interleaving can be
  evaluated.
\<close>

fun mt_run :: "('pc \<Rightarrow> 's \<Rightarrow> 's \<times> 'pc) \<Rightarrow> ('pc \<Rightarrow> 'pc \<Rightarrow> bool) \<Rightarrow>
    (nat \<times> 'pc option) list \<Rightarrow> 's \<times> 'pc list \<Rightarrow> ('s \<times> 'pc list) option" where
  "mt_run exec start [] c = Some c"
| "mt_run exec start ((i, a) # as) (s, pcs) =
     (if i < length pcs then
        (case a of
           Some pc \<Rightarrow> if start (pcs ! i) pc then mt_run exec start as (s, pcs[i := pc]) else None
         | None \<Rightarrow> (case exec (pcs ! i) s of (s', pc') \<Rightarrow> mt_run exec start as (s', pcs[i := pc'])))
      else None)"

lemma mt_run_reach:
  "mt_run exec start as c = Some c' \<Longrightarrow> mt_reach exec start c0 c \<Longrightarrow> mt_reach exec start c0 c'"
proof (induction as arbitrary: c)
  case (Cons a as)
  obtain i b where a: "a = (i, b)" by force
  obtain s pcs where c: "c = (s, pcs)" by force
  from Cons.prems(1) a c have i: "i < length pcs" by (auto split: if_splits)
  show ?case
  proof (cases b)
    case None
    obtain s' pc' where e: "exec (pcs ! i) s = (s', pc')" by force
    then have "mt_step exec start c (s', pcs[i := pc'])" using i c by (auto intro: mt_step.move)
    with Cons a c i None e show ?thesis by (auto intro: mt_reach.step)
  next
    case (Some pc)
    with Cons.prems(1) a c i have st: "start (pcs ! i) pc" by (auto split: if_splits)
    then have "mt_step exec start c (s, pcs[i := pc])" using i c by (auto intro: mt_step.call)
    with Cons a c i Some st show ?thesis by (auto intro: mt_reach.step)
  qed
qed simp

subsection \<open>One goroutine alone\<close>

text \<open>\<open>solo exec n\<close>: \<open>n\<close> operations of one goroutine with no other in between.\<close>

fun solo :: "('pc \<Rightarrow> 's \<Rightarrow> 's \<times> 'pc) \<Rightarrow> nat \<Rightarrow> 'pc \<Rightarrow> 's \<Rightarrow> 's \<times> 'pc" where
  "solo exec 0 pc s = (s, pc)"
| "solo exec (Suc n) pc s = (case exec pc s of (s', pc') \<Rightarrow> solo exec n pc' s')"

subsection \<open>Thread-modular invariants\<close>

locale thread_modular =
  fixes exec :: "'pc \<Rightarrow> 's \<Rightarrow> 's \<times> 'pc"
    and start :: "'pc \<Rightarrow> 'pc \<Rightarrow> bool"
    and shared_ok :: "'s \<Rightarrow> bool"
    and local_ok :: "'pc \<Rightarrow> bool"
  assumes exec_ok: "shared_ok s \<Longrightarrow> local_ok pc \<Longrightarrow> exec pc s = (s', pc') \<Longrightarrow> shared_ok s' \<and> local_ok pc'"
    and start_ok: "local_ok pc \<Longrightarrow> start pc pc' \<Longrightarrow> local_ok pc'"
begin

lemma step_ok:
  assumes "mt_step exec start (s, pcs) (s', pcs')" and "shared_ok s" and "list_all local_ok pcs"
  shows "shared_ok s' \<and> list_all local_ok pcs'"
  using assms(1)
proof cases
  case (call i pc)
  with assms(3) have "local_ok (pcs ! i)" by (simp add: list_all_length)
  with call assms show ?thesis by (auto intro: list_all_update start_ok)
next
  case (move i pc)
  with assms(3) have "local_ok (pcs ! i)" by (simp add: list_all_length)
  with exec_ok [OF assms(2) this] move have "shared_ok s'" "local_ok pc" by auto
  with move assms(3) show ?thesis by (auto intro: list_all_update)
qed

lemma reach_ok:
  assumes "mt_reach exec start c0 c" and "shared_ok (fst c0)" and "list_all local_ok (snd c0)"
  shows "shared_ok (fst c) \<and> list_all local_ok (snd c)"
  using assms
proof (induction rule: mt_reach.induct)
  case (step c c')
  then show ?case using step_ok [of "fst c" "snd c" "fst c'" "snd c'"] by simp
qed simp

end

end
