(* ===== verification/CircuitBreakerConcurrent.thy ===== *)
theory CircuitBreakerConcurrent
  imports CircuitBreakerOptimized Interleaving
begin

text \<open>
  Both breakers under concurrency: every atomic load, store, add and compare-and-swap of
  \<open>Allow\<close>, \<open>RecordFailure\<close> and \<open>RecordSuccess\<close> is one step of a goroutine. The constructors of
  \<open>cb_pc\<close> are the points between two of them; \<open>Answer\<close> is the end of \<open>Allow\<close>.
\<close>

subsection \<open>The plain breaker\<close>

datatype cb_pc =
  Idle | Answer bool
| AllowLoad int | AllowLast int | AllowSwap | AllowReset
| FailStamp int | FailLoad | FailCount | FailOpen
| FailHalfCount | FailHalfOpen | FailHalfReset
| SuccLoad | SuccCount | SuccClose | SuccFailures | SuccSuccesses

fun cb_exec :: "cb_pc \<Rightarrow> CircuitBreaker \<Rightarrow> CircuitBreaker \<times> cb_pc" where
  "cb_exec Idle cb = (cb, Idle)"
| "cb_exec (Answer d) cb = (cb, Answer d)"
| "cb_exec (AllowLoad now) cb =
     (cb, if cb_state cb = StateClosed then Answer True
          else if cb_state cb = StateOpen then AllowLast now
          else if cb_state cb = StateHalfOpen then Answer True
          else Answer False)"
| "cb_exec (AllowLast now) cb =
     (cb, if sub64 now (cb_lastFailure cb) \<ge> RecoveryTimeout (cb_config cb)
          then AllowSwap else Answer False)"
| "cb_exec AllowSwap cb =
     (if cb_state cb = StateOpen then (cb\<lparr>cb_state := StateHalfOpen\<rparr>, AllowReset)
      else (cb, Answer False))"
| "cb_exec AllowReset cb = (cb\<lparr>cb_successes := 0\<rparr>, Answer True)"
| "cb_exec (FailStamp now) cb = (cb\<lparr>cb_lastFailure := now\<rparr>, FailLoad)"
| "cb_exec FailLoad cb =
     (cb, if cb_state cb = StateClosed then FailCount
          else if cb_state cb = StateOpen then Idle
          else if cb_state cb = StateHalfOpen then FailHalfCount
          else Idle)"
| "cb_exec FailCount cb =
     (let failures = add64 (cb_failures cb) 1
      in (cb\<lparr>cb_failures := failures\<rparr>,
          if failures \<ge> FailureThreshold (cb_config cb) then FailOpen else Idle))"
| "cb_exec FailOpen cb = (cb\<lparr>cb_state := StateOpen\<rparr>, Idle)"
| "cb_exec FailHalfCount cb = (cb\<lparr>cb_failures := add64 (cb_failures cb) 1\<rparr>, FailHalfOpen)"
| "cb_exec FailHalfOpen cb = (cb\<lparr>cb_state := StateOpen\<rparr>, FailHalfReset)"
| "cb_exec FailHalfReset cb = (cb\<lparr>cb_successes := 0\<rparr>, Idle)"
| "cb_exec SuccLoad cb = (cb, if cb_state cb = StateHalfOpen then SuccCount else Idle)"
| "cb_exec SuccCount cb =
     (let successes = add64 (cb_successes cb) 1
      in (cb\<lparr>cb_successes := successes\<rparr>,
          if successes \<ge> SuccessThreshold (cb_config cb) then SuccClose else Idle))"
| "cb_exec SuccClose cb = (cb\<lparr>cb_state := StateClosed\<rparr>, SuccFailures)"
| "cb_exec SuccFailures cb = (cb\<lparr>cb_failures := 0\<rparr>, SuccSuccesses)"
| "cb_exec SuccSuccesses cb = (cb\<lparr>cb_successes := 0\<rparr>, Idle)"

fun cb_over :: "cb_pc \<Rightarrow> bool" where
  "cb_over Idle = True" | "cb_over (Answer d) = True" | "cb_over pc = False"

fun cb_entry :: "cb_pc \<Rightarrow> bool" where
  "cb_entry (AllowLoad now) = clock_ok now"
| "cb_entry (FailStamp now) = clock_ok now"
| "cb_entry SuccLoad = True"
| "cb_entry pc = False"

definition cb_start :: "cb_pc \<Rightarrow> cb_pc \<Rightarrow> bool" where
  "cb_start pc pc' \<longleftrightarrow> cb_over pc \<and> cb_entry pc'"

text \<open>Alone, a goroutine executes the sequential operations.\<close>

lemma solo_cb_Allow:
  "solo cb_exec 4 (AllowLoad now) cb = (snd (cb_Allow now cb), Answer (fst (cb_Allow now cb)))"
  by (simp add: eval_nat_numeral cb_Allow_def Let_def state_codes)

lemma solo_cb_RecordFailure:
  "solo cb_exec 5 (FailStamp now) cb = (cb_RecordFailure now cb, Idle)"
  by (simp add: eval_nat_numeral cb_RecordFailure_def Let_def state_codes)

lemma solo_cb_RecordSuccess:
  "solo cb_exec 5 SuccLoad cb = (cb_RecordSuccess cb, Idle)"
  by (simp add: eval_nat_numeral cb_RecordSuccess_def Let_def state_codes)

definition code_ok :: "int \<Rightarrow> bool" where
  "code_ok s \<longleftrightarrow> s \<in> {StateClosed, StateOpen, StateHalfOpen}"

interpretation cbt: thread_modular cb_exec cb_start
    "\<lambda>cb. code_ok (cb_state cb)" "\<lambda>_. True"
proof unfold_locales
  fix s pc s' pc'
  assume "code_ok (cb_state s)" and "cb_exec pc s = (s', pc')"
  then show "code_ok (cb_state s') \<and> True"
    by (cases pc) (auto simp: code_ok_def Let_def split: if_splits)
qed simp

subsection \<open>The optimized breaker\<close>

datatype ocb_pc =
  OIdle | OAnswer bool
| OAllowLoad int | OAllowLast int | OAllowSwap | OAllowReset | OAllowReread
| OFailStamp int | OFailLoad | OFailCount | OFailSwap | OFailOpenCount
| OFailHalfReset | OFailHalfCount | OFailHalfOpen
| OSuccLoad | OSuccCount | OSuccSwap | OSuccFailures | OSuccSuccesses

fun ocb_exec :: "ocb_pc \<Rightarrow> OptimizedCircuitBreaker \<Rightarrow> OptimizedCircuitBreaker \<times> ocb_pc" where
  "ocb_exec OIdle cb = (cb, OIdle)"
| "ocb_exec (OAnswer d) cb = (cb, OAnswer d)"
| "ocb_exec (OAllowLoad now) cb =
     (cb, if ocb_state cb = StateClosed then OAnswer True
          else if ocb_state cb = StateOpen then OAllowLast now
          else if ocb_state cb = StateHalfOpen then OAnswer True
          else OAnswer False)"
| "ocb_exec (OAllowLast now) cb =
     (cb, if sub64 now (ocb_lastFailure cb) \<ge> ocb_recoveryTimeout cb then OAllowSwap else OAnswer False)"
| "ocb_exec OAllowSwap cb =
     (if ocb_state cb = StateOpen then (cb\<lparr>ocb_state := StateHalfOpen\<rparr>, OAllowReset)
      else (cb, OAllowReread))"
| "ocb_exec OAllowReset cb = (cb\<lparr>ocb_successes := 0\<rparr>, OAnswer True)"
| "ocb_exec OAllowReread cb = (cb, OAnswer (ocb_state cb = StateHalfOpen))"
| "ocb_exec (OFailStamp now) cb = (cb\<lparr>ocb_lastFailure := now\<rparr>, OFailLoad)"
| "ocb_exec OFailLoad cb =
     (cb, if ocb_state cb = StateClosed then OFailCount
          else if ocb_state cb = StateOpen then OFailOpenCount
          else if ocb_state cb = StateHalfOpen then OFailHalfReset
          else OIdle)"
| "ocb_exec OFailCount cb =
     (let newFailures = add64 (ocb_failures cb) 1
      in (cb\<lparr>ocb_failures := newFailures\<rparr>,
          if newFailures \<ge> ocb_failureThreshold cb then OFailSwap else OIdle))"
| "ocb_exec OFailSwap cb =
     (if ocb_state cb = StateClosed then cb\<lparr>ocb_state := StateOpen\<rparr> else cb, OIdle)"
| "ocb_exec OFailOpenCount cb = (cb\<lparr>ocb_failures := add64 (ocb_failures cb) 1\<rparr>, OIdle)"
| "ocb_exec OFailHalfReset cb = (cb\<lparr>ocb_successes := 0\<rparr>, OFailHalfCount)"
| "ocb_exec OFailHalfCount cb = (cb\<lparr>ocb_failures := add64 (ocb_failures cb) 1\<rparr>, OFailHalfOpen)"
| "ocb_exec OFailHalfOpen cb = (cb\<lparr>ocb_state := StateOpen\<rparr>, OIdle)"
| "ocb_exec OSuccLoad cb = (cb, if ocb_state cb = StateHalfOpen then OSuccCount else OIdle)"
| "ocb_exec OSuccCount cb =
     (let newSuccesses = add64 (ocb_successes cb) 1
      in (cb\<lparr>ocb_successes := newSuccesses\<rparr>,
          if newSuccesses \<ge> ocb_successThreshold cb then OSuccSwap else OIdle))"
| "ocb_exec OSuccSwap cb =
     (if ocb_state cb = StateHalfOpen then (cb\<lparr>ocb_state := StateClosed\<rparr>, OSuccFailures)
      else (cb, OIdle))"
| "ocb_exec OSuccFailures cb = (cb\<lparr>ocb_failures := 0\<rparr>, OSuccSuccesses)"
| "ocb_exec OSuccSuccesses cb = (cb\<lparr>ocb_successes := 0\<rparr>, OIdle)"

text \<open>
  In the optimized \<open>Allow\<close> the state is loaded before the clock is read; the reading is
  arbitrary, so it can be fixed when the call begins.
\<close>

fun ocb_over :: "ocb_pc \<Rightarrow> bool" where
  "ocb_over OIdle = True" | "ocb_over (OAnswer d) = True" | "ocb_over pc = False"

fun ocb_entry :: "ocb_pc \<Rightarrow> bool" where
  "ocb_entry (OAllowLoad now) = clock_ok now"
| "ocb_entry (OFailStamp now) = clock_ok now"
| "ocb_entry OSuccLoad = True"
| "ocb_entry pc = False"

definition ocb_start :: "ocb_pc \<Rightarrow> ocb_pc \<Rightarrow> bool" where
  "ocb_start pc pc' \<longleftrightarrow> ocb_over pc \<and> ocb_entry pc'"

lemma solo_ocb_Allow:
  "solo ocb_exec 4 (OAllowLoad now) cb = (snd (ocb_Allow now cb), OAnswer (fst (ocb_Allow now cb)))"
  by (simp add: eval_nat_numeral ocb_Allow_def Let_def state_codes)

lemma solo_ocb_RecordFailure:
  "solo ocb_exec 5 (OFailStamp now) cb = (ocb_RecordFailure now cb, OIdle)"
  by (simp add: eval_nat_numeral ocb_RecordFailure_def Let_def state_codes)

lemma solo_ocb_RecordSuccess:
  "solo ocb_exec 5 OSuccLoad cb = (ocb_RecordSuccess cb, OIdle)"
  by (simp add: eval_nat_numeral ocb_RecordSuccess_def Let_def state_codes)

interpretation ocbt: thread_modular ocb_exec ocb_start
    "\<lambda>cb. code_ok (ocb_state cb)" "\<lambda>_. True"
proof unfold_locales
  fix s pc s' pc'
  assume "code_ok (ocb_state s)" and "ocb_exec pc s = (s', pc')"
  then show "code_ok (ocb_state s') \<and> True"
    by (cases pc) (auto simp: code_ok_def Let_def split: if_splits)
qed simp

subsection \<open>Legal transitions\<close>

definition legal_transition :: "int \<Rightarrow> int \<Rightarrow> bool" where
  "legal_transition s t \<longleftrightarrow> s = t \<or>
     (s, t) \<in> {(StateClosed, StateOpen), (StateOpen, StateHalfOpen),
              (StateHalfOpen, StateClosed), (StateHalfOpen, StateOpen)}"

lemma ocb_exec_legal:
  "code_ok (ocb_state s) \<Longrightarrow> ocb_exec pc s = (s', pc') \<Longrightarrow> legal_transition (ocb_state s) (ocb_state s')"
  by (cases pc) (auto simp: legal_transition_def code_ok_def state_codes Let_def split: if_splits)


definition race_config :: CircuitBreakerConfig where
  "race_config = \<lparr>FailureThreshold = 1, RecoveryTimeout = 5, SuccessThreshold = 1\<rparr>"


text \<open>
  The race of the plain breaker: goroutine 0 fails at time 1 and opens it; at time 9 goroutine 0
  asks again and half-opens it; goroutine 1 has succeeded and is about to store "closed" when
  goroutine 0 records a failure and stores "open"; the pending store then closes the breaker.
\<close>

definition closing_race :: "(nat \<times> cb_pc option) list" where
  "closing_race =
     [(0, Some (FailStamp 1)), (0, None), (0, None), (0, None), (0, None),
      (0, Some (AllowLoad 9)), (0, None), (0, None), (0, None), (0, None),
      (1, Some SuccLoad), (1, None), (1, None),
      (0, Some (FailStamp 10)), (0, None), (0, None), (0, None), (0, None), (0, None)]"

text \<open>
  The plain breaker, unlike the optimized one, can go from open straight to closed: there is
  an interleaving of two goroutines in which a breaker that has just been opened by a failure at
  time 10 is closed by the next step, without the recovery time passing or a probe succeeding.
\<close>

theorem plain_breaker_can_close_while_open:
  "\<exists>cb pcs cb' pcs'. mt_reach cb_exec cb_start (NewCircuitBreaker race_config, [Idle, Idle]) (cb, pcs) \<and>
     mt_step cb_exec cb_start (cb, pcs) (cb', pcs') \<and>
     cb_state cb = StateOpen \<and> cb_lastFailure cb = 10 \<and> cb_state cb' = StateClosed"
proof -
  define cb where "cb = \<lparr>cb_config = race_config, cb_state = StateOpen, cb_failures = 2,
    cb_lastFailure = 10, cb_successes = 0\<rparr>"
  have "mt_run cb_exec cb_start closing_race (NewCircuitBreaker race_config, [Idle, Idle]) =
      Some (cb, [Idle, SuccClose])"
    by (simp add: closing_race_def race_config_def NewCircuitBreaker_def breaker_defaults_def
        cb_def cb_start_def state_codes clock_ok_def in64_def add64_def sub64_def i64_def)
  then have "mt_reach cb_exec cb_start (NewCircuitBreaker race_config, [Idle, Idle]) (cb, [Idle, SuccClose])"
    by (rule mt_run_reach) (rule mt_reach.init)
  moreover have "mt_step cb_exec cb_start (cb, [Idle, SuccClose])
      (cb\<lparr>cb_state := StateClosed\<rparr>, [Idle, SuccClose][1 := SuccFailures])"
    by (rule mt_step.move) simp_all
  ultimately show ?thesis
    by (intro exI conjI) (assumption, assumption, simp_all add: cb_def)
qed

end
