(* ===== verification/RateLimiter.thy ===== *)
theory RateLimiter
  imports Prelude
begin

text \<open>
  The token bucket of \<open>rate_limiter.go\<close> as one goroutine sees it, and the contract \<open>limiter\<close>
  of everything that implements the \<open>Limiter\<close> interface of \<open>types.go\<close>: what is promised about
  how many calls are let through. Readings of the clock are the argument \<open>now\<close>.
\<close>

subsection \<open>State and operations\<close>

record RateLimiter =
  rl_tokens :: int
  rl_maxTokens :: int
  rl_refillRate :: int
  rl_lastRefill :: int

definition NewRateLimiter :: "int \<Rightarrow> int \<Rightarrow> int \<Rightarrow> RateLimiter" where
  "NewRateLimiter now maxTokens refillRate =
     \<lparr>rl_tokens = maxTokens, rl_maxTokens = maxTokens, rl_refillRate = refillRate, rl_lastRefill = now\<rparr>"

text \<open>The two values \<open>refillTokens\<close> computes from what it loaded.\<close>

definition rl_tokensToAdd :: "int \<Rightarrow> int \<Rightarrow> RateLimiter \<Rightarrow> int" where
  "rl_tokensToAdd now lastRefill rl =
     (let elapsed = sub64 now lastRefill
      in if rl_refillRate rl > 0 then div64 elapsed (rl_refillRate rl) else 0)"

definition rl_newTokens :: "int \<Rightarrow> int \<Rightarrow> RateLimiter \<Rightarrow> int" where
  "rl_newTokens currentTokens tokensToAdd rl =
     (let newTokens = add64 currentTokens tokensToAdd
      in if newTokens > rl_maxTokens rl then rl_maxTokens rl else newTokens)"

text \<open>
  The loop of \<open>refillTokens\<close> is left in its first round when no other goroutine moves: the
  compare-and-swap finds the value just loaded.
\<close>

definition rl_refillTokens :: "int \<Rightarrow> RateLimiter \<Rightarrow> RateLimiter" where
  "rl_refillTokens now rl =
     (let currentTokens = rl_tokens rl;
          lastRefill = rl_lastRefill rl;
          tokensToAdd = rl_tokensToAdd now lastRefill rl
      in if tokensToAdd = 0 then rl
         else (let newTokens = rl_newTokens currentTokens tokensToAdd rl;
                   newLastRefill = add64 lastRefill (mul64 tokensToAdd (rl_refillRate rl))
               in rl\<lparr>rl_lastRefill := newLastRefill, rl_tokens := newTokens\<rparr>))"

lemmas rl_refill_defs = rl_refillTokens_def rl_tokensToAdd_def rl_newTokens_def

definition rl_consumeToken :: "RateLimiter \<Rightarrow> bool \<times> RateLimiter" where
  "rl_consumeToken rl =
     (let currentTokens = rl_tokens rl
      in if currentTokens \<le> 0 then (False, rl)
         else (True, rl\<lparr>rl_tokens := sub64 currentTokens 1\<rparr>))"

definition rl_Allow :: "int \<Rightarrow> RateLimiter \<Rightarrow> bool \<times> RateLimiter" where
  "rl_Allow now rl = rl_consumeToken (rl_refillTokens now rl)"

subsection \<open>The contract of a limiter\<close>

text \<open>A run: one call of \<open>Allow\<close> at each of the given times.\<close>

fun run_limiter :: "(int \<Rightarrow> 'l \<Rightarrow> bool \<times> 'l) \<Rightarrow> int list \<Rightarrow> 'l \<Rightarrow> bool list \<times> 'l" where
  "run_limiter allow [] l = ([], l)"
| "run_limiter allow (now # ts) l =
     (let (d, l') = allow now l; (ds, l'') = run_limiter allow ts l' in (d # ds, l''))"

definition grants :: "bool list \<Rightarrow> int" where
  "grants ds = int (length (filter id ds))"

lemma grants_simps [simp]: "grants [] = 0" "grants (d # ds) = of_bool d + grants ds"
  by (simp_all add: grants_def)

lemma grants_append [simp]: "grants (xs @ ys) = grants xs + grants ys"
  by (simp add: grants_def)

lemma grants_nonneg [simp]: "0 \<le> grants ds"
  by (simp add: grants_def)

text \<open>Readings of a clock that never goes back, between 1970 and 2116.\<close>

definition time_ok :: "int \<Rightarrow> bool" where
  "time_ok t \<longleftrightarrow> 0 \<le> t \<and> t < 2 ^ 62"

fun clock_from :: "int \<Rightarrow> int list \<Rightarrow> bool" where
  "clock_from t [] = True"
| "clock_from t (u # us) = (t \<le> u \<and> time_ok u \<and> clock_from u us)"

fun spaced :: "int \<Rightarrow> int \<Rightarrow> int list \<Rightarrow> bool" where
  "spaced d t [] = True"
| "spaced d t (u # us) = (t + d \<le> u \<and> spaced d u us)"

lemma clock_from_last: "clock_from t us \<Longrightarrow> t \<le> last (t # us)"
  by (induction us arbitrary: t) force+

text \<open>
  \<open>level l\<close> measures in nanoseconds what a limiter may still let through: a call let through
  costs \<open>period l\<close>, nothing ever raises the level, and at time \<open>t\<close> it is at least \<open>- t\<close>
  (\<open>valid t l\<close>: the state is one that calls up to \<open>t\<close> can produce). \<open>ready l\<close> is a time from
  which a call is let through for sure.
\<close>

locale limiter =
  fixes allow :: "int \<Rightarrow> 'l \<Rightarrow> bool \<times> 'l"
    and valid :: "int \<Rightarrow> 'l \<Rightarrow> bool"
    and level :: "'l \<Rightarrow> int"
    and period :: "'l \<Rightarrow> int"
    and ready :: "'l \<Rightarrow> int"
  assumes allow_valid: "valid t l \<Longrightarrow> t \<le> now \<Longrightarrow> time_ok now \<Longrightarrow> valid now (snd (allow now l))"
    and allow_level: "valid t l \<Longrightarrow> t \<le> now \<Longrightarrow> time_ok now \<Longrightarrow>
        level (snd (allow now l)) + (if fst (allow now l) then period l else 0) \<le> level l"
    and level_bound: "valid t l \<Longrightarrow> - t \<le> level l"
    and allow_period: "period (snd (allow now l)) = period l"
    and period_pos: "valid t l \<Longrightarrow> 0 < period l"
    and allow_ready: "valid t l \<Longrightarrow> t \<le> now \<Longrightarrow> time_ok now \<Longrightarrow> ready l \<le> now \<Longrightarrow> fst (allow now l)"
    and ready_bound: "valid t l \<Longrightarrow> ready l \<le> t + period l"
begin

lemma run_valid:
  "valid t l \<Longrightarrow> clock_from t ts \<Longrightarrow> valid (last (t # ts)) (snd (run_limiter allow ts l))"
proof (induction ts arbitrary: t l)
  case (Cons now ts)
  then have "valid now (snd (allow now l))" by (auto intro: allow_valid)
  from Cons.IH [OF this] Cons.prems show ?case by (simp add: split_def Let_def)
qed simp

lemma run_level:
  "valid t l \<Longrightarrow> clock_from t ts \<Longrightarrow>
   level (snd (run_limiter allow ts l)) + period l * grants (fst (run_limiter allow ts l)) \<le> level l"
proof (induction ts arbitrary: t l)
  case (Cons now ts)
  then have v: "valid now (snd (allow now l))" by (auto intro: allow_valid)
  have "level (snd (allow now l)) + (if fst (allow now l) then period l else 0) \<le> level l"
    using Cons.prems by (intro allow_level) auto
  with Cons.IH [OF v] Cons.prems show ?case
    by (simp add: split_def Let_def allow_period algebra_simps split: if_splits)
qed simp

text \<open>The rate promise: the calls let through up to the last call are paid by the level.\<close>

lemma grants_bounded:
  assumes "valid t l" and "clock_from t ts"
  shows "period l * grants (fst (run_limiter allow ts l)) \<le> level l + last (t # ts)"
  using run_level [OF assms] level_bound [OF run_valid [OF assms]] by linarith

text \<open>The liveness promise: calls at least a period apart are all let through.\<close>

lemma spaced_granted:
  "valid t l \<Longrightarrow> clock_from t ts \<Longrightarrow> spaced (period l) t ts \<Longrightarrow>
   fst (run_limiter allow ts l) = replicate (length ts) True"
proof (induction ts arbitrary: t l)
  case (Cons now ts)
  then have now: "t \<le> now" "time_ok now" "ready l \<le> now"
    using ready_bound [of t l] by auto
  have "fst (allow now l)" by (rule allow_ready [OF Cons.prems(1) now])
  moreover have "valid now (snd (allow now l))" by (rule allow_valid [OF Cons.prems(1) now(1,2)])
  ultimately show ?case
    using Cons by (simp add: split_def Let_def allow_period)
qed simp

end

text \<open>Limiters that also bound what is let through at one instant.\<close>

locale burst_limiter = limiter +
  fixes burst :: "'l \<Rightarrow> int"
    and left :: "'l \<Rightarrow> int"
  assumes first_left: "valid t l \<Longrightarrow> t \<le> now \<Longrightarrow> time_ok now \<Longrightarrow>
        left (snd (allow now l)) + of_bool (fst (allow now l)) \<le> burst l \<and> 0 \<le> left (snd (allow now l))"
    and again: "valid t l \<Longrightarrow> t \<le> now \<Longrightarrow> time_ok now \<Longrightarrow> snd (allow now l) = l' \<Longrightarrow>
        fst (allow now l') = (0 < left l') \<and> left (snd (allow now l')) = left l' - of_bool (0 < left l')"
begin

lemma again_run:
  "valid t l \<Longrightarrow> t \<le> now \<Longrightarrow> time_ok now \<Longrightarrow> snd (allow now l) = l' \<Longrightarrow> 0 \<le> left l' \<Longrightarrow>
   grants (fst (run_limiter allow (replicate k now) l')) \<le> left l'"
proof (induction k arbitrary: l l' t)
  case (Suc k)
  obtain d l'' where a: "allow now l' = (d, l'')" by force
  then have d: "d = (0 < left l')" and l'': "left l'' = left l' - of_bool (0 < left l')"
    using again [OF Suc.prems(1-4)] by auto
  have v: "valid now l'" using allow_valid [OF Suc.prems(1-3)] Suc.prems(4) by simp
  have "grants (fst (run_limiter allow (replicate k now) l'')) \<le> left l''"
    using Suc.IH [OF v _ Suc.prems(3), of l''] a l'' Suc.prems(5) by simp
  with a d l'' show ?case by (simp add: split_def Let_def)
qed simp

lemma burst_bounded:
  assumes "valid t l" and "t \<le> now" and "time_ok now" and "0 \<le> burst l"
  shows "grants (fst (run_limiter allow (replicate k now) l)) \<le> burst l"
proof (cases k)
  case (Suc j)
  obtain d l' where a: "allow now l = (d, l')" by force
  with first_left [OF assms(1-3)] have "left l' + of_bool d \<le> burst l" "0 \<le> left l'" by auto
  moreover have "grants (fst (run_limiter allow (replicate j now) l')) \<le> left l'"
    using again_run [OF assms(1-3), of l' j] a \<open>0 \<le> left l'\<close> by simp
  ultimately show ?thesis using Suc a by (simp add: split_def Let_def)
qed (simp add: assms)

end

subsection \<open>The token bucket meets the contract\<close>

definition rl_valid :: "int \<Rightarrow> RateLimiter \<Rightarrow> bool" where
  "rl_valid t rl \<longleftrightarrow> 0 < rl_refillRate rl \<and> 0 < rl_maxTokens rl \<and> rl_maxTokens rl < 2 ^ 62 \<and>
     0 \<le> rl_tokens rl \<and> rl_tokens rl \<le> rl_maxTokens rl \<and>
     0 \<le> rl_lastRefill rl \<and> rl_lastRefill rl \<le> t \<and> time_ok t"

definition rl_level :: "RateLimiter \<Rightarrow> int" where
  "rl_level rl = rl_refillRate rl * rl_tokens rl - rl_lastRefill rl"

definition rl_ready :: "RateLimiter \<Rightarrow> int" where
  "rl_ready rl = rl_lastRefill rl + rl_refillRate rl"

lemma refill_arith:
  assumes "0 \<le> t0" and "t0 \<le> now" and "time_ok now" and "0 < (rate :: int)"
  shows "sub64 now t0 = now - t0"
    and "div64 (now - t0) rate = (now - t0) div rate"
    and "0 \<le> (now - t0) div rate" and "(now - t0) div rate < 2 ^ 62"
    and "mul64 ((now - t0) div rate) rate = (now - t0) div rate * rate"
    and "add64 t0 ((now - t0) div rate * rate) = t0 + (now - t0) div rate * rate"
    and "t0 + (now - t0) div rate * rate \<le> now"
proof -
  have b: "0 \<le> now - t0" "now - t0 < 2 ^ 62" "now < 2 ^ 62"
    using assms by (auto simp: time_ok_def)
  then show "sub64 now t0 = now - t0" and "div64 (now - t0) rate = (now - t0) div rate"
    using assms by (auto intro!: sub64_exact div64_exact simp: in64_def)
  have q: "(now - t0) div rate * rate \<le> now - t0"
    using pos_mod_sign [OF assms(4), of "now - t0"] minus_mod_eq_div_mult [of "now - t0" rate] by linarith
  show q0: "0 \<le> (now - t0) div rate" using b assms(4) by (simp add: pos_imp_zdiv_nonneg_iff)
  have "(now - t0) div rate \<le> now - t0" using zdiv_mono2 [of "now - t0" 1 rate] b assms(4) by simp
  then show "(now - t0) div rate < 2 ^ 62" using b by linarith
  have "0 \<le> (now - t0) div rate * rate" using q0 assms(4) by simp
  then show "mul64 ((now - t0) div rate) rate = (now - t0) div rate * rate"
    and "add64 t0 ((now - t0) div rate * rate) = t0 + (now - t0) div rate * rate"
    and "t0 + (now - t0) div rate * rate \<le> now"
    using q b assms(1,2) by (auto intro!: mul64_exact add64_exact simp: in64_def)
qed

text \<open>What a refill does, without the machine arithmetic.\<close>

lemma rl_refill_eq:
  assumes "rl_valid t rl" and "t \<le> now" and "time_ok now"
  shows "rl_refillTokens now rl =
    (let n = (now - rl_lastRefill rl) div rl_refillRate rl
     in rl\<lparr>rl_lastRefill := rl_lastRefill rl + n * rl_refillRate rl,
           rl_tokens := min (rl_maxTokens rl) (rl_tokens rl + n)\<rparr>)"
proof -
  have v: "0 \<le> rl_lastRefill rl" "rl_lastRefill rl \<le> now" "0 < rl_refillRate rl"
    using assms by (auto simp: rl_valid_def)
  note ar = refill_arith [OF v(1,2) assms(3) v(3)]
  have "add64 (rl_tokens rl) ((now - rl_lastRefill rl) div rl_refillRate rl) =
      rl_tokens rl + (now - rl_lastRefill rl) div rl_refillRate rl"
    using ar(3,4) assms(1) by (intro add64_exact) (auto simp: rl_valid_def in64_def)
  then show ?thesis
    using assms(1) v ar by (auto simp: rl_refill_defs Let_def rl_valid_def min_def)
qed

lemma rl_consume_eq:
  assumes "0 \<le> rl_tokens rl" and "rl_tokens rl < 2 ^ 62"
  shows "rl_consumeToken rl = (0 < rl_tokens rl, rl\<lparr>rl_tokens := rl_tokens rl - of_bool (0 < rl_tokens rl)\<rparr>)"
  using assms by (auto simp: rl_consumeToken_def Let_def sub64_exact in64_def)

lemma rl_refill_valid:
  assumes "rl_valid t rl" and "t \<le> now" and "time_ok now"
  shows "rl_valid now (rl_refillTokens now rl)"
proof -
  have v: "0 \<le> rl_lastRefill rl" "rl_lastRefill rl \<le> now" "0 < rl_refillRate rl"
    using assms by (auto simp: rl_valid_def)
  note ar = refill_arith [OF v(1,2) assms(3) v(3)]
  then show ?thesis
    using assms by (auto simp: rl_refill_eq [OF assms] Let_def rl_valid_def)
qed

lemma rl_consume_valid: "rl_valid t rl \<Longrightarrow> rl_valid t (snd (rl_consumeToken rl))"
  by (auto simp: rl_consume_eq rl_valid_def)

lemma rl_Allow_eq:
  assumes "rl_valid t rl" and "t \<le> now" and "time_ok now"
  shows "rl_Allow now rl = (let r = rl_refillTokens now rl
     in (0 < rl_tokens r, r\<lparr>rl_tokens := rl_tokens r - of_bool (0 < rl_tokens r)\<rparr>))"
  using rl_refill_valid [OF assms] by (simp add: rl_Allow_def Let_def rl_consume_eq rl_valid_def)

lemma rl_refill_level:
  assumes "rl_valid t rl" and "t \<le> now" and "time_ok now"
  shows "rl_level (rl_refillTokens now rl) \<le> rl_level rl"
proof -
  let ?n = "(now - rl_lastRefill rl) div rl_refillRate rl"
  have "rl_refillRate rl * min (rl_maxTokens rl) (rl_tokens rl + ?n) \<le> rl_refillRate rl * (rl_tokens rl + ?n)"
    using assms(1) by (intro mult_left_mono) (auto simp: rl_valid_def)
  then show ?thesis
    by (simp add: rl_refill_eq [OF assms] Let_def rl_level_def algebra_simps)
qed

lemma rl_frame [simp]:
  "rl_refillRate (rl_refillTokens now rl) = rl_refillRate rl"
  "rl_maxTokens (rl_refillTokens now rl) = rl_maxTokens rl"
  "rl_refillRate (snd (rl_Allow now rl)) = rl_refillRate rl"
  "rl_maxTokens (snd (rl_Allow now rl)) = rl_maxTokens rl"
  by (simp_all add: rl_refillTokens_def rl_Allow_def rl_consumeToken_def Let_def)

lemma rl_refill_twice:
  assumes "rl_valid t rl" and "t \<le> now" and "time_ok now"
  shows "(now - rl_lastRefill (rl_refillTokens now rl)) div rl_refillRate rl = 0"
proof -
  have "now - rl_lastRefill (rl_refillTokens now rl) = (now - rl_lastRefill rl) mod rl_refillRate rl"
    by (simp add: rl_refill_eq [OF assms] Let_def minus_div_mult_eq_mod algebra_simps)
  then show ?thesis using assms(1) by (simp add: rl_valid_def)
qed

lemma rl_again:
  assumes "rl_valid t rl" and "t \<le> now" and "time_ok now"
  defines "r \<equiv> snd (rl_Allow now rl)"
  shows "rl_Allow now r = (0 < rl_tokens r, r\<lparr>rl_tokens := rl_tokens r - of_bool (0 < rl_tokens r)\<rparr>)"
proof -
  have v: "rl_valid now r"
    unfolding r_def rl_Allow_def by (rule rl_consume_valid [OF rl_refill_valid [OF assms(1-3)]])
  have "(now - rl_lastRefill r) div rl_refillRate r = 0"
    using rl_refill_twice [OF assms(1-3)] by (simp add: r_def rl_Allow_eq [OF assms(1-3)] Let_def)
  then have "rl_refillTokens now r = r"
    using v assms(3) by (simp add: rl_refill_eq [OF v] Let_def rl_valid_def min_def)
  then show ?thesis using rl_Allow_eq [OF v _ assms(3)] by (simp add: Let_def)
qed

lemma rl_Allow_ready:
  assumes "rl_valid t rl" and "t \<le> now" and "time_ok now" and "rl_ready rl \<le> now"
  shows "fst (rl_Allow now rl)"
proof -
  have "1 \<le> (now - rl_lastRefill rl) div rl_refillRate rl"
    using assms(1,4) zdiv_mono1 [of "rl_refillRate rl" "now - rl_lastRefill rl" "rl_refillRate rl"]
    by (auto simp: rl_valid_def rl_ready_def)
  then show ?thesis
    using assms(1) by (simp add: rl_Allow_eq [OF assms(1-3)] rl_refill_eq [OF assms(1-3)] Let_def rl_valid_def)
qed

lemma rl_level_bound: "rl_valid t rl \<Longrightarrow> - t \<le> rl_level rl"
proof -
  assume v: "rl_valid t rl"
  then have "0 \<le> rl_refillRate rl * rl_tokens rl" by (simp add: rl_valid_def)
  with v show ?thesis unfolding rl_level_def rl_valid_def by linarith
qed

interpretation rl: burst_limiter rl_Allow rl_valid rl_level rl_refillRate rl_ready rl_maxTokens rl_tokens
proof unfold_locales
  fix t l now
  assume a: "rl_valid t l" "t \<le> now" "time_ok now"
  show "rl_valid now (snd (rl_Allow now l))"
    unfolding rl_Allow_def by (rule rl_consume_valid [OF rl_refill_valid [OF a]])
  show "rl_level (snd (rl_Allow now l)) + (if fst (rl_Allow now l) then rl_refillRate l else 0) \<le> rl_level l"
    using rl_refill_level [OF a] by (simp add: rl_Allow_eq [OF a] Let_def rl_level_def algebra_simps)
  show "rl_tokens (snd (rl_Allow now l)) + of_bool (fst (rl_Allow now l)) \<le> rl_maxTokens l \<and>
      0 \<le> rl_tokens (snd (rl_Allow now l))"
    using rl_refill_valid [OF a] by (auto simp: rl_Allow_eq [OF a] Let_def rl_valid_def)
  fix l' assume l': "snd (rl_Allow now l) = l'"
  show "fst (rl_Allow now l') = (0 < rl_tokens l') \<and>
      rl_tokens (snd (rl_Allow now l')) = rl_tokens l' - of_bool (0 < rl_tokens l')"
    using rl_again [OF a] l' by simp
qed (simp_all add: rl_level_bound rl_Allow_ready, auto simp: rl_valid_def rl_ready_def)

lemma NewRateLimiter_valid:
  "0 < maxTokens \<Longrightarrow> maxTokens < 2 ^ 62 \<Longrightarrow> 0 < refillRate \<Longrightarrow> time_ok now \<Longrightarrow>
   rl_valid now (NewRateLimiter now maxTokens refillRate)"
  by (simp add: rl_valid_def NewRateLimiter_def time_ok_def)

subsection \<open>Properties\<close>

text \<open>
  C4. The rate bound: a limiter made at time \<open>start\<close> lets through at most \<open>maxTokens\<close> calls and
  one more for every whole \<open>refillRate\<close> since then, whatever the calls and their times. So
  \<open>refillRate\<close> is the time per token, not the time for \<open>maxTokens\<close> of them.
\<close>

theorem limiter_rate_bound:
  assumes "0 < maxTokens" and "maxTokens < 2 ^ 62" and "0 < refillRate" and "time_ok start"
    and "clock_from start ts"
  shows "grants (fst (run_limiter rl_Allow ts (NewRateLimiter start maxTokens refillRate)))
    \<le> maxTokens + (last (start # ts) - start) div refillRate"
proof -
  let ?l = "NewRateLimiter start maxTokens refillRate"
  let ?g = "grants (fst (run_limiter rl_Allow ts ?l))"
  have "rl_refillRate ?l * ?g \<le> rl_level ?l + last (start # ts)"
    by (rule rl.grants_bounded [OF NewRateLimiter_valid [OF assms(1-4)] assms(5)])
  then have "(?g - maxTokens) * refillRate \<le> last (start # ts) - start"
    by (simp add: NewRateLimiter_def rl_level_def algebra_simps)
  then have "?g - maxTokens \<le> (last (start # ts) - start) div refillRate"
    using assms(3) zdiv_mono1 [of "(?g - maxTokens) * refillRate" "last (start # ts) - start" refillRate]
    by simp
  then show ?thesis by simp
qed

lemma limiter_rate_bound_witness:
  "grants (fst (run_limiter rl_Allow [0, 0, 5, 12, 12] (NewRateLimiter 0 2 10)))
    \<le> 2 + (last [0, 0, 0, 5, 12, 12] - 0) div 10"
  by (rule limiter_rate_bound) (simp_all add: time_ok_def)

text \<open>
  The burst bound: however many calls come at one instant, and whenever that is, at most
  \<open>maxTokens\<close> of them are let through.
\<close>

theorem limiter_burst_bound:
  assumes "0 < maxTokens" and "maxTokens < 2 ^ 62" and "0 < refillRate" and "time_ok start"
    and "clock_from start ts" and "last (start # ts) \<le> now" and "time_ok now"
  shows "grants (fst (run_limiter rl_Allow (replicate k now)
      (snd (run_limiter rl_Allow ts (NewRateLimiter start maxTokens refillRate))))) \<le> maxTokens"
proof -
  let ?l = "NewRateLimiter start maxTokens refillRate"
  have v: "rl_valid (last (start # ts)) (snd (run_limiter rl_Allow ts ?l))"
    by (rule rl.run_valid [OF NewRateLimiter_valid [OF assms(1-4)] assms(5)])
  have "rl_maxTokens (snd (run_limiter rl_Allow ts l)) = rl_maxTokens l" for l
    by (induction ts arbitrary: l) (simp_all add: split_def Let_def)
  then have "rl_maxTokens (snd (run_limiter rl_Allow ts ?l)) = maxTokens"
    by (simp add: NewRateLimiter_def)
  with rl.burst_bounded [OF v assms(6,7)] assms(1) show ?thesis by simp
qed

lemma limiter_burst_bound_witness:
  "grants (fst (run_limiter rl_Allow (replicate 5 100)
      (snd (run_limiter rl_Allow [3, 4, 50] (NewRateLimiter 0 2 10))))) \<le> 2"
  by (rule limiter_burst_bound) (simp_all add: time_ok_def)

text \<open>
  C29. No starvation: calls that are at least \<open>refillRate\<close> apart, the first that long after the
  limiter was made, are all let through.
\<close>

theorem limiter_admits_spaced_calls:
  assumes "0 < maxTokens" and "maxTokens < 2 ^ 62" and "0 < refillRate" and "time_ok start"
    and "clock_from start ts" and "spaced refillRate start ts"
  shows "fst (run_limiter rl_Allow ts (NewRateLimiter start maxTokens refillRate)) =
    replicate (length ts) True"
  using rl.spaced_granted [OF NewRateLimiter_valid [OF assms(1-4)] assms(5)] assms(6)
  by (simp add: NewRateLimiter_def)

lemma limiter_admits_spaced_calls_witness:
  "fst (run_limiter rl_Allow [10, 20, 35] (NewRateLimiter 0 1 10)) = replicate (length [10, 20, 35 :: int]) True"
  by (rule limiter_admits_spaced_calls) (simp_all add: time_ok_def)

text \<open>
  A clock that is set back drains the bucket: \<open>refillTokens\<close> then takes tokens away and moves
  \<open>lastRefill\<close> back with them.
\<close>

lemma clock_set_back_drains:
  "rl_Allow 40 (NewRateLimiter 100 5 10) = (False, \<lparr>rl_tokens = -1, rl_maxTokens = 5, rl_refillRate = 10, rl_lastRefill = 40\<rparr>)"
  by (simp add: rl_Allow_def rl_refill_defs rl_consumeToken_def NewRateLimiter_def Let_def
      sub64_def add64_def mul64_def div64_def i64_def signed_divide_int_def)

end
