(* ===== verification/GoFloat.thy ===== *)
theory GoFloat
  imports Complex_Main Prelude
begin

text \<open>
  Go's \<open>float64\<close>: IEEE 754 binary64 with rounding to nearest, ties to even. A finite value is a
  rational number; the two zeros are not told apart, which no operation used by the program can
  see. Comparisons with NaN are false. The conversion of a float to an integer truncates; Go
  leaves its result open when the value does not fit, so it takes a function for that case.
\<close>

subsection \<open>Rounding\<close>

fun nbits :: "nat \<Rightarrow> nat" where
  "nbits n = (if n = 0 then 0 else Suc (nbits (n div 2)))"

declare nbits.simps [simp del]

text \<open>\<open>mag x\<close> is the exponent \<open>k\<close> with \<open>2 ^ (k - 1) \<le> \<bar>x\<bar> < 2 ^ k\<close>.\<close>

definition mag :: "rat \<Rightarrow> int" where
  "mag x = (if \<bar>x\<bar> \<ge> 1 then int (nbits (nat \<lfloor>\<bar>x\<bar>\<rfloor>)) else 1 - int (nbits (nat (\<lceil>1 / \<bar>x\<bar>\<rceil> - 1))))"

definition round_even :: "rat \<Rightarrow> int" where
  "round_even x = (let f = \<lfloor>x\<rfloor>; d = x - of_int f
     in if d < 1 / 2 then f else if d > 1 / 2 then f + 1 else if even f then f else f + 1)"

definition ulp_exp :: "rat \<Rightarrow> int" where
  "ulp_exp x = max (mag x - 53) (- 1074)"

definition rnd :: "rat \<Rightarrow> rat" where
  "rnd x = of_int (round_even (x / 2 powi ulp_exp x)) * 2 powi ulp_exp x"

subsection \<open>Facts about rounding\<close>

lemma nbits_bounds: "0 < n \<Longrightarrow> 2 ^ (nbits n - 1) \<le> n \<and> n < 2 ^ nbits n"
proof (induction n rule: nbits.induct)
  case (1 n)
  show ?case
  proof (cases "n div 2 = 0")
    case True
    with 1 have "n = 1" by auto
    then show ?thesis by (simp add: nbits.simps)
  next
    case False
    then obtain k where k: "nbits (n div 2) = Suc k" by (subst (asm) nbits.simps) (auto simp: nbits.simps)
    from 1 False k have "2 ^ k \<le> n div 2" "n div 2 < 2 ^ Suc k" by auto
    then have "2 ^ Suc k \<le> n" "n < 2 ^ Suc (Suc k)" by auto
    with 1 k show ?thesis by (subst (1 2) nbits.simps) simp
  qed
qed

lemma powi_two_less: "(2::rat) powi a < 2 powi b \<longleftrightarrow> a < b"
proof
  show "a < b \<Longrightarrow> (2::rat) powi a < 2 powi b" by (rule power_int_strict_increasing) auto
  show "(2::rat) powi a < 2 powi b \<Longrightarrow> a < b"
    using power_int_increasing [of b a "2::rat"] by (meson less_le_not_le linorder_not_le numeral_le_one_iff one_le_numeral)
qed

lemma powi_two_le: "(2::rat) powi a \<le> 2 powi b \<longleftrightarrow> a \<le> b"
  using powi_two_less [of b a] by (meson linorder_not_less)

lemma powi_two_pos [simp]: "0 < (2::rat) powi a"
  by simp

lemma mag_bounds:
  assumes "x \<noteq> 0"
  shows "2 powi (mag x - 1) \<le> \<bar>x\<bar>" and "\<bar>x\<bar> < 2 powi mag x"
proof -
  have "2 powi (mag x - 1) \<le> \<bar>x\<bar> \<and> \<bar>x\<bar> < 2 powi mag x"
  proof (cases "\<bar>x\<bar> \<ge> 1")
    case True
    let ?n = "nat \<lfloor>\<bar>x\<bar>\<rfloor>"
    have n: "0 < ?n" using True by simp
    then obtain k where k: "nbits ?n = Suc k" by (subst (asm) nbits.simps) (auto simp: nbits.simps)
    with nbits_bounds [OF n] have b: "2 ^ k \<le> ?n" "Suc ?n \<le> 2 ^ Suc k" by auto
    have fl: "of_nat ?n \<le> \<bar>x\<bar>" "\<bar>x\<bar> < of_nat (Suc ?n)"
      using True floor_correct [of "\<bar>x\<bar>"] by (simp_all add: of_nat_nat)
    have "(2::rat) ^ k \<le> of_nat ?n" "of_nat (Suc ?n) \<le> (2::rat) ^ Suc k"
      using b [THEN of_nat_mono, where 'a = rat] by simp_all
    with fl have "2 ^ k \<le> \<bar>x\<bar>" "\<bar>x\<bar> < 2 ^ Suc k" by linarith+
    with True k show ?thesis by (simp add: mag_def power_int_def nat_add_distrib)
  next
    case False
    let ?y = "1 / \<bar>x\<bar>" and ?n = "nat (\<lceil>1 / \<bar>x\<bar>\<rceil> - 1)"
    have y: "1 < ?y" using False assms by simp
    then have n: "0 < ?n" by (simp add: less_ceiling_iff)
    then obtain k where k: "nbits ?n = Suc k" by (subst (asm) nbits.simps) (auto simp: nbits.simps)
    with nbits_bounds [OF n] have b: "2 ^ k \<le> ?n" "Suc ?n \<le> 2 ^ Suc k" by auto
    have cl: "of_nat ?n < ?y" "?y \<le> of_nat (Suc ?n)"
      using n by (auto simp: of_nat_nat intro: ceiling_correct) linarith+
    have "(2::rat) ^ k \<le> of_nat ?n" "of_nat (Suc ?n) \<le> (2::rat) ^ Suc k"
      using b [THEN of_nat_mono, where 'a = rat] by simp_all
    with cl have "2 ^ k < ?y" "?y \<le> 2 ^ Suc k" by linarith+
    then have "\<bar>x\<bar> < inverse (2 ^ k)" "inverse (2 ^ Suc k) \<le> \<bar>x\<bar>"
      using assms by (simp_all add: field_simps)
    with False k show ?thesis by (simp add: mag_def power_int_def nat_add_distrib field_simps)
  qed
  then show "2 powi (mag x - 1) \<le> \<bar>x\<bar>" and "\<bar>x\<bar> < 2 powi mag x" by auto
qed

lemma mag_le: "x \<noteq> 0 \<Longrightarrow> \<bar>x\<bar> < 2 powi k \<Longrightarrow> mag x \<le> k"
  using mag_bounds(1) [of x] powi_two_less [of "mag x - 1" k] by auto

lemma mag_mono: "0 < x \<Longrightarrow> x \<le> y \<Longrightarrow> mag x \<le> mag y"
  using mag_bounds(2) [of y] by (intro mag_le) auto

lemma round_even_of_int [simp]: "round_even (of_int n) = n"
  by (simp add: round_even_def)

lemma round_even_floor: "\<lfloor>x\<rfloor> \<le> round_even x" "round_even x \<le> \<lfloor>x\<rfloor> + 1"
  by (simp_all add: round_even_def Let_def)

lemma round_even_mono: "x \<le> y \<Longrightarrow> round_even x \<le> round_even y"
proof (cases "\<lfloor>x\<rfloor> = \<lfloor>y\<rfloor>")
  case True
  assume "x \<le> y"
  with True show ?thesis by (auto simp: round_even_def Let_def)
next
  case False
  assume "x \<le> y"
  then have "\<lfloor>x\<rfloor> \<le> \<lfloor>y\<rfloor>" by (rule floor_mono)
  with False have "\<lfloor>x\<rfloor> + 1 \<le> \<lfloor>y\<rfloor>" by linarith
  with round_even_floor [of x] round_even_floor [of y] show ?thesis by linarith
qed

lemma rnd_0 [simp]: "rnd 0 = 0"
  using round_even_of_int [of 0] by (simp add: rnd_def del: round_even_of_int)

lemma rnd_mono_pos:
  assumes "0 < x" and "x \<le> y"
  shows "rnd x \<le> rnd y"
proof (cases "ulp_exp x = ulp_exp y")
  case True
  have "x / 2 powi ulp_exp y \<le> y / 2 powi ulp_exp y"
    using assms by (intro divide_right_mono) auto
  then have "round_even (x / 2 powi ulp_exp y) \<le> round_even (y / 2 powi ulp_exp y)"
    by (rule round_even_mono)
  with True show ?thesis by (simp add: rnd_def)
next
  case False
  let ?a = "ulp_exp x" and ?b = "ulp_exp y"
  have "?a \<le> ?b" using mag_mono [OF assms] by (simp add: ulp_exp_def)
  with False have ab: "?a + 53 \<le> ?b + 52" and b: "?b = mag y - 53" by (auto simp: ulp_exp_def)
  have "x < 2 powi (?a + 53)"
    using mag_bounds(2) [of x] assms(1) powi_two_le [of "mag x" "?a + 53"]
    by (auto simp: ulp_exp_def)
  then have "x / 2 powi ?a \<le> of_int (2 ^ 53)"
    by (simp add: power_int_add field_simps)
  then have "round_even (x / 2 powi ?a) \<le> 2 ^ 53"
    using round_even_mono round_even_of_int by metis
  then have "(of_int (round_even (x / 2 powi ?a)) :: rat) \<le> of_int (2 ^ 53)"
    by (simp only: of_int_le_iff)
  then have "rnd x \<le> 2 ^ 53 * 2 powi ?a" by (simp add: rnd_def)
  also have "\<dots> = 2 powi (?a + 53)" by (simp add: power_int_add)
  also have "\<dots> \<le> 2 powi (?b + 52)" using ab by (simp only: powi_two_le)
  also have "\<dots> = 2 ^ 52 * 2 powi ?b" by (simp add: power_int_add)
  also have "\<dots> \<le> rnd y"
  proof -
    have "2 powi (?b + 52) \<le> y" using mag_bounds(1) [of y] assms b by simp
    then have "of_int (2 ^ 52) \<le> y / 2 powi ?b" by (simp add: power_int_add field_simps)
    then have "2 ^ 52 \<le> round_even (y / 2 powi ?b)"
      using round_even_mono round_even_of_int by metis
    then have "of_int (2 ^ 52) \<le> (of_int (round_even (y / 2 powi ?b)) :: rat)"
      by (simp only: of_int_le_iff)
    then show ?thesis by (simp add: rnd_def)
  qed
  finally show ?thesis .
qed

lemma rnd_nonneg: "0 \<le> x \<Longrightarrow> 0 \<le> rnd x"
proof -
  assume "0 \<le> x"
  then have "0 \<le> x / 2 powi ulp_exp x" by simp
  then have "0 \<le> round_even (x / 2 powi ulp_exp x)"
    using round_even_mono [of 0] round_even_of_int [of 0] by simp
  then show ?thesis by (simp add: rnd_def)
qed

lemma rnd_mono: "0 \<le> x \<Longrightarrow> x \<le> y \<Longrightarrow> rnd x \<le> rnd y"
  using rnd_mono_pos [of x y] rnd_nonneg [of y] by (cases "x = 0") auto

lemma rnd_exact:
  assumes "\<bar>m\<bar> < 2 ^ 53" and "- 1074 \<le> k"
  shows "rnd (of_int m * 2 powi k) = of_int m * 2 powi k"
proof (cases "m = 0")
  case False
  let ?x = "of_int m * 2 powi k :: rat"
  have "\<bar>?x\<bar> = of_int \<bar>m\<bar> * 2 powi k" by (simp add: abs_mult)
  also have "\<dots> < of_int (2 ^ 53) * 2 powi k"
    using assms(1) by (intro mult_strict_right_mono) (auto simp only: of_int_less_iff powi_two_pos)
  also have "\<dots> = 2 powi (k + 53)" by (simp add: power_int_add)
  finally have "mag ?x \<le> k + 53" using False by (intro mag_le) auto
  then have e: "ulp_exp ?x \<le> k" using assms(2) by (simp add: ulp_exp_def)
  define j where "j = nat (k - ulp_exp ?x)"
  have "(2::rat) powi k = 2 ^ j * 2 powi ulp_exp ?x"
  proof -
    have "k = int j + ulp_exp ?x" using e by (simp add: j_def)
    then have "(2::rat) powi k = 2 powi (int j + ulp_exp ?x)" by (rule arg_cong)
    also have "\<dots> = 2 ^ j * 2 powi ulp_exp ?x" by (subst power_int_add) simp_all
    finally show ?thesis .
  qed
  then have "?x / 2 powi ulp_exp ?x = of_int (m * 2 ^ j)"
    by (metis (no_types, lifting) nonzero_mult_div_cancel_right mult.assoc of_int_mult of_int_numeral of_int_power
        powi_two_pos less_irrefl)
  then show ?thesis
    using \<open>2 powi k = 2 ^ j * 2 powi ulp_exp ?x\<close> by (simp only: rnd_def round_even_of_int) simp
qed simp

lemma rnd_of_int: "\<bar>m\<bar> < 2 ^ 53 \<Longrightarrow> rnd (of_int m) = of_int m"
  using rnd_exact [of m 0] by simp

lemma rnd_pow2: "- 1074 \<le> k \<Longrightarrow> rnd (2 powi k) = 2 powi k"
  using rnd_exact [of 1 k] by simp

subsection \<open>The type and its arithmetic\<close>

datatype float64 = Fin rat | PosInf | NegInf | NaN

definition flt :: "rat \<Rightarrow> float64" where
  "flt x = (let r = rnd x
     in if r \<ge> 2 ^ 1024 then PosInf else if r \<le> - (2 ^ 1024) then NegInf else Fin r)"

definition float_inf :: "bool \<Rightarrow> float64" where
  "float_inf positive = (if positive then PosInf else NegInf)"

instantiation float64 :: "{zero, one, plus, uminus, minus, times, ord}"
begin

definition zero_float64 :: float64 where "0 = Fin 0"
definition one_float64 :: float64 where "1 = Fin 1"

fun plus_float64 :: "float64 \<Rightarrow> float64 \<Rightarrow> float64" where
  "Fin a + Fin b = flt (a + b)"
| "NaN + y = NaN"
| "x + NaN = NaN"
| "PosInf + NegInf = NaN"
| "NegInf + PosInf = NaN"
| "PosInf + y = PosInf"
| "NegInf + y = NegInf"
| "Fin a + y = y"

fun uminus_float64 :: "float64 \<Rightarrow> float64" where
  "- Fin a = Fin (- a)"
| "- PosInf = NegInf"
| "- NegInf = PosInf"
| "- NaN = NaN"

definition minus_float64 :: "float64 \<Rightarrow> float64 \<Rightarrow> float64" where
  "x - y = x + (- y :: float64)"

fun times_float64 :: "float64 \<Rightarrow> float64 \<Rightarrow> float64" where
  "Fin a * Fin b = flt (a * b)"
| "NaN * y = NaN"
| "x * NaN = NaN"
| "PosInf * PosInf = PosInf"
| "PosInf * NegInf = NegInf"
| "NegInf * PosInf = NegInf"
| "NegInf * NegInf = PosInf"
| "Fin a * PosInf = (if a = 0 then NaN else float_inf (0 < a))"
| "Fin a * NegInf = (if a = 0 then NaN else float_inf (a < 0))"
| "PosInf * Fin a = (if a = 0 then NaN else float_inf (0 < a))"
| "NegInf * Fin a = (if a = 0 then NaN else float_inf (a < 0))"

fun less_float64 :: "float64 \<Rightarrow> float64 \<Rightarrow> bool" where
  "Fin a < Fin b = (a < b)"
| "Fin a < PosInf = True"
| "NegInf < Fin b = True"
| "NegInf < PosInf = True"
| "(x::float64) < y = False"

definition less_eq_float64 :: "float64 \<Rightarrow> float64 \<Rightarrow> bool" where
  "x \<le> y \<longleftrightarrow> x < (y::float64) \<or> (x = y \<and> x \<noteq> NaN)"

instance ..

end

lemmas float_consts = zero_float64_def one_float64_def

definition f_of_int :: "int \<Rightarrow> float64" where
  "f_of_int n = flt (of_int n)"

text \<open>Conversion to \<open>int64\<close>: \<open>impl\<close> gives what the platform yields when the value does not fit.\<close>

definition trunc_rat :: "rat \<Rightarrow> int" where
  "trunc_rat x = (if x \<ge> 0 then \<lfloor>x\<rfloor> else - \<lfloor>- x\<rfloor>)"

definition f_to_int64 :: "(float64 \<Rightarrow> int) \<Rightarrow> float64 \<Rightarrow> int" where
  "f_to_int64 impl x = (case x of
     Fin a \<Rightarrow> if in64 (trunc_rat a) then trunc_rat a else i64 (impl x)
   | _ \<Rightarrow> i64 (impl x))"

subsection \<open>Facts about the arithmetic\<close>

lemma flt_fin: "0 \<le> x \<Longrightarrow> x \<le> 2 ^ 1000 \<Longrightarrow> flt x = Fin (rnd x)"
proof -
  assume x: "0 \<le> x" "x \<le> 2 ^ 1000"
  have "rnd x \<le> 2 ^ 1000"
    using rnd_mono [OF x] rnd_pow2 [of 1000] by simp
  then have "rnd x < 2 ^ 1024" by (rule order_le_less_trans) simp
  with rnd_nonneg [OF x(1)] show ?thesis by (simp add: flt_def Let_def)
qed

lemma f_of_int_exact: "0 \<le> n \<Longrightarrow> n < 2 ^ 53 \<Longrightarrow> f_of_int n = Fin (of_int n)"
proof -
  assume n: "0 \<le> n" "n < 2 ^ 53"
  then have "(of_int n :: rat) \<le> of_int (2 ^ 53)" by (simp only: of_int_le_iff)
  also have "\<dots> \<le> 2 ^ 1000" by simp
  finally show ?thesis using n by (simp add: f_of_int_def flt_fin rnd_of_int)
qed

lemma f_to_int64_in64 [simp]: "in64 (f_to_int64 impl x)"
  by (cases x) (simp_all add: f_to_int64_def)

lemma trunc_nonneg: "0 \<le> x \<Longrightarrow> 0 \<le> trunc_rat x" "0 \<le> x \<Longrightarrow> of_int (trunc_rat x) \<le> x"
  by (simp_all add: trunc_rat_def)

lemma trunc_mono: "0 \<le> x \<Longrightarrow> x \<le> y \<Longrightarrow> trunc_rat x \<le> trunc_rat y"
  by (simp add: trunc_rat_def floor_mono)

lemma trunc_of_int [simp]: "trunc_rat (of_int n) = n"
  by (simp add: trunc_rat_def)

lemma f_to_int64_fin:
  assumes "0 \<le> x" and "x < 2 ^ 63"
  shows "f_to_int64 impl (Fin x) = trunc_rat x" and "0 \<le> trunc_rat x" and "trunc_rat x < 2 ^ 63"
proof -
  show t: "0 \<le> trunc_rat x" by (rule trunc_nonneg [OF assms(1)])
  have "of_int (trunc_rat x) < (of_int (2 ^ 63) :: rat)"
    using trunc_nonneg(2) [OF assms(1)] assms(2) by simp
  then show "trunc_rat x < 2 ^ 63" by (simp only: of_int_less_iff)
  with t show "f_to_int64 impl (Fin x) = trunc_rat x" by (simp add: f_to_int64_def in64_def)
qed

text \<open>A product of a bounded value with a factor between 0 and 1 stays below a power of two.\<close>

lemma rnd_le_pow2: "0 \<le> x \<Longrightarrow> x \<le> 2 ^ k \<Longrightarrow> rnd x \<le> 2 ^ k"
  using rnd_mono [of x "2 powi int k"] rnd_pow2 [of "int k"] by simp

lemma times_unit:
  assumes "0 \<le> x" and "x \<le> 2 ^ k" and "k \<le> 1000" and "0 \<le> u" and "u \<le> 1"
  shows "\<exists>y. Fin x * Fin u = Fin y \<and> 0 \<le> y \<and> y \<le> 2 ^ k"
proof -
  have p: "0 \<le> x * u" "x * u \<le> 2 ^ k"
    using assms by (auto intro: order_trans [OF mult_left_le])
  have "(2::rat) ^ k \<le> 2 ^ 1000" using assms(3) by (intro power_increasing) auto
  with p have "Fin x * Fin u = Fin (rnd (x * u))" by (simp add: flt_fin)
  with rnd_nonneg [OF p(1)] rnd_le_pow2 [OF p] show ?thesis by blast
qed

lemma int_le_pow2_rat: "n < 2 ^ k \<Longrightarrow> (of_int n :: rat) \<le> 2 ^ k"
proof -
  assume "n < 2 ^ k"
  then have "(of_int n :: rat) \<le> of_int (2 ^ k)" by (simp only: of_int_le_iff)
  then show ?thesis by simp
qed

lemma f_of_int_fin:
  assumes "0 \<le> n" and "n < 2 ^ 62"
  shows "f_of_int n = Fin (rnd (of_int n))" and "0 \<le> rnd (of_int n)"
proof -
  have "(of_int n :: rat) \<le> 2 ^ 62" using assms(2) by (rule int_le_pow2_rat)
  also have "(2 :: rat) ^ 62 \<le> 2 ^ 1000" by (rule power_increasing) simp_all
  finally show "f_of_int n = Fin (rnd (of_int n))" using assms(1) by (simp add: f_of_int_def flt_fin)
qed (use assms(1) in \<open>simp add: rnd_nonneg\<close>)

text \<open>The quotient of two floats is only taken where both are finite and the divisor is not zero.\<close>

definition f_quotient :: "float64 \<Rightarrow> float64 \<Rightarrow> float64" where
  "f_quotient x y = (case (x, y) of (Fin a, Fin b) \<Rightarrow> if b = 0 then NaN else flt (a / b) | _ \<Rightarrow> NaN)"

end
