(* ===== verification/RateLimiterOptimized.thy ===== *)
theory RateLimiterOptimized
  imports RateLimiter GoFloat
begin

text \<open>
  The batched token bucket of \<open>rate_limiter_optimized.go\<close> as one goroutine sees it. It meets the
  same contract \<open>limiter\<close> as the plain one, but not \<open>burst_limiter\<close>: a refill moves
  \<open>lastRefill\<close> on by at most one batch, so that idle time stays available as a burst.
\<close>

subsection \<open>State and operations\<close>

record OptimizedRateLimiter =
  orl_maxTokens :: int
  orl_refillRate :: int
  orl_tokensPerFill :: int
  orl_tokens :: int
  orl_lastRefill :: int
  orl_refillThreshold :: int
  orl_batchSize :: int

definition NewOptimizedRateLimiter :: "int \<Rightarrow> int \<Rightarrow> int \<Rightarrow> OptimizedRateLimiter" where
  "NewOptimizedRateLimiter now maxTokens0 refillRate0 =
     (let maxTokens = (if maxTokens0 \<le> 0 then 1 else maxTokens0);
          refillRate = (if refillRate0 \<le> 0 then Second else refillRate0);
          refillRateNano = div64 refillRate maxTokens;
          refillRateNano = (if refillRateNano = 0 then 1 else refillRateNano);
          batchSize = (if refillRate \<ge> Second
                       then (let b = div64 maxTokens 10 in if b = 0 then 1 else b)
                       else 1)
      in \<lparr>orl_maxTokens = maxTokens, orl_refillRate = refillRateNano, orl_tokensPerFill = batchSize,
          orl_tokens = maxTokens, orl_lastRefill = now, orl_refillThreshold = refillRateNano,
          orl_batchSize = batchSize\<rparr>)"

text \<open>The two values \<open>fastRefill\<close> computes from what it loaded; \<open>0\<close> is the early return.\<close>

definition orl_tokensToAdd :: "int \<Rightarrow> int \<Rightarrow> OptimizedRateLimiter \<Rightarrow> int" where
  "orl_tokensToAdd now lastRefill rl =
     (let elapsed = sub64 now lastRefill
      in if elapsed < orl_refillThreshold rl then 0
         else (let tokensToAdd = div64 elapsed (orl_refillRate rl)
               in if tokensToAdd = 0 then 0
                  else if tokensToAdd > orl_batchSize rl then orl_batchSize rl else tokensToAdd))"

definition orl_newTokens :: "int \<Rightarrow> int \<Rightarrow> OptimizedRateLimiter \<Rightarrow> int" where
  "orl_newTokens current tokensToAdd rl =
     (let newTokens = add64 current tokensToAdd
      in if newTokens > orl_maxTokens rl then orl_maxTokens rl else newTokens)"

definition orl_fastRefill :: "int \<Rightarrow> OptimizedRateLimiter \<Rightarrow> OptimizedRateLimiter" where
  "orl_fastRefill now rl =
     (let lastRefill = orl_lastRefill rl;
          tokensToAdd = orl_tokensToAdd now lastRefill rl
      in if tokensToAdd = 0 then rl
         else (let newRefillTime = add64 lastRefill (mul64 tokensToAdd (orl_refillRate rl));
                   rl = rl\<lparr>orl_lastRefill := newRefillTime\<rparr>;
                   current = orl_tokens rl;
                   newTokens = orl_newTokens current tokensToAdd rl
               in if newTokens = current then rl else rl\<lparr>orl_tokens := newTokens\<rparr>))"

lemmas orl_refill_defs = orl_fastRefill_def orl_tokensToAdd_def orl_newTokens_def

text \<open>
  Without other goroutines the first of the three attempts of \<open>consumeTokenFast\<close> succeeds or
  finds no token.
\<close>

definition orl_consumeTokenFast :: "OptimizedRateLimiter \<Rightarrow> bool \<times> OptimizedRateLimiter" where
  "orl_consumeTokenFast rl =
     (let current = orl_tokens rl
      in if current \<le> 0 then (False, rl) else (True, rl\<lparr>orl_tokens := sub64 current 1\<rparr>))"

definition orl_Allow :: "int \<Rightarrow> OptimizedRateLimiter \<Rightarrow> bool \<times> OptimizedRateLimiter" where
  "orl_Allow now rl = orl_consumeTokenFast (orl_fastRefill now rl)"

definition orl_AllowN :: "int \<Rightarrow> int \<Rightarrow> OptimizedRateLimiter \<Rightarrow> bool \<times> OptimizedRateLimiter" where
  "orl_AllowN now n rl =
     (if n \<le> 0 then (True, rl)
      else if n > orl_maxTokens rl then (False, rl)
      else (let rl = orl_fastRefill now rl; current = orl_tokens rl
            in if current < n then (False, rl) else (True, rl\<lparr>orl_tokens := sub64 current n\<rparr>)))"

text \<open>\<open>Reserve\<close> reads the clock twice: \<open>now\<close> for the refill, \<open>now'\<close> for the time it returns.\<close>

definition orl_Reserve :: "int \<Rightarrow> int \<Rightarrow> OptimizedRateLimiter \<Rightarrow> int \<times> OptimizedRateLimiter" where
  "orl_Reserve now now' rl =
     (let rl = orl_fastRefill now rl; current = orl_tokens rl
      in if current > 0 then (now', rl\<lparr>orl_tokens := sub64 current 1\<rparr>)
         else (now' + orl_refillRate rl, rl))"

definition orl_SetRate :: "int \<Rightarrow> OptimizedRateLimiter \<Rightarrow> OptimizedRateLimiter" where
  "orl_SetRate newRate rl =
     (if newRate \<le> 0 then rl
      else (let newRefillRate = div64 newRate (orl_maxTokens rl);
                newRefillRate = (if newRefillRate = 0 then 1 else newRefillRate)
            in rl\<lparr>orl_refillRate := newRefillRate, orl_refillThreshold := newRefillRate\<rparr>))"

definition orl_Reset :: "int \<Rightarrow> OptimizedRateLimiter \<Rightarrow> OptimizedRateLimiter" where
  "orl_Reset now rl = rl\<lparr>orl_tokens := orl_maxTokens rl, orl_lastRefill := now\<rparr>"

definition orl_Burst :: "OptimizedRateLimiter \<Rightarrow> int" where
  "orl_Burst rl = orl_maxTokens rl"

definition orl_Rate :: "OptimizedRateLimiter \<Rightarrow> int" where
  "orl_Rate rl = mul64 (orl_refillRate rl) (orl_maxTokens rl)"

text \<open>The statistics: the last refill as a \<open>time.Time\<close> (\<open>None\<close> for its zero value), and two ratios.\<close>

record RateLimiterStats =
  rst_CurrentTokens :: int
  rst_MaxTokens :: int
  rst_RefillRate :: int
  rst_LastRefill :: "int option"
  rst_TokensPerSecond :: float64
  rst_Utilization :: float64

definition orl_GetStats :: "OptimizedRateLimiter \<Rightarrow> RateLimiterStats" where
  "orl_GetStats rl =
     (let current = orl_tokens rl;
          lastRefillNano = orl_lastRefill rl;
          lastRefill = (if lastRefillNano > 0 then Some lastRefillNano else None);
          tokensPerSecond = f_quotient (f_of_int Second) (f_of_int (orl_refillRate rl));
          utilization = f_quotient (f_of_int current) (f_of_int (orl_maxTokens rl))
      in \<lparr>rst_CurrentTokens = current, rst_MaxTokens = orl_maxTokens rl,
          rst_RefillRate = mul64 (orl_refillRate rl) (orl_maxTokens rl), rst_LastRefill = lastRefill,
          rst_TokensPerSecond = tokensPerSecond, rst_Utilization = utilization\<rparr>)"

text \<open>\<open>unsafe.Sizeof\<close> of a struct that has \<open>int64\<close> fields only: eight bytes for each, no padding.\<close>

definition orl_MemoryFootprint :: "OptimizedRateLimiter \<Rightarrow> nat" where
  "orl_MemoryFootprint rl =
     8 * length [orl_maxTokens rl, orl_refillRate rl, orl_tokensPerFill rl, orl_tokens rl,
       orl_lastRefill rl, orl_refillThreshold rl, orl_batchSize rl]"

subsection \<open>The contract\<close>

definition orl_valid :: "int \<Rightarrow> OptimizedRateLimiter \<Rightarrow> bool" where
  "orl_valid t rl \<longleftrightarrow> 0 < orl_refillRate rl \<and> orl_refillThreshold rl = orl_refillRate rl \<and>
     0 < orl_batchSize rl \<and> 0 < orl_maxTokens rl \<and> orl_maxTokens rl < 2 ^ 62 \<and>
     0 \<le> orl_tokens rl \<and> orl_tokens rl \<le> orl_maxTokens rl \<and>
     0 \<le> orl_lastRefill rl \<and> orl_lastRefill rl \<le> t \<and> time_ok t"

definition orl_level :: "OptimizedRateLimiter \<Rightarrow> int" where
  "orl_level rl = orl_refillRate rl * orl_tokens rl - orl_lastRefill rl"

definition orl_ready :: "OptimizedRateLimiter \<Rightarrow> int" where
  "orl_ready rl = orl_lastRefill rl + orl_refillRate rl"

text \<open>The tokens a refill at \<open>now\<close> is worth: whole periods since the last one, at most a batch.\<close>

definition orl_due :: "int \<Rightarrow> OptimizedRateLimiter \<Rightarrow> int" where
  "orl_due now rl = min (orl_batchSize rl) ((now - orl_lastRefill rl) div orl_refillRate rl)"

lemma orl_due_bounds:
  assumes "orl_valid t rl" and "t \<le> now" and "time_ok now"
  shows "0 \<le> orl_due now rl" and "orl_due now rl < 2 ^ 62"
    and "orl_lastRefill rl + orl_due now rl * orl_refillRate rl \<le> now"
    and "add64 (orl_lastRefill rl) (mul64 (orl_due now rl) (orl_refillRate rl)) =
         orl_lastRefill rl + orl_due now rl * orl_refillRate rl"
proof -
  let ?q = "(now - orl_lastRefill rl) div orl_refillRate rl"
  have v: "0 \<le> orl_lastRefill rl" "orl_lastRefill rl \<le> now" "0 < orl_refillRate rl" "0 < orl_batchSize rl"
    using assms by (auto simp: orl_valid_def)
  note ar = refill_arith [OF v(1,2) assms(3) v(3)]
  show d0: "0 \<le> orl_due now rl" using ar v by (simp add: orl_due_def)
  show "orl_due now rl < 2 ^ 62" using ar by (simp add: orl_due_def)
  have le: "orl_due now rl * orl_refillRate rl \<le> ?q * orl_refillRate rl"
    using v by (intro mult_right_mono) (auto simp: orl_due_def)
  then show b: "orl_lastRefill rl + orl_due now rl * orl_refillRate rl \<le> now" using ar(7) by linarith
  have "0 \<le> orl_due now rl * orl_refillRate rl" using d0 v by simp
  then show "add64 (orl_lastRefill rl) (mul64 (orl_due now rl) (orl_refillRate rl)) =
      orl_lastRefill rl + orl_due now rl * orl_refillRate rl"
    using b v assms(3) by (simp add: mul64_exact add64_exact in64_def time_ok_def)
qed

text \<open>What a refill does, without the machine arithmetic.\<close>

lemma orl_refill_eq:
  assumes "orl_valid t rl" and "t \<le> now" and "time_ok now"
  shows "orl_fastRefill now rl =
    rl\<lparr>orl_lastRefill := orl_lastRefill rl + orl_due now rl * orl_refillRate rl,
       orl_tokens := min (orl_maxTokens rl) (orl_tokens rl + orl_due now rl)\<rparr>"
proof -
  let ?e = "now - orl_lastRefill rl"
  have v: "0 \<le> orl_lastRefill rl" "orl_lastRefill rl \<le> now" "0 < orl_refillRate rl" "0 < orl_batchSize rl"
    "orl_refillThreshold rl = orl_refillRate rl" "orl_tokens rl \<le> orl_maxTokens rl"
    using assms by (auto simp: orl_valid_def)
  note ar = refill_arith [OF v(1,2) assms(3) v(3)]
  note d = orl_due_bounds [OF assms]
  have due0: "orl_due now rl = 0" if "?e div orl_refillRate rl = 0" using that v by (simp add: orl_due_def)
  show ?thesis
  proof (cases "?e < orl_refillRate rl \<or> ?e div orl_refillRate rl = 0")
    case True
    then have "?e div orl_refillRate rl = 0" using v by (auto intro: div_pos_pos_trivial)
    with due0 v ar show ?thesis by (simp add: orl_refill_defs Let_def)
  next
    case False
    have t: "add64 (orl_tokens rl) (orl_due now rl) = orl_tokens rl + orl_due now rl"
      using d assms(1) by (intro add64_exact) (auto simp: orl_valid_def in64_def)
    have "(if orl_batchSize rl < ?e div orl_refillRate rl then orl_batchSize rl else ?e div orl_refillRate rl) = orl_due now rl"
      by (simp add: orl_due_def)
    with False v ar d(4) t show ?thesis
      by (auto simp: orl_refill_defs Let_def min_def)
  qed
qed

lemma orl_frame [simp]:
  "orl_refillRate (orl_fastRefill now rl) = orl_refillRate rl"
  "orl_maxTokens (orl_fastRefill now rl) = orl_maxTokens rl"
  "orl_batchSize (orl_fastRefill now rl) = orl_batchSize rl"
  "orl_refillThreshold (orl_fastRefill now rl) = orl_refillThreshold rl"
  "orl_refillRate (snd (orl_Allow now rl)) = orl_refillRate rl"
  "orl_maxTokens (snd (orl_Allow now rl)) = orl_maxTokens rl"
  "orl_batchSize (snd (orl_Allow now rl)) = orl_batchSize rl"
  by (simp_all add: orl_fastRefill_def orl_Allow_def orl_consumeTokenFast_def Let_def)

lemma orl_refill_valid:
  assumes "orl_valid t rl" and "t \<le> now" and "time_ok now"
  shows "orl_valid now (orl_fastRefill now rl)"
  using assms orl_due_bounds [OF assms] by (auto simp: orl_refill_eq [OF assms] orl_valid_def)

lemma orl_refill_level:
  assumes "orl_valid t rl" and "t \<le> now" and "time_ok now"
  shows "orl_level (orl_fastRefill now rl) \<le> orl_level rl"
proof -
  have "orl_refillRate rl * min (orl_maxTokens rl) (orl_tokens rl + orl_due now rl)
      \<le> orl_refillRate rl * (orl_tokens rl + orl_due now rl)"
    using assms(1) by (intro mult_left_mono) (auto simp: orl_valid_def)
  then show ?thesis by (simp add: orl_refill_eq [OF assms] orl_level_def algebra_simps)
qed

lemma orl_Allow_eq:
  assumes "orl_valid t rl" and "t \<le> now" and "time_ok now"
  shows "orl_Allow now rl = (let r = orl_fastRefill now rl
     in (0 < orl_tokens r, r\<lparr>orl_tokens := orl_tokens r - of_bool (0 < orl_tokens r)\<rparr>))"
  using orl_refill_valid [OF assms]
  by (auto simp: orl_Allow_def orl_consumeTokenFast_def Let_def orl_valid_def sub64_exact in64_def)

lemma orl_Allow_valid:
  assumes "orl_valid t rl" and "t \<le> now" and "time_ok now"
  shows "orl_valid now (snd (orl_Allow now rl))"
  using orl_refill_valid [OF assms] by (auto simp: orl_Allow_eq [OF assms] Let_def orl_valid_def)

lemma orl_level_bound: "orl_valid t rl \<Longrightarrow> - t \<le> orl_level rl"
proof -
  assume v: "orl_valid t rl"
  then have "0 \<le> orl_refillRate rl * orl_tokens rl" by (simp add: orl_valid_def)
  with v show ?thesis unfolding orl_level_def orl_valid_def by linarith
qed

lemma orl_Allow_ready:
  assumes "orl_valid t rl" and "t \<le> now" and "time_ok now" and "orl_ready rl \<le> now"
  shows "fst (orl_Allow now rl)"
proof -
  have "1 \<le> (now - orl_lastRefill rl) div orl_refillRate rl"
    using assms(1,4) zdiv_mono1 [of "orl_refillRate rl" "now - orl_lastRefill rl" "orl_refillRate rl"]
    by (auto simp: orl_valid_def orl_ready_def)
  then have "1 \<le> orl_due now rl" using assms(1) by (simp add: orl_due_def orl_valid_def)
  then show ?thesis
    using assms(1) by (simp add: orl_Allow_eq [OF assms(1-3)] orl_refill_eq [OF assms(1-3)] Let_def orl_valid_def)
qed

interpretation orl: limiter orl_Allow orl_valid orl_level orl_refillRate orl_ready
proof unfold_locales
  fix t l now
  assume a: "orl_valid t l" "t \<le> now" "time_ok now"
  show "orl_valid now (snd (orl_Allow now l))" by (rule orl_Allow_valid [OF a])
  show "orl_level (snd (orl_Allow now l)) + (if fst (orl_Allow now l) then orl_refillRate l else 0) \<le> orl_level l"
    using orl_refill_level [OF a] by (simp add: orl_Allow_eq [OF a] Let_def orl_level_def algebra_simps)
qed (simp_all add: orl_level_bound orl_Allow_ready, auto simp: orl_valid_def orl_ready_def)

text \<open>The constructor accepts every argument: the defaults and the minimum rate keep it valid.\<close>

lemma NewOptimizedRateLimiter_valid:
  assumes "maxTokens < 2 ^ 62" and "in64 refillRate" and "time_ok now"
  shows "orl_valid now (NewOptimizedRateLimiter now maxTokens refillRate)"
proof -
  have q: "div64 r m = r div m" "0 \<le> r div m" if "0 < r" "in64 r" "0 < m" for r m
    using that by (auto simp: div64_exact in64_def pos_imp_zdiv_nonneg_iff)
  have ten: "div64 m 10 = m div 10" "0 \<le> m div 10" if "0 < m" "m < 2 ^ 62" for m
    using that by (auto simp: div64_exact)
  have sec: "in64 Second" "0 < Second" by (simp_all add: in64_def Second_def)
  show ?thesis
    using assms sec q(1) [of Second 1] q(2) [of Second 1] q [of refillRate 1]
      q [of Second maxTokens] q [of refillRate maxTokens] ten [of maxTokens] ten(1) [of 1]
    by (auto simp: NewOptimizedRateLimiter_def Let_def orl_valid_def time_ok_def order_less_le)
qed

lemma orl_SetRate_valid:
  assumes "orl_valid t rl" and "in64 newRate"
  shows "orl_valid t (orl_SetRate newRate rl)"
proof -
  have "div64 newRate (orl_maxTokens rl) = newRate div orl_maxTokens rl" "0 \<le> newRate div orl_maxTokens rl"
    if "0 < newRate"
    using that assms by (auto simp: div64_exact in64_def orl_valid_def pos_imp_zdiv_nonneg_iff)
  with assms(1) show ?thesis
    by (auto simp: orl_SetRate_def Let_def orl_valid_def order_less_le)
qed

lemma orl_Reset_valid: "orl_valid t rl \<Longrightarrow> t \<le> now \<Longrightarrow> time_ok now \<Longrightarrow> orl_valid now (orl_Reset now rl)"
  by (auto simp: orl_valid_def orl_Reset_def)

lemma orl_AllowN_valid:
  assumes "orl_valid t rl" and "t \<le> now" and "time_ok now"
  shows "orl_valid now (snd (orl_AllowN now n rl))"
  using orl_refill_valid [OF assms] assms
  by (auto simp: orl_AllowN_def Let_def orl_valid_def sub64_exact in64_def)

lemma orl_Reserve_valid:
  assumes "orl_valid t rl" and "t \<le> now" and "time_ok now"
  shows "orl_valid now (snd (orl_Reserve now now' rl))"
  using orl_refill_valid [OF assms] assms
  by (auto simp: orl_Reserve_def Let_def orl_valid_def sub64_exact in64_def)

text \<open>The utilization is a number between 0 and 1.\<close>

lemma GetStats_utilization:
  assumes "orl_valid t rl"
  shows "\<exists>u. rst_Utilization (orl_GetStats rl) = Fin u \<and> 0 \<le> u \<and> u \<le> 1"
proof -
  let ?a = "rnd (of_int (orl_tokens rl))" and ?b = "rnd (of_int (orl_maxTokens rl))"
  have v: "0 \<le> orl_tokens rl" "orl_tokens rl \<le> orl_maxTokens rl" "0 < orl_maxTokens rl"
    "orl_maxTokens rl < 2 ^ 62"
    using assms by (auto simp: orl_valid_def)
  have "rnd (of_int 1) \<le> ?b" using v(3) by (intro rnd_mono) auto
  then have b: "1 \<le> ?b" using rnd_of_int [of 1] by simp
  have ab: "0 \<le> ?a" "?a \<le> ?b" using v by (auto intro: rnd_nonneg rnd_mono)
  with b have q: "0 \<le> ?a / ?b" "?a / ?b \<le> 1" by auto
  have "flt (?a / ?b) = Fin (rnd (?a / ?b))" by (rule flt_fin [OF q(1) order_trans [OF q(2)]]) simp
  with v b have "rst_Utilization (orl_GetStats rl) = Fin (rnd (?a / ?b))"
    by (simp add: orl_GetStats_def Let_def f_quotient_def f_of_int_fin)
  with rnd_nonneg [OF q(1)] rnd_le_pow2 [of "?a / ?b" 0] q show ?thesis by auto
qed
subsection \<open>Calls of one instant\<close>

lemma orl_due_batch:
  assumes "orl_valid t rl" and "orl_lastRefill rl + int (Suc k) * (orl_batchSize rl * orl_refillRate rl) \<le> now"
  shows "orl_lastRefill rl + orl_due now rl * orl_refillRate rl + int k * (orl_batchSize rl * orl_refillRate rl) \<le> now"
    and "orl_ready rl \<le> now"
proof -
  have p: "0 < orl_refillRate rl" "0 < orl_batchSize rl" using assms(1) by (auto simp: orl_valid_def)
  have "orl_due now rl * orl_refillRate rl \<le> orl_batchSize rl * orl_refillRate rl"
    using p by (intro mult_right_mono) (auto simp: orl_due_def)
  with assms(2) show "orl_lastRefill rl + orl_due now rl * orl_refillRate rl +
      int k * (orl_batchSize rl * orl_refillRate rl) \<le> now"
    by (simp add: algebra_simps)
  have "1 * orl_refillRate rl \<le> orl_batchSize rl * orl_refillRate rl"
    using p by (intro mult_right_mono) auto
  moreover have "0 \<le> int k * (orl_batchSize rl * orl_refillRate rl)" using p by simp
  ultimately show "orl_ready rl \<le> now"
    using assms(2) unfolding orl_ready_def by (simp add: algebra_simps)
qed

lemma orl_idle_burst:
  "orl_valid t rl \<Longrightarrow> t \<le> now \<Longrightarrow> time_ok now \<Longrightarrow>
   orl_lastRefill rl + int k * (orl_batchSize rl * orl_refillRate rl) \<le> now \<Longrightarrow>
   fst (run_limiter orl_Allow (replicate k now) rl) = replicate k True"
proof (induction k arbitrary: rl t)
  case (Suc k)
  note a = Suc.prems(1-3)
  note due = orl_due_batch [OF a(1) Suc.prems(4)]
  have "fst (orl_Allow now rl)" by (rule orl_Allow_ready [OF a due(2)])
  moreover have "orl_lastRefill (snd (orl_Allow now rl)) = orl_lastRefill rl + orl_due now rl * orl_refillRate rl"
    by (simp add: orl_Allow_eq [OF a] orl_refill_eq [OF a] Let_def)
  then have "fst (run_limiter orl_Allow (replicate k now) (snd (orl_Allow now rl))) = replicate k True"
    using Suc.IH [OF orl_Allow_valid [OF a]] a due(1) by simp
  ultimately show ?case by (simp add: split_def Let_def)
qed simp

subsection \<open>Properties\<close>

text \<open>
  C28. The optimized limiter keeps the same kind of rate bound, for every constructor argument:
  up to any time it has let through at most \<open>Burst\<close> calls and one more for each
  \<open>refillRate / maxTokens\<close> nanoseconds since it was made (with the constructor's defaults, and at
  least one nanosecond per token).
\<close>

theorem optimized_limiter_rate_bound:
  assumes "maxTokens < 2 ^ 62" and "in64 refillRate" and "time_ok start" and "clock_from start ts"
  defines "rl \<equiv> NewOptimizedRateLimiter start maxTokens refillRate"
  shows "0 < orl_refillRate rl \<and>
    grants (fst (run_limiter orl_Allow ts rl)) \<le> orl_Burst rl + (last (start # ts) - start) div orl_refillRate rl"
proof -
  let ?g = "grants (fst (run_limiter orl_Allow ts rl))"
  have v: "orl_valid start rl" unfolding rl_def by (rule NewOptimizedRateLimiter_valid [OF assms(1-3)])
  then have pos: "0 < orl_refillRate rl" by (simp add: orl_valid_def)
  have "orl_refillRate rl * ?g \<le> orl_level rl + last (start # ts)"
    by (rule orl.grants_bounded [OF v assms(4)])
  moreover have "orl_level rl = orl_refillRate rl * orl_Burst rl - start"
    by (simp add: orl_level_def orl_Burst_def rl_def NewOptimizedRateLimiter_def Let_def)
  ultimately have "(?g - orl_Burst rl) * orl_refillRate rl \<le> last (start # ts) - start"
    by (simp add: algebra_simps)
  then have "?g - orl_Burst rl \<le> (last (start # ts) - start) div orl_refillRate rl"
    using pos zdiv_mono1 [of "(?g - orl_Burst rl) * orl_refillRate rl" "last (start # ts) - start" "orl_refillRate rl"]
    by simp
  with pos show ?thesis by simp
qed

lemma optimized_limiter_rate_bound_witness:
  "0 < orl_refillRate (NewOptimizedRateLimiter 0 (-3) 50) \<and>
    grants (fst (run_limiter orl_Allow [1, 60, 61] (NewOptimizedRateLimiter 0 (-3) 50)))
    \<le> orl_Burst (NewOptimizedRateLimiter 0 (-3) 50) +
      (last [0, 1, 60, 61] - 0) div orl_refillRate (NewOptimizedRateLimiter 0 (-3) 50)"
  by (rule optimized_limiter_rate_bound) (simp_all add: time_ok_def in64_def)

text \<open>
  But \<open>Burst\<close> is not a burst bound, as it is for the plain limiter (\<open>limiter_burst_bound\<close>): after an idle time
  of \<open>k\<close> batches, \<open>k\<close> calls at one and the same instant are all let through, for any \<open>k\<close>.
\<close>

theorem optimized_limiter_burst_unbounded:
  assumes "maxTokens < 2 ^ 62" and "in64 refillRate" and "time_ok start" and "time_ok now"
  defines "rl \<equiv> NewOptimizedRateLimiter start maxTokens refillRate"
  assumes "start + int k * (orl_batchSize rl * orl_refillRate rl) \<le> now"
  shows "fst (run_limiter orl_Allow (replicate k now) rl) = replicate k True"
proof -
  have v: "orl_valid start rl" unfolding rl_def by (rule NewOptimizedRateLimiter_valid [OF assms(1-3)])
  then have "0 \<le> int k * (orl_batchSize rl * orl_refillRate rl)" by (simp add: orl_valid_def)
  then have "start \<le> now" using assms(6) by linarith
  moreover have "orl_lastRefill rl = start" by (simp add: rl_def NewOptimizedRateLimiter_def Let_def)
  ultimately show ?thesis using orl_idle_burst [OF v _ assms(4), of k] assms(6) by simp
qed

text \<open>Ten tokens a second, idle for ten seconds: a hundred calls at once against a burst of ten.\<close>

lemma optimized_limiter_burst_unbounded_witness:
  "fst (run_limiter orl_Allow (replicate 100 (10 * Second)) (NewOptimizedRateLimiter 0 10 Second)) =
     replicate 100 True \<and> orl_Burst (NewOptimizedRateLimiter 0 10 Second) = 10"
proof
  have nano: "div64 1000000000 10 = 100000000" "div64 10 10 = 1"
    by (simp_all add: div64_def signed_divide_int_def in64_def)
  show "fst (run_limiter orl_Allow (replicate 100 (10 * Second)) (NewOptimizedRateLimiter 0 10 Second)) =
     replicate 100 True"
    by (rule optimized_limiter_burst_unbounded)
      (simp_all add: NewOptimizedRateLimiter_def time_ok_def in64_def nano Second_def Let_def)
  show "orl_Burst (NewOptimizedRateLimiter 0 10 Second) = 10"
    by (simp add: NewOptimizedRateLimiter_def orl_Burst_def Let_def)
qed

text \<open>
  \<open>AllowN\<close> takes all \<open>n\<close> tokens or none, and exactly when they are there after the refill;
  a request above the bucket size is refused without touching the limiter.
\<close>

theorem AllowN_all_or_nothing:
  assumes "orl_valid t rl" and "t \<le> now" and "time_ok now" and "0 < n"
  defines "r \<equiv> orl_fastRefill now rl"
  shows "orl_AllowN now n rl =
    (if n > orl_maxTokens rl then (False, rl)
     else if n \<le> orl_tokens r then (True, r\<lparr>orl_tokens := orl_tokens r - n\<rparr>)
     else (False, r))"
proof -
  have "orl_valid now r" unfolding r_def by (rule orl_refill_valid [OF assms(1-3)])
  then have "sub64 (orl_tokens r) n = orl_tokens r - n" if "n \<le> orl_tokens r"
    using that assms(4) by (intro sub64_exact) (auto simp: orl_valid_def in64_def)
  then show ?thesis using assms(4) by (auto simp: orl_AllowN_def Let_def r_def [symmetric])
qed

lemma AllowN_all_or_nothing_witness:
  "orl_AllowN 5 3 (NewOptimizedRateLimiter 5 4 1000) =
    (let rl = NewOptimizedRateLimiter 5 4 1000; r = orl_fastRefill 5 rl
     in if 3 > orl_maxTokens rl then (False, rl)
        else if 3 \<le> orl_tokens r then (True, r\<lparr>orl_tokens := orl_tokens r - 3\<rparr>) else (False, r))"
  unfolding Let_def
  by (rule AllowN_all_or_nothing [OF NewOptimizedRateLimiter_valid]) (simp_all add: time_ok_def in64_def)

end
