(* ===== verification/RateLimiterConcurrent.thy ===== *)
theory RateLimiterConcurrent
  imports RateLimiterOptimized Interleaving
begin

text \<open>
  Both token buckets under concurrency: every atomic operation of a call is one step of a
  goroutine. The shared state carries, beside the limiter, the number of tokens handed out so
  far, which no code reads. Calls of \<open>SetRate\<close> and \<open>Reset\<close> are not among the steps, so the
  loads of the refill rate and threshold see constants and need no step of their own.
\<close>

subsection \<open>The plain bucket\<close>

datatype rl_pc =
  LIdle | LAnswer bool
| LTokens int
| LLast int int
| LSwap int int int int
| LStore int
| LTake
| LTakeSwap int

fun rl_exec :: "rl_pc \<Rightarrow> RateLimiter \<times> int \<Rightarrow> (RateLimiter \<times> int) \<times> rl_pc" where
  "rl_exec LIdle s = (s, LIdle)"
| "rl_exec (LAnswer d) s = (s, LAnswer d)"
| "rl_exec (LTokens now) (rl, g) = ((rl, g), LLast now (rl_tokens rl))"
| "rl_exec (LLast now currentTokens) (rl, g) =
     (let lastRefill = rl_lastRefill rl;
          tokensToAdd = rl_tokensToAdd now lastRefill rl
      in ((rl, g),
          if tokensToAdd = 0 then LTake
          else LSwap now lastRefill (add64 lastRefill (mul64 tokensToAdd (rl_refillRate rl)))
                 (rl_newTokens currentTokens tokensToAdd rl)))"
| "rl_exec (LSwap now lastRefill newLastRefill newTokens) (rl, g) =
     (if rl_lastRefill rl = lastRefill
      then ((rl\<lparr>rl_lastRefill := newLastRefill\<rparr>, g), LStore newTokens)
      else ((rl, g), LTokens now))"
| "rl_exec (LStore newTokens) (rl, g) = ((rl\<lparr>rl_tokens := newTokens\<rparr>, g), LTake)"
| "rl_exec LTake (rl, g) =
     ((rl, g), if rl_tokens rl \<le> 0 then LAnswer False else LTakeSwap (rl_tokens rl))"
| "rl_exec (LTakeSwap currentTokens) (rl, g) =
     (if rl_tokens rl = currentTokens
      then ((rl\<lparr>rl_tokens := sub64 currentTokens 1\<rparr>, g + 1), LAnswer True)
      else ((rl, g), LTake))"

fun rl_over :: "rl_pc \<Rightarrow> bool" where
  "rl_over LIdle = True" | "rl_over (LAnswer d) = True" | "rl_over pc = False"

text \<open>A call begins with a clock reading up to \<open>T\<close>.\<close>

definition rl_start :: "int \<Rightarrow> rl_pc \<Rightarrow> rl_pc \<Rightarrow> bool" where
  "rl_start T pc pc' \<longleftrightarrow> rl_over pc \<and> (case pc' of LTokens now \<Rightarrow> 0 \<le> now \<and> now \<le> T | _ \<Rightarrow> False)"

lemma solo_rl_take:
  "solo rl_exec (Suc (Suc n)) LTake (rl, g) =
     ((snd (rl_consumeToken rl), g + of_bool (fst (rl_consumeToken rl))), LAnswer (fst (rl_consumeToken rl)))"
proof -
  have "solo rl_exec n (LAnswer d) s = (s, LAnswer d)" for d s by (induction n) simp_all
  then show ?thesis by (simp add: rl_consumeToken_def Let_def)
qed

lemma solo_rl_Allow:
  "solo rl_exec 6 (LTokens now) (rl, g) =
     ((snd (rl_Allow now rl), g + of_bool (fst (rl_Allow now rl))), LAnswer (fst (rl_Allow now rl)))"
proof -
  have six: "(6::nat) = Suc (Suc (Suc (Suc (Suc (Suc 0)))))" by simp
  show ?thesis
    unfolding six
  proof (cases "rl_tokensToAdd now (rl_lastRefill rl) rl = 0")
    case True
    then have "solo rl_exec (Suc (Suc (Suc (Suc (Suc (Suc 0)))))) (LTokens now) (rl, g) =
        solo rl_exec (Suc (Suc (Suc (Suc 0)))) LTake (rl, g)" by simp
    with True show "solo rl_exec (Suc (Suc (Suc (Suc (Suc (Suc 0)))))) (LTokens now) (rl, g) =
       ((snd (rl_Allow now rl), g + of_bool (fst (rl_Allow now rl))), LAnswer (fst (rl_Allow now rl)))"
      by (simp only: solo_rl_take) (simp add: rl_Allow_def rl_refillTokens_def Let_def)
  next
    case False
    then have "solo rl_exec (Suc (Suc (Suc (Suc (Suc (Suc 0)))))) (LTokens now) (rl, g) =
        solo rl_exec (Suc (Suc 0)) LTake (rl_refillTokens now rl, g)"
      by (simp add: rl_refillTokens_def Let_def)
    then show "solo rl_exec (Suc (Suc (Suc (Suc (Suc (Suc 0)))))) (LTokens now) (rl, g) =
       ((snd (rl_Allow now rl), g + of_bool (fst (rl_Allow now rl))), LAnswer (fst (rl_Allow now rl)))"
      by (simp only: solo_rl_take) (simp add: rl_Allow_def)
  qed
qed

definition rl_shared_ok :: "int \<Rightarrow> RateLimiter \<times> int \<Rightarrow> bool" where
  "rl_shared_ok m s \<longleftrightarrow> rl_maxTokens (fst s) = m \<and> m < 2 ^ 62 \<and> rl_tokens (fst s) \<le> m"

fun rl_local_ok :: "int \<Rightarrow> rl_pc \<Rightarrow> bool" where
  "rl_local_ok m (LSwap now lastRefill newLastRefill newTokens) = (newTokens \<le> m)"
| "rl_local_ok m (LStore newTokens) = (newTokens \<le> m)"
| "rl_local_ok m (LTakeSwap currentTokens) = (0 < currentTokens \<and> currentTokens \<le> m)"
| "rl_local_ok m pc = True"

lemma rl_newTokens_le: "rl_newTokens current add rl \<le> rl_maxTokens rl"
  by (simp add: rl_newTokens_def Let_def)

lemma rl_exec_ok:
  assumes "rl_shared_ok m (rl, g)" and "rl_local_ok m pc"
  shows "rl_shared_ok m (fst (rl_exec pc (rl, g))) \<and> rl_local_ok m (snd (rl_exec pc (rl, g)))"
proof (cases pc)
  case (LTakeSwap current)
  with assms have "sub64 current 1 = current - 1"
    by (intro sub64_exact) (simp add: rl_shared_ok_def in64_def)
  with LTakeSwap assms show ?thesis by (simp add: rl_shared_ok_def)
next
  case (LLast now current)
  then show ?thesis using assms rl_newTokens_le [of _ _ rl] by (simp add: rl_shared_ok_def Let_def)
qed (use assms in \<open>auto simp: rl_shared_ok_def\<close>)

interpretation rlt: thread_modular rl_exec "rl_start T" "rl_shared_ok m" "rl_local_ok m" for T m
proof unfold_locales
  fix s pc s' pc'
  assume "rl_shared_ok m s" "rl_local_ok m pc" "rl_exec pc s = (s', pc')"
  then show "rl_shared_ok m s' \<and> rl_local_ok m pc'"
    using rl_exec_ok [of m "fst s" "snd s" pc] by simp
next
  fix pc pc'
  assume "rl_start T pc pc'"
  then show "rl_local_ok m pc'" by (auto simp: rl_start_def split: rl_pc.splits)
qed

text \<open>
  Under every interleaving the plain bucket never holds more than \<open>maxTokens\<close> tokens.
\<close>

theorem plain_bucket_capacity:
  assumes "maxTokens < 2 ^ 62"
    and "mt_reach rl_exec (rl_start T)
      ((NewRateLimiter start maxTokens refillRate, 0), replicate n LIdle) ((rl, g), pcs)"
  shows "rl_tokens rl \<le> maxTokens"
  using rlt.reach_ok [OF assms(2), of maxTokens] assms(1)
  by (simp add: rl_shared_ok_def NewRateLimiter_def list_all_iff)

lemma plain_bucket_capacity_witness:
  "rl_tokens (rl_refillTokens 30 (NewRateLimiter 0 2 10)) \<le> 2"
proof -
  have "mt_run rl_exec (rl_start 30) [(0, Some (LTokens 30)), (0, None), (0, None), (0, None), (0, None)]
      ((NewRateLimiter 0 2 10, 0), replicate 1 LIdle) = Some ((rl_refillTokens 30 (NewRateLimiter 0 2 10), 0), [LTake])"
    by (simp add: NewRateLimiter_def rl_start_def rl_refillTokens_def Let_def
        rl_tokensToAdd_def rl_newTokens_def add64_def sub64_def mul64_def div64_def i64_def signed_divide_int_def)
  from mt_run_reach [OF this mt_reach.init] show ?thesis
    by (rule plain_bucket_capacity [rotated]) simp
qed

text \<open>
  The lost update of \<open>refillTokens\<close>: goroutine 0 has loaded two tokens and computed its refill;
  goroutine 1 takes both; goroutine 0 then stores the stale sum.
\<close>

definition refill_race :: "(nat \<times> rl_pc option) list" where
  "refill_race =
     [(0, Some (LTokens 10)), (0, None), (0, None),
      (1, Some (LTokens 5)), (1, None), (1, None), (1, None), (1, None),
      (1, Some (LTokens 5)), (1, None), (1, None), (1, None), (1, None),
      (0, None), (0, None), (0, None), (0, None),
      (0, Some (LTokens 10)), (0, None), (0, None), (0, None), (0, None)]"

text \<open>
  The rate bound of one goroutine (\<open>limiter_rate_bound\<close>) is lost under concurrency: two goroutines can get
  four calls let through in ten nanoseconds by a limiter of two tokens that adds one every ten
  nanoseconds, where the bound is three, because \<open>refillTokens\<close> stores a sum it computed from a
  stale load.
\<close>

theorem plain_bucket_overgrants:
  "\<exists>rl g pcs. mt_reach rl_exec (rl_start 10) ((NewRateLimiter 0 2 10, 0), [LIdle, LIdle]) ((rl, g), pcs) \<and>
     g > 2 + (10 - 0) div 10"
proof -
  have "mt_run rl_exec (rl_start 10) refill_race ((NewRateLimiter 0 2 10, 0), [LIdle, LIdle]) =
     Some ((\<lparr>rl_tokens = 0, rl_maxTokens = 2, rl_refillRate = 10, rl_lastRefill = 10\<rparr>, 4),
           [LAnswer True, LAnswer True])"
    by (simp add: refill_race_def NewRateLimiter_def rl_start_def Let_def
        rl_tokensToAdd_def rl_newTokens_def add64_def sub64_def mul64_def div64_def i64_def signed_divide_int_def)
  from mt_run_reach [OF this mt_reach.init] show ?thesis
    by (intro exI conjI) (assumption, simp)
qed

subsection \<open>The optimized bucket\<close>

datatype orl_want = WantOne | WantN int | WantReserve

fun want_ok :: "orl_want \<Rightarrow> bool" where
  "want_ok (WantN n) = (0 < n)" | "want_ok w = True"

datatype orl_pc =
  BIdle | BAnswer bool
| BLast orl_want int
| BSwap orl_want int int
| BAddLoad orl_want int
| BAddSwap orl_want int int int
| BTake nat
| BTakeSwap nat int
| BTakeN int
| BTakeNSwap int int
| BReserve
| BReserveSwap int

fun orl_take :: "orl_want \<Rightarrow> orl_pc" where
  "orl_take WantOne = BTake 0"
| "orl_take (WantN n) = BTakeN n"
| "orl_take WantReserve = BReserve"

fun orl_exec :: "orl_pc \<Rightarrow> OptimizedRateLimiter \<times> int \<Rightarrow> (OptimizedRateLimiter \<times> int) \<times> orl_pc" where
  "orl_exec BIdle s = (s, BIdle)"
| "orl_exec (BAnswer d) s = (s, BAnswer d)"
| "orl_exec (BLast w now) (rl, g) =
     (let lastRefill = orl_lastRefill rl;
          tokensToAdd = orl_tokensToAdd now lastRefill rl
      in ((rl, g), if tokensToAdd = 0 then orl_take w else BSwap w lastRefill tokensToAdd))"
| "orl_exec (BSwap w lastRefill tokensToAdd) (rl, g) =
     (if orl_lastRefill rl = lastRefill
      then ((rl\<lparr>orl_lastRefill := add64 lastRefill (mul64 tokensToAdd (orl_refillRate rl))\<rparr>, g), BAddLoad w tokensToAdd)
      else ((rl, g), orl_take w))"
| "orl_exec (BAddLoad w tokensToAdd) (rl, g) =
     (let current = orl_tokens rl;
          newTokens = orl_newTokens current tokensToAdd rl
      in ((rl, g), if newTokens = current then orl_take w else BAddSwap w tokensToAdd current newTokens))"
| "orl_exec (BAddSwap w tokensToAdd current newTokens) (rl, g) =
     (if orl_tokens rl = current then ((rl\<lparr>orl_tokens := newTokens\<rparr>, g), orl_take w)
      else ((rl, g), BAddLoad w tokensToAdd))"
| "orl_exec (BTake attempts) (rl, g) =
     ((rl, g), if orl_tokens rl \<le> 0 then BAnswer False else BTakeSwap attempts (orl_tokens rl))"
| "orl_exec (BTakeSwap attempts current) (rl, g) =
     (if orl_tokens rl = current
      then ((rl\<lparr>orl_tokens := sub64 current 1\<rparr>, g + 1), BAnswer True)
      else ((rl, g), if attempts + 1 < 3 then BTake (attempts + 1) else BAnswer False))"
| "orl_exec (BTakeN n) (rl, g) =
     ((rl, g), if orl_tokens rl < n then BAnswer False else BTakeNSwap n (orl_tokens rl))"
| "orl_exec (BTakeNSwap n current) (rl, g) =
     (if orl_tokens rl = current
      then ((rl\<lparr>orl_tokens := sub64 current n\<rparr>, g + n), BAnswer True)
      else ((rl, g), BTakeN n))"
| "orl_exec BReserve (rl, g) =
     ((rl, g), if orl_tokens rl > 0 then BReserveSwap (orl_tokens rl) else BAnswer False)"
| "orl_exec (BReserveSwap current) (rl, g) =
     (if orl_tokens rl = current
      then ((rl\<lparr>orl_tokens := sub64 current 1\<rparr>, g + 1), BAnswer True)
      else ((rl, g), BAnswer False))"

fun orl_over :: "orl_pc \<Rightarrow> bool" where
  "orl_over BIdle = True" | "orl_over (BAnswer d) = True" | "orl_over pc = False"

text \<open>
  A call begins with a clock reading up to \<open>T\<close>. \<open>AllowN\<close> answers at once, without touching the
  limiter, unless \<open>0 < n\<close> and \<open>n\<close> is at most the bucket size \<open>m\<close>.
\<close>

definition orl_start :: "int \<Rightarrow> int \<Rightarrow> orl_pc \<Rightarrow> orl_pc \<Rightarrow> bool" where
  "orl_start T m pc pc' \<longleftrightarrow> orl_over pc \<and>
     (case pc' of BLast w now \<Rightarrow> 0 \<le> now \<and> now \<le> T \<and> want_ok w \<and> (case w of WantN n \<Rightarrow> n \<le> m | _ \<Rightarrow> True)
      | _ \<Rightarrow> False)"

text \<open>
  Alone, a goroutine executes the sequential operations; it is done after six operations, or
  earlier when a compare-and-swap is skipped, and then stays where it is.
\<close>

lemma solo_orl_Allow:
  "solo orl_exec 6 (BLast WantOne now) (rl, g) =
     ((snd (orl_Allow now rl), g + of_bool (fst (orl_Allow now rl))), BAnswer (fst (orl_Allow now rl)))"
  by (simp add: eval_nat_numeral orl_Allow_def orl_fastRefill_def orl_consumeTokenFast_def Let_def)

lemma solo_orl_AllowN:
  "0 < n \<Longrightarrow> n \<le> orl_maxTokens rl \<Longrightarrow> solo orl_exec 6 (BLast (WantN n) now) (rl, g) =
     ((snd (orl_AllowN now n rl), g + (if fst (orl_AllowN now n rl) then n else 0)), BAnswer (fst (orl_AllowN now n rl)))"
  by (simp add: eval_nat_numeral orl_AllowN_def orl_fastRefill_def Let_def)

lemma solo_orl_Reserve:
  "fst (solo orl_exec 6 (BLast WantReserve now) (rl, 0)) =
     (snd (orl_Reserve now now' rl), of_bool (0 < orl_tokens (orl_fastRefill now rl)))"
  by (simp add: eval_nat_numeral orl_Reserve_def orl_fastRefill_def Let_def)

subsection \<open>Conservation of tokens\<close>

definition orl_shared_ok :: "int \<Rightarrow> int \<Rightarrow> int \<Rightarrow> OptimizedRateLimiter \<times> int \<Rightarrow> bool" where
  "orl_shared_ok T r m s \<longleftrightarrow> orl_valid T (fst s) \<and> orl_refillRate (fst s) = r \<and> orl_maxTokens (fst s) = m"

fun orl_local_ok :: "int \<Rightarrow> int \<Rightarrow> int \<Rightarrow> orl_pc \<Rightarrow> bool" where
  "orl_local_ok T r m (BLast w now) = (want_ok w \<and> 0 \<le> now \<and> now \<le> T)"
| "orl_local_ok T r m (BSwap w lastRefill add) =
     (want_ok w \<and> 0 < add \<and> add < 2 ^ 62 \<and> 0 \<le> lastRefill \<and> lastRefill + add * r \<le> T)"
| "orl_local_ok T r m (BAddLoad w add) = (want_ok w \<and> 0 < add \<and> add < 2 ^ 62)"
| "orl_local_ok T r m (BAddSwap w add current new) =
     (want_ok w \<and> 0 < add \<and> add < 2 ^ 62 \<and> 0 \<le> new \<and> new \<le> m \<and> new \<le> current + add)"
| "orl_local_ok T r m (BTakeSwap attempts current) = (0 < current)"
| "orl_local_ok T r m (BTakeN n) = (0 < n)"
| "orl_local_ok T r m (BTakeNSwap n current) = (0 < n \<and> n \<le> current)"
| "orl_local_ok T r m (BReserveSwap current) = (0 < current)"
| "orl_local_ok T r m pc = True"

text \<open>Tokens a goroutine has paid for by moving \<open>lastRefill\<close> but not yet put into the bucket.\<close>

fun orl_pending :: "orl_pc \<Rightarrow> int" where
  "orl_pending (BAddLoad w add) = add"
| "orl_pending (BAddSwap w add current new) = add"
| "orl_pending pc = 0"

lemma orl_take_simps [simp]:
  "orl_pending (orl_take w) = 0"
  "orl_local_ok T r m (orl_take w) = want_ok w"
  by (cases w; simp)+

lemma orl_tokensToAdd_bounds:
  assumes "orl_valid T rl" and "0 \<le> now" and "now \<le> T" and "orl_tokensToAdd now (orl_lastRefill rl) rl \<noteq> 0"
  shows "0 < orl_tokensToAdd now (orl_lastRefill rl) rl" and "orl_tokensToAdd now (orl_lastRefill rl) rl < 2 ^ 62"
    and "orl_lastRefill rl + orl_tokensToAdd now (orl_lastRefill rl) rl * orl_refillRate rl \<le> T"
proof -
  let ?l = "orl_lastRefill rl" and ?r = "orl_refillRate rl"
  have v: "0 \<le> ?l" "?l \<le> T" "0 < ?r" "orl_refillThreshold rl = ?r" "0 < orl_batchSize rl" "time_ok T"
    using assms(1) by (auto simp: orl_valid_def)
  have "sub64 now ?l = now - ?l" using v assms by (intro sub64_exact) (auto simp: in64_def time_ok_def)
  with assms(4) v have "?r \<le> now - ?l" by (auto simp: orl_tokensToAdd_def Let_def split: if_splits)
  then have le: "?l \<le> now" and now: "time_ok now" using v assms by (auto simp: time_ok_def)
  note ar = refill_arith [OF v(1) le now v(3)]
  have now_valid: "orl_valid now rl" using assms(1) le now by (simp add: orl_valid_def)
  have "1 \<le> (now - ?l) div ?r"
    using zdiv_mono1 [OF \<open>?r \<le> now - ?l\<close> v(3)] v(3) by simp
  with \<open>?r \<le> now - ?l\<close> ar v have eq: "orl_tokensToAdd now ?l rl = orl_due now rl"
    by (auto simp: orl_tokensToAdd_def Let_def orl_due_def min_def)
  note d = orl_due_bounds [OF now_valid order_refl now]
  show "0 < orl_tokensToAdd now ?l rl" using d(1) assms(4) eq by simp
  show "orl_tokensToAdd now ?l rl < 2 ^ 62" using d(2) eq by simp
  show "?l + orl_tokensToAdd now ?l rl * ?r \<le> T" using d(3) eq assms(3) by simp
qed

lemma orl_newTokens_bounds:
  assumes "orl_valid T rl" and "0 < add" and "add < 2 ^ 62"
  shows "orl_newTokens (orl_tokens rl) add rl = min (orl_maxTokens rl) (orl_tokens rl + add)"
proof -
  have "add64 (orl_tokens rl) add = orl_tokens rl + add"
    using assms by (intro add64_exact) (auto simp: orl_valid_def in64_def)
  then show ?thesis by (simp add: orl_newTokens_def Let_def min_def)
qed

text \<open>
  One operation keeps the invariants and never creates tokens: what the bucket, the answered
  calls and the pending refill of the goroutine hold, less what \<open>lastRefill\<close> has paid for, does
  not grow.
\<close>

definition orl_energy :: "OptimizedRateLimiter \<Rightarrow> int \<Rightarrow> int \<Rightarrow> int" where
  "orl_energy rl g pending = orl_refillRate rl * (orl_tokens rl + g + pending) - orl_lastRefill rl"

lemma orl_exec_ok:
  assumes "orl_shared_ok T r m (rl, g)" and "orl_local_ok T r m pc"
    and "orl_exec pc (rl, g) = ((rl', g'), pc')"
  shows "orl_shared_ok T r m (rl', g') \<and> orl_local_ok T r m pc' \<and>
    orl_energy rl' g' (orl_pending pc') \<le> orl_energy rl g (orl_pending pc)"
proof -
  have v: "orl_valid T rl" and r: "orl_refillRate rl = r" "0 < r" and m: "orl_maxTokens rl = m" "m < 2 ^ 62"
    using assms(1) by (auto simp: orl_shared_ok_def orl_valid_def)
  have take: "sub64 c n = c - n" if "orl_tokens rl = c" "0 < n" "n \<le> c" for c n
    using that v by (intro sub64_exact) (auto simp: orl_valid_def in64_def)
  show ?thesis
  proof (cases pc)
    case (BLast w now)
    then show ?thesis
      using assms orl_tokensToAdd_bounds [OF v, of now] r v
      by (auto simp: Let_def orl_energy_def orl_valid_def split: if_splits)
  next
    case (BSwap w last add)
    have "mul64 add r = add * r" "add64 last (add * r) = last + add * r" "0 \<le> last + add * r"
      if "0 < add" "0 \<le> last" "last + add * r \<le> T"
    proof -
      have "0 < add * r" "T < 2 ^ 62" using that r v by (auto simp: orl_valid_def time_ok_def)
      with that show "mul64 add r = add * r" "add64 last (add * r) = last + add * r" "0 \<le> last + add * r"
        by (auto intro!: mul64_exact add64_exact simp: in64_def)
    qed
    with BSwap assms v r show ?thesis
      by (auto simp: orl_shared_ok_def orl_valid_def orl_energy_def algebra_simps split: if_splits)
  next
    case (BAddLoad w add)
    with assms v m r show ?thesis
      using orl_newTokens_bounds [OF v, of add] mult_left_mono [of 0 add r]
      by (auto simp: Let_def orl_energy_def orl_valid_def algebra_simps split: if_splits)
  next
    case (BAddSwap w add current new)
    then have "r * new \<le> r * (current + add)" using assms(2) r by (intro mult_left_mono) auto
    with BAddSwap assms v r m show ?thesis
      by (auto simp: orl_shared_ok_def orl_valid_def orl_energy_def algebra_simps split: if_splits)
  next
    case (BTakeSwap k current)
    with assms v r take [of current 1] show ?thesis
      by (auto simp: orl_shared_ok_def orl_valid_def orl_energy_def right_diff_distrib distrib_left split: if_splits)
  next
    case (BTakeNSwap n current)
    with assms v r take [of current n] show ?thesis
      by (auto simp: orl_shared_ok_def orl_valid_def orl_energy_def right_diff_distrib distrib_left split: if_splits)
  next
    case (BReserveSwap current)
    with assms v r take [of current 1] show ?thesis
      by (auto simp: orl_shared_ok_def orl_valid_def orl_energy_def right_diff_distrib distrib_left split: if_splits)
  qed (use assms in \<open>auto simp: orl_energy_def split: if_splits\<close>)
qed

interpretation orlt: thread_modular orl_exec "orl_start T m" "orl_shared_ok T r m" "orl_local_ok T r m" for T r m
proof unfold_locales
  fix s pc s' pc'
  assume "orl_shared_ok T r m s" "orl_local_ok T r m pc" "orl_exec pc s = (s', pc')"
  then show "orl_shared_ok T r m s' \<and> orl_local_ok T r m pc'"
    using orl_exec_ok [of T r m "fst s" "snd s" pc "fst s'" "snd s'" pc'] by simp
next
  fix pc pc'
  assume "orl_start T m pc pc'"
  then show "orl_local_ok T r m pc'"
    by (auto simp: orl_start_def split: orl_pc.splits)
qed

definition orl_total :: "(OptimizedRateLimiter \<times> int) \<times> orl_pc list \<Rightarrow> int" where
  "orl_total c = orl_energy (fst (fst c)) (snd (fst c)) (sum_list (map orl_pending (snd c)))"

lemma orl_step_total:
  assumes "mt_step orl_exec (orl_start T m) c c'"
    and "orl_shared_ok T r m (fst c)" and "list_all (orl_local_ok T r m) (snd c)"
  shows "orl_total c' \<le> orl_total c"
  using assms(1)
proof cases
  case (call i pcs pc s)
  then have "orl_pending (pcs ! i) = 0" "orl_pending pc = 0"
    by (auto simp: orl_start_def elim: orl_over.elims split: orl_pc.splits)
  with call show ?thesis by (simp add: orl_total_def sum_list_update_int)
next
  case (move i pcs s s' pc)
  obtain rl g rl' g' where s: "s = (rl, g)" "s' = (rl', g')" by (cases s; cases s') auto
  have "orl_local_ok T r m (pcs ! i)" using assms(3) move by (simp add: list_all_length)
  with orl_exec_ok [of T r m rl g "pcs ! i" rl' g' pc] assms(2) move s
  have ok: "orl_energy rl' g' (orl_pending pc) \<le> orl_energy rl g (orl_pending (pcs ! i))"
    and r: "orl_refillRate rl' = orl_refillRate rl"
    by (auto simp: orl_shared_ok_def)
  let ?S = "sum_list (map orl_pending pcs)"
  have "orl_energy rl' g' (?S - orl_pending (pcs ! i) + orl_pending pc) =
      orl_energy rl' g' (orl_pending pc) + orl_refillRate rl * (?S - orl_pending (pcs ! i))"
    and "orl_energy rl g ?S = orl_energy rl g (orl_pending (pcs ! i)) + orl_refillRate rl * (?S - orl_pending (pcs ! i))"
    using r by (simp_all add: orl_energy_def algebra_simps)
  with ok show ?thesis using move s by (simp add: orl_total_def sum_list_update_int)
qed

lemma orl_reach_total:
  assumes "mt_reach orl_exec (orl_start T m) c0 c"
    and "orl_shared_ok T r m (fst c0)" and "list_all (orl_local_ok T r m) (snd c0)"
  shows "orl_total c \<le> orl_total c0"
  using assms
proof (induction rule: mt_reach.induct)
  case (step c c')
  with orlt.reach_ok [OF step.hyps(1)] have "orl_total c' \<le> orl_total c"
    by (intro orl_step_total [OF step.hyps(2)]) auto
  with step show ?case by simp
qed simp

text \<open>
  C22. The optimized bucket does not have that race: for every constructor argument, every
  number of goroutines and every interleaving of their \<open>Allow\<close>, \<open>AllowN\<close> and \<open>Reserve\<close> calls
  whose clock readings are at most \<open>T\<close>, the tokens handed out are at most the bucket size and one
  per token period since the limiter was made. The bucket stays between empty and full.
\<close>

theorem optimized_bucket_conserves_tokens:
  assumes "maxTokens < 2 ^ 62" and "in64 refillRate" and "time_ok start" and "start \<le> T" and "time_ok T"
  defines "rl0 \<equiv> NewOptimizedRateLimiter start maxTokens refillRate"
  assumes "mt_reach orl_exec (orl_start T (orl_maxTokens rl0)) ((rl0, 0), replicate n BIdle) ((rl, g), pcs)"
  shows "g \<le> orl_Burst rl0 + (T - start) div orl_refillRate rl0 \<and> 0 \<le> orl_tokens rl \<and> orl_tokens rl \<le> orl_Burst rl0"
proof -
  let ?r = "orl_refillRate rl0" and ?m = "orl_maxTokens rl0" and ?c0 = "((rl0, 0::int), replicate n BIdle)"
  have "orl_valid start rl0" unfolding rl0_def by (rule NewOptimizedRateLimiter_valid [OF assms(1-3)])
  then have v: "orl_valid T rl0" using assms(4,5) by (simp add: orl_valid_def)
  then have s: "orl_shared_ok T ?r ?m (fst ?c0)" by (simp add: orl_shared_ok_def)
  have l: "list_all (orl_local_ok T ?r ?m) (snd ?c0)" by (simp add: list_all_iff)
  note ok = orlt.reach_ok [OF assms(7) s l]
  have "orl_total ((rl, g), pcs) \<le> orl_total ?c0" by (rule orl_reach_total [OF assms(7) s l])
  moreover have "orl_total ?c0 = ?r * orl_Burst rl0 - start"
    by (simp add: orl_total_def orl_energy_def rl0_def NewOptimizedRateLimiter_def orl_Burst_def Let_def sum_list_replicate)
  moreover have "orl_lastRefill rl \<le> T" "0 \<le> orl_tokens rl" "orl_tokens rl \<le> ?m" "orl_refillRate rl = ?r"
    using ok by (auto simp: orl_shared_ok_def orl_valid_def)
  moreover have "0 \<le> orl_pending pc" if "pc \<in> set pcs" for pc
    using ok that by (cases pc) (auto simp: list_all_iff)
  then have "0 \<le> sum_list (map orl_pending pcs)" by (rule sum_list_map_nonneg)
  moreover have pos: "0 < ?r" using v by (simp add: orl_valid_def)
  ultimately have "0 \<le> ?r * (orl_tokens rl + sum_list (map orl_pending pcs))"
    and "?r * (orl_tokens rl + g + sum_list (map orl_pending pcs)) \<le> ?r * orl_Burst rl0 + T - start"
    by (auto simp: orl_total_def orl_energy_def)
  then have "(g - orl_Burst rl0) * ?r \<le> T - start" by (simp add: algebra_simps)
  then have "g - orl_Burst rl0 \<le> (T - start) div ?r"
    using pos zdiv_mono1 [of "(g - orl_Burst rl0) * ?r" "T - start" ?r] by simp
  then show ?thesis using \<open>0 \<le> orl_tokens rl\<close> \<open>orl_tokens rl \<le> ?m\<close> by (simp add: orl_Burst_def)
qed

lemma optimized_bucket_conserves_tokens_witness:
  "\<exists>rl pcs. orl_tokens rl = 1 \<and>
     mt_reach orl_exec (orl_start 5 2) ((NewOptimizedRateLimiter 0 2 20, 0), [BIdle]) ((rl, 1), pcs) \<and>
     (1::int) \<le> orl_Burst (NewOptimizedRateLimiter 0 2 20) + (5 - 0) div orl_refillRate (NewOptimizedRateLimiter 0 2 20)"
proof -
  let ?rl = "\<lparr>orl_maxTokens = 2, orl_refillRate = 10, orl_tokensPerFill = 1, orl_tokens = 1,
    orl_lastRefill = 0, orl_refillThreshold = 10, orl_batchSize = 1\<rparr>"
  have nano: "div64 20 2 = 10" by (simp add: div64_def signed_divide_int_def in64_def)
  have "mt_run orl_exec (orl_start 5 2) [(0, Some (BLast WantOne 5)), (0, None), (0, None), (0, None)]
      ((NewOptimizedRateLimiter 0 2 20, 0), [BIdle]) = Some ((?rl, 1), [BAnswer True])"
    by (simp add: NewOptimizedRateLimiter_def Second_def nano orl_start_def orl_tokensToAdd_def
        sub64_def i64_def Let_def)
  from mt_run_reach [OF this mt_reach.init]
  have r: "mt_reach orl_exec (orl_start 5 2) ((NewOptimizedRateLimiter 0 2 20, 0), [BIdle]) ((?rl, 1), [BAnswer True])" .
  have "orl_maxTokens (NewOptimizedRateLimiter 0 2 20) = 2"
    by (simp add: NewOptimizedRateLimiter_def Let_def)
  with r have "(1::int) \<le> orl_Burst (NewOptimizedRateLimiter 0 2 20) + (5 - 0) div orl_refillRate (NewOptimizedRateLimiter 0 2 20)"
    using optimized_bucket_conserves_tokens [of 2 20 0 5 1 ?rl 1 "[BAnswer True]"]
    by (simp add: time_ok_def in64_def)
  with r show ?thesis by (intro exI [of _ ?rl] exI [of _ "[BAnswer True]"] conjI) simp_all
qed

end
