(* ===== verification/GoStrings.thy ===== *)
theory GoStrings
  imports Prelude
begin

text \<open>
  The parts of Go's \<open>strings\<close>, \<open>strconv\<close> and \<open>fmt\<close> that the program uses. A Go string is a list
  of bytes, and so is \<open>string\<close> here; text beyond ASCII is its UTF-8 encoding.
\<close>

subsection \<open>strings\<close>

text \<open>\<open>strings.Split\<close> at a one-byte separator.\<close>

fun split_on :: "char \<Rightarrow> string \<Rightarrow> string list" where
  "split_on c [] = [[]]"
| "split_on c (x # xs) =
     (if x = c then [] # split_on c xs
      else (case split_on c xs of [] \<Rightarrow> [[x]] | p # ps \<Rightarrow> (x # p) # ps))"

text \<open>\<open>strings.SplitN(s, sep, 2)\<close> at a one-byte separator.\<close>

definition splitN2 :: "char \<Rightarrow> string \<Rightarrow> string list" where
  "splitN2 c s = (if c \<in> set s then [takeWhile (\<lambda>x. x \<noteq> c) s, tl (dropWhile (\<lambda>x. x \<noteq> c) s)] else [s])"

text \<open>\<open>strings.Index\<close> of a one-byte string, \<open>-1\<close> if there is none.\<close>

definition index_of :: "char \<Rightarrow> string \<Rightarrow> int" where
  "index_of c s = (if c \<in> set s then int (length (takeWhile (\<lambda>x. x \<noteq> c) s)) else - 1)"

text \<open>\<open>strings.Trim\<close> with a cutset of one byte.\<close>

definition trim_char :: "char \<Rightarrow> string \<Rightarrow> string" where
  "trim_char c s = rev (dropWhile (\<lambda>x. x = c) (rev (dropWhile (\<lambda>x. x = c) s)))"

text \<open>The UTF-8 encodings of the characters for which \<open>unicode.IsSpace\<close> holds.\<close>

definition space_codes :: "nat list list" where
  "space_codes =
     [[9], [10], [11], [12], [13], [32], [194, 133], [194, 160], [225, 154, 128],
      [226, 128, 128], [226, 128, 129], [226, 128, 130], [226, 128, 131], [226, 128, 132],
      [226, 128, 133], [226, 128, 134], [226, 128, 135], [226, 128, 136], [226, 128, 137],
      [226, 128, 138], [226, 128, 168], [226, 128, 169], [226, 128, 175], [226, 129, 159],
      [227, 128, 128]]"

function trim_left :: "string list \<Rightarrow> string \<Rightarrow> string" where
  "trim_left es s =
     (case find (\<lambda>e. e \<noteq> [] \<and> take (length e) s = e) es of
        None \<Rightarrow> s | Some e \<Rightarrow> trim_left es (drop (length e) s))"
  by pat_completeness auto
termination
proof (relation "measure (\<lambda>(es, s). length s)")
  fix es :: "string list" and s e
  assume "find (\<lambda>e. e \<noteq> [] \<and> take (length e) s = e) es = Some e"
  then have "e \<noteq> []" "take (length e) s = e" by (auto simp: find_Some_iff)
  then have "s \<noteq> []" "length e > 0" by auto
  then show "((es, drop (length e) s), es, s) \<in> measure (\<lambda>(es, s). length s)" by simp
qed simp

declare trim_left.simps [simp del]

definition trim_space :: "string \<Rightarrow> string" where
  "trim_space s =
     (let codes = map (map char_of) space_codes
      in rev (trim_left (map rev codes) (rev (trim_left codes s))))"

subsection \<open>strconv\<close>

definition digit_val :: "char \<Rightarrow> nat option" where
  "digit_val c = (let n = of_char c in if 48 \<le> n \<and> n \<le> 57 then Some (n - 48) else None)"

fun digits_val :: "nat \<Rightarrow> string \<Rightarrow> nat option" where
  "digits_val acc [] = Some acc"
| "digits_val acc (c # cs) =
     (case digit_val c of None \<Rightarrow> None | Some d \<Rightarrow> digits_val (10 * acc + d) cs)"

text \<open>\<open>strconv.Atoi\<close>: \<open>None\<close> for a syntax or a range error.\<close>

definition atoi :: "string \<Rightarrow> int option" where
  "atoi s =
     (let neg = (case s of c # _ \<Rightarrow> c = CHR ''-'' | [] \<Rightarrow> False);
          ds = (case s of c # r \<Rightarrow> if c = CHR ''-'' \<or> c = CHR ''+'' then r else s | [] \<Rightarrow> [])
      in if ds = [] then None
         else (case digits_val 0 ds of
                 None \<Rightarrow> None
               | Some v \<Rightarrow> (let n = (if neg then - int v else int v) in if in64 n then Some n else None)))"

text \<open>\<open>strconv.Itoa\<close> and the verb \<open>%d\<close> of \<open>fmt\<close>.\<close>

fun nat_text :: "nat \<Rightarrow> string" where
  "nat_text n = (if n < 10 then [char_of (48 + n)] else nat_text (n div 10) @ [char_of (48 + n mod 10)])"

declare nat_text.simps [simp del]

definition itoa :: "int \<Rightarrow> string" where
  "itoa n = (if n < 0 then CHR ''-'' # nat_text (nat (- n)) else nat_text (nat n))"

subsection \<open>Facts\<close>

lemma split_on_nonempty [simp]: "split_on c s \<noteq> []"
  by (cases s) (auto split: list.splits)

lemma split_on_none: "c \<notin> set s \<Longrightarrow> split_on c s = [s]"
  by (induction s) auto

lemma split_on_append: "c \<notin> set s \<Longrightarrow> split_on c (s @ c # t) = s # split_on c t"
  by (induction s) auto

lemma digit_val_digit [simp]: "d < 10 \<Longrightarrow> digit_val (char_of (48 + d)) = Some d"
  by (simp add: digit_val_def Let_def)

lemma digit_val_not_sign: "digit_val c = Some d \<Longrightarrow> c \<noteq> CHR ''-'' \<and> c \<noteq> CHR ''+''"
  by (auto simp: digit_val_def)

lemma digits_val_append: "digits_val a (s @ t) =
    (case digits_val a s of None \<Rightarrow> None | Some b \<Rightarrow> digits_val b t)"
  by (induction a s rule: digits_val.induct) (auto split: option.splits)

lemma nat_text_val: "digits_val a (nat_text n) = Some (a * 10 ^ length (nat_text n) + n)"
proof (induction n arbitrary: a rule: nat_text.induct)
  case (1 n)
  show ?case
  proof (cases "n < 10")
    case True
    then show ?thesis by (simp add: nat_text.simps [of n])
  next
    case False
    with 1 [of a] show ?thesis
      by (simp add: nat_text.simps [of n] digits_val_append algebra_simps)
  qed
qed

lemma nat_text_digits: "c \<in> set (nat_text n) \<Longrightarrow> \<exists>d<10::nat. c = char_of (48 + d)"
proof (induction n rule: nat_text.induct)
  case (1 n)
  show ?case
  proof (cases "n < 10")
    case True
    with 1(2) show ?thesis by (auto simp: nat_text.simps [of n])
  next
    case False
    with 1(2) have "c \<in> set (nat_text (n div 10)) \<or> c = char_of (48 + n mod 10)"
      by (auto simp: nat_text.simps [of n])
    then show ?thesis
    proof
      assume "c = char_of (48 + n mod 10)"
      then show ?thesis by (intro exI [of _ "n mod 10"]) simp
    next
      assume "c \<in> set (nat_text (n div 10))"
      with 1(1) False show ?thesis by simp
    qed
  qed
qed

lemma nat_text_nonempty [simp]: "nat_text n \<noteq> []"
  by (subst nat_text.simps) simp

lemma nat_text_no_sign: "CHR ''-'' \<notin> set (nat_text n)" "CHR ''+'' \<notin> set (nat_text n)"
  by (metis nat_text_digits digit_val_digit digit_val_not_sign)+

text \<open>Printing and parsing an integer are inverse to each other.\<close>

lemma atoi_itoa: "in64 n \<Longrightarrow> atoi (itoa n) = Some n"
proof (cases "n < 0")
  case True
  assume "in64 n"
  with True show ?thesis
    using nat_text_val [of 0 "nat (- n)"] by (simp add: itoa_def atoi_def Let_def)
next
  case False
  assume n: "in64 n"
  obtain c cs where c: "nat_text (nat n) = c # cs" by (cases "nat_text (nat n)") auto
  then have "c \<noteq> CHR ''-''" "c \<noteq> CHR ''+''" using nat_text_no_sign [of "nat n"] by auto
  with False n c show ?thesis
    using nat_text_val [of 0 "nat n"] by (simp add: itoa_def atoi_def Let_def)
qed

lemma atoi_in64: "atoi s = Some n \<Longrightarrow> in64 n"
  by (auto simp: atoi_def Let_def split: if_splits option.splits)

text \<open>A number has no space around it to trim.\<close>

lemma trim_left_id: "(\<And>e. e \<in> set es \<Longrightarrow> e = [] \<or> hd e \<noteq> hd s) \<Longrightarrow> trim_left es s = s"
proof -
  assume *: "\<And>e. e \<in> set es \<Longrightarrow> e = [] \<or> hd e \<noteq> hd s"
  have "hd e = hd s" if "e \<noteq> []" "take (length e) s = e" for e
    using that by (metis hd_take length_greater_0_conv)
  with * have "find (\<lambda>e. e \<noteq> [] \<and> take (length e) s = e) es = None"
    by (auto simp: find_None_iff)
  then show ?thesis by (simp add: trim_left.simps)
qed

lemma space_not_digit:
  "list_all (\<lambda>e. digit_val (hd e) = None \<and> digit_val (hd (rev e)) = None) (map (map char_of) space_codes)"
  by (simp add: space_codes_def digit_val_def Let_def)

lemma trim_space_nat_text: "trim_space (nat_text n) = nat_text n"
proof -
  let ?es = "map (map char_of) space_codes"
  have digit: "digit_val c \<noteq> None" if "c \<in> set (nat_text n)" for c
    using nat_text_digits [OF that] by auto
  have none: "digit_val (hd e) = None" "digit_val (hd (rev e)) = None" if "e \<in> set ?es" for e
    using space_not_digit that unfolding list_all_iff by blast+
  have "trim_left ?es (nat_text n) = nat_text n"
    using digit [OF hd_in_set [OF nat_text_nonempty]] none(1) by (intro trim_left_id) metis
  moreover have "hd (rev (nat_text n)) \<in> set (nat_text n)"
    using hd_in_set [of "rev (nat_text n)"] by simp
  then have "trim_left (map rev ?es) (rev (nat_text n)) = rev (nat_text n)"
    using digit none(2) by (intro trim_left_id) fastforce
  ultimately show ?thesis by (simp add: trim_space_def Let_def)
qed

lemma trim_space_itoa: "0 \<le> n \<Longrightarrow> trim_space (itoa n) = itoa n"
  by (simp add: itoa_def trim_space_nat_text)

lemma itoa_nonempty [simp]: "itoa n \<noteq> []"
  by (simp add: itoa_def)

text \<open>Nor has a text that begins and ends in a visible ASCII character; one space before it goes.\<close>

definition visible :: "char \<Rightarrow> bool" where
  "visible c \<longleftrightarrow> 33 \<le> (of_char c :: nat) \<and> (of_char c :: nat) < 127"

lemma space_not_visible:
  "list_all (\<lambda>e. \<not> visible (hd e) \<and> \<not> visible (hd (rev e))) (map (map char_of) space_codes)"
  by (simp add: space_codes_def visible_def)

lemma trim_space_visible:
  assumes "s \<noteq> []" and "visible (hd s)" and "visible (last s)"
  shows "trim_space s = s"
proof -
  let ?es = "map (map char_of) space_codes"
  have none: "\<not> visible (hd e)" "\<not> visible (hd (rev e))" if "e \<in> set ?es" for e
    using space_not_visible that unfolding list_all_iff by blast+
  have "trim_left ?es s = s"
    using assms(2) none(1) by (intro trim_left_id) metis
  moreover have "visible (hd (rev s))" using assms by (simp add: hd_rev)
  then have "trim_left (map rev ?es) (rev s) = rev s"
    using none(2) by (intro trim_left_id) fastforce
  ultimately show ?thesis by (simp add: trim_space_def Let_def)
qed

lemma eq_char_of: "c = char_of (n::nat) \<longleftrightarrow> n mod 256 = of_char c"
  using char_of_eq_iff [of n c] by (auto simp: take_bit_eq_mod)

lemma trim_space_space: "trim_space (CHR '' '' # s) = trim_space s"
proof -
  let ?es = "map (map char_of) space_codes"
  have sp: "CHR '' '' = char_of (32::nat)" by (simp add: eq_char_of)
  have "find (\<lambda>e. e \<noteq> [] \<and> take (length e) (CHR '' '' # s) = e) ?es = Some [CHR '' '']"
    by (simp add: space_codes_def eq_char_of) (simp add: sp)
  then have "trim_left ?es (CHR '' '' # s) = trim_left ?es s"
    by (simp add: trim_left.simps [of ?es "CHR '' '' # s"])
  then show ?thesis by (simp add: trim_space_def Let_def)
qed

lemma visible_digit: "d < 10 \<Longrightarrow> visible (char_of (48 + d :: nat))"
  by (simp add: visible_def)

lemma itoa_chars: "c \<in> set (itoa n) \<Longrightarrow> c = CHR ''-'' \<or> (\<exists>d<10::nat. c = char_of (48 + d))"
  by (auto simp: itoa_def dest: nat_text_digits split: if_splits)

lemma itoa_visible: "c \<in> set (itoa n) \<Longrightarrow> visible c"
  using itoa_chars [of c n] visible_digit by (auto simp: visible_def)

lemma itoa_free_of: "digit_val c = None \<Longrightarrow> c \<noteq> CHR ''-'' \<Longrightarrow> c \<notin> set (itoa n)"
  using itoa_chars [of c n] by auto

lemma trim_char_id: "c \<notin> set s \<Longrightarrow> trim_char c s = s"
proof -
  have "dropWhile (\<lambda>x. x = c) t = t" if "c \<notin> set t" for t
    using that by (cases t) auto
  then show "c \<notin> set s \<Longrightarrow> trim_char c s = s" by (simp add: trim_char_def)
qed

lemma trim_space_itoa_any: "trim_space (itoa n) = itoa n"
  by (rule trim_space_visible) (simp_all add: itoa_visible [OF hd_in_set] itoa_visible [OF last_in_set])

end
