(* ===== verification/GoHttp.thy ===== *)
theory GoHttp
  imports GoStrings
begin

text \<open>
  What the program uses of \<open>net/http\<close>: headers, requests and responses, and the errors of the
  language with their wrapping. A body is the text still to be read and whether reading it
  succeeds; reading consumes it.
\<close>

subsection \<open>Headers\<close>

definition upper_char :: "char \<Rightarrow> char" where
  "upper_char c = (let n = of_char c in if 97 \<le> n \<and> n \<le> 122 then char_of (n - 32 :: nat) else c)"

definition lower_char :: "char \<Rightarrow> char" where
  "lower_char c = (let n = of_char c in if 65 \<le> n \<and> n \<le> 90 then char_of (n + 32 :: nat) else c)"

text \<open>
  \<open>CanonicalHeaderKey\<close> for keys that are made of letters, digits and hyphens, as all those of the
  program: the first letter and each letter after a hyphen in upper case, the others in lower.
\<close>

fun canonical_from :: "bool \<Rightarrow> string \<Rightarrow> string" where
  "canonical_from upper [] = []"
| "canonical_from upper (c # cs) =
     (if upper then upper_char c else lower_char c) # canonical_from (c = CHR ''-'') cs"

definition canonical_key :: "string \<Rightarrow> string" where
  "canonical_key = canonical_from True"

type_synonym header = "string \<rightharpoonup> string list"

definition header_get :: "header \<Rightarrow> string \<Rightarrow> string" where
  "header_get h key = (case h (canonical_key key) of Some (v # _) \<Rightarrow> v | _ \<Rightarrow> [])"

definition header_set :: "string \<Rightarrow> string \<Rightarrow> header \<Rightarrow> header" where
  "header_set key v h = h(canonical_key key \<mapsto> [v])"

lemma header_get_set [simp]:
  "header_get (header_set k v h) k' = (if canonical_key k = canonical_key k' then v else header_get h k')"
  by (simp add: header_get_def header_set_def)

subsection \<open>Requests and responses\<close>

text \<open>\<open>url_text\<close> is what \<open>URL.String()\<close> gives.\<close>

record URL =
  url_text :: string
  url_Host :: string
  url_Path :: string

text \<open>The value a request's context may hold for the cache: \<open>CacheControl\<close> of \<open>types.go\<close>.\<close>

record CacheControl =
  cc_Enabled :: bool
  cc_TTL :: int

datatype body = NilBody | Reader string bool

text \<open>\<open>rq_GetBody\<close>: \<open>None\<close> for a nil \<open>GetBody\<close>, else what calling it and reading the result gives.\<close>

record request =
  rq_Method :: string
  rq_URL :: "URL option"
  rq_Host :: string
  rq_Header :: header
  rq_Body :: body
  rq_GetBody :: "body option"
  rq_Context :: "CacheControl option"

record response =
  rs_StatusCode :: int
  rs_Header :: header
  rs_Body :: body
  rs_Request :: "request option"

text \<open>\<open>io.ReadAll\<close>: the text, or \<open>None\<close> on a read error, and the body afterwards.\<close>

fun read_all :: "body \<Rightarrow> string option \<times> body" where
  "read_all NilBody = (Some [], NilBody)"
| "read_all (Reader s ok) = ((if ok then Some s else None), Reader [] ok)"

subsection \<open>Time\<close>

text \<open>
  A \<open>time.Time\<close> is the exact number of nanoseconds since the Unix epoch; its zero value is the
  first moment of year 1. \<open>Sub\<close> saturates where the difference is no \<open>Duration\<close>.
\<close>

definition zero_time :: int where
  "zero_time = - 62135596800 * Second"

definition time_sub :: "int \<Rightarrow> int \<Rightarrow> int" where
  "time_sub t u = max (- (2 ^ 63)) (min (2 ^ 63 - 1) (t - u))"

subsection \<open>Errors\<close>

text \<open>
  \<open>ErrorString i t\<close> is the value of one \<open>errors.New\<close> (each call makes a value of its own, told
  apart by \<open>i\<close>), \<open>WrapError\<close> the value of \<open>fmt.Errorf\<close> with \<open>%w\<close>, \<open>ClientError\<close> a pointer to the
  program's own error with the fields of \<open>types.go\<close>, and \<open>NilClientError\<close> a nil pointer of that
  type. The absent error \<open>nil\<close> is \<open>None\<close>.
\<close>

datatype go_error =
  ErrorString nat string
| WrapError string go_error
| NilClientError
| ClientError
    (ce_Type: string) (ce_Message: string) (ce_Cause: "go_error option") (ce_RequestID: string)
    (ce_Method: string) (ce_URL: string) (ce_Attempt: int) (ce_MaxRetries: int)
    (ce_Timestamp: int) (ce_Duration: int) (ce_StatusCode: int) (ce_Endpoint: string)

end
