(* ===== verification/ClientErrors.thy ===== *)
theory ClientErrors
  imports GoHttp
begin

text \<open>
  The errors of the client (\<open>errors.go\<close> and the error type of \<open>types.go\<close>): the sentinels, the
  methods of \<open>ClientError\<close>, the walk that \<open>errors.Is\<close> and \<open>errors.As\<close> make along the chain of
  wrapped errors, \<open>IsTransient\<close>, and how \<open>client.go\<close> builds a \<open>ClientError\<close>. A result \<open>None\<close> of
  type \<open>option\<close> is a panic (a nil pointer is dereferenced).
\<close>

subsection \<open>Sentinels and error types\<close>

definition ErrCircuitOpen :: go_error where
  "ErrCircuitOpen = ErrorString 0 ''klayengo: circuit open''"

definition ErrRateLimited :: go_error where
  "ErrRateLimited = ErrorString 1 ''klayengo: rate limited''"

definition ErrCacheMiss :: go_error where
  "ErrCacheMiss = ErrorString 2 ''klayengo: cache miss''"

definition ErrRetryBudgetExceeded :: go_error where
  "ErrRetryBudgetExceeded = ErrorString 3 ''klayengo: retry budget exceeded''"

lemmas sentinel_defs =
  ErrCircuitOpen_def ErrRateLimited_def ErrCacheMiss_def ErrRetryBudgetExceeded_def

definition ErrorTypeNetwork :: string where "ErrorTypeNetwork = ''NetworkError''"
definition ErrorTypeTimeout :: string where "ErrorTypeTimeout = ''TimeoutError''"
definition ErrorTypeRateLimit :: string where "ErrorTypeRateLimit = ''RateLimitError''"
definition ErrorTypeCircuitOpen :: string where "ErrorTypeCircuitOpen = ''CircuitBreakerError''"
definition ErrorTypeServer :: string where "ErrorTypeServer = ''ServerError''"
definition ErrorTypeClient :: string where "ErrorTypeClient = ''ClientError''"
definition ErrorTypeCache :: string where "ErrorTypeCache = ''CacheError''"
definition ErrorTypeConfig :: string where "ErrorTypeConfig = ''ConfigurationError''"
definition ErrorTypeValidation :: string where "ErrorTypeValidation = ''ValidationError''"
definition ErrorTypeRetryBudgetExceeded :: string where "ErrorTypeRetryBudgetExceeded = ''RetryBudgetExceededError''"

lemmas error_type_defs =
  ErrorTypeNetwork_def ErrorTypeTimeout_def ErrorTypeRateLimit_def ErrorTypeCircuitOpen_def
  ErrorTypeServer_def ErrorTypeClient_def ErrorTypeCache_def ErrorTypeConfig_def
  ErrorTypeValidation_def ErrorTypeRetryBudgetExceeded_def

subsection \<open>The methods of an error\<close>

text \<open>\<open>Error()\<close>, with the prefix of the request and the suffix of the attempt.\<close>

definition decorate :: "string \<Rightarrow> int \<Rightarrow> int \<Rightarrow> string \<Rightarrow> string" where
  "decorate requestID attempt maxRetries msg =
     (let msg = (if requestID \<noteq> [] then ''['' @ requestID @ ''] '' @ msg else msg)
      in if attempt > 0
         then msg @ '' (attempt '' @ itoa attempt @ ''/'' @ itoa maxRetries @ '')''
         else msg)"

fun Error :: "go_error \<Rightarrow> string" where
  "Error (ErrorString _ t) = t"
| "Error (WrapError t _) = t"
| "Error NilClientError = ''<nil>''"
| "Error (ClientError typ msg cause rid _ _ attempt maxr _ _ _ _) =
     (case cause of
        Some e \<Rightarrow> decorate rid attempt maxr (typ @ '': '' @ msg @ '' ('' @ Error e @ '')'')
      | None \<Rightarrow> decorate rid attempt maxr (typ @ '': '' @ msg))"

text \<open>\<open>errors.Unwrap\<close>, which calls the method where there is one.\<close>

fun Unwrap :: "go_error \<Rightarrow> go_error option" where
  "Unwrap (ErrorString _ _) = None"
| "Unwrap (WrapError _ e) = Some e"
| "Unwrap NilClientError = None"
| "Unwrap (ClientError _ _ cause _ _ _ _ _ _ _ _ _) = cause"

text \<open>
  The method \<open>Is\<close> of a \<open>ClientError\<close>: a nil target pointer is dereferenced. Other errors have no
  such method.
\<close>

fun ClientError_Is :: "go_error \<Rightarrow> go_error \<Rightarrow> bool option" where
  "ClientError_Is NilClientError target = Some False"
| "ClientError_Is (ClientError typ _ _ _ _ _ _ _ _ _ _ _) target =
     (case target of
        ClientError typ' _ _ _ _ _ _ _ _ _ _ _ \<Rightarrow> Some (typ = typ')
      | NilClientError \<Rightarrow> None
      | _ \<Rightarrow> Some False)"
| "ClientError_Is _ target = Some False"

text \<open>
  \<open>errors.Is\<close>: an error equal to the target, or one whose own \<open>Is\<close> accepts it, along the chain.
  Two pointers to client errors are equal only if they are the same, which \<open>Is\<close> accepts as well,
  so the comparison is written out for the other errors only.
\<close>

fun same_error :: "go_error \<Rightarrow> go_error \<Rightarrow> bool" where
  "same_error (ErrorString i _) (ErrorString j _) = (i = j)"
| "same_error NilClientError NilClientError = True"
| "same_error _ _ = False"

fun errors_Is :: "go_error \<Rightarrow> go_error \<Rightarrow> bool option" where
  "errors_Is (ErrorString i t) target = Some (same_error (ErrorString i t) target)"
| "errors_Is (WrapError t e) target = errors_Is e target"
| "errors_Is NilClientError target = Some (same_error NilClientError target)"
| "errors_Is (ClientError typ msg cause rid meth url att maxr ts dur sc ep) target =
     (case ClientError_Is (ClientError typ msg cause rid meth url att maxr ts dur sc ep) target of
        None \<Rightarrow> None
      | Some True \<Rightarrow> Some True
      | Some False \<Rightarrow> (case cause of None \<Rightarrow> Some False | Some e \<Rightarrow> errors_Is e target))"

text \<open>\<open>errors.As\<close> with a target of type \<open>*ClientError\<close>: the first such pointer of the chain.\<close>

fun errors_As :: "go_error \<Rightarrow> go_error option" where
  "errors_As (ErrorString _ _) = None"
| "errors_As (WrapError _ e) = errors_As e"
| "errors_As NilClientError = Some NilClientError"
| "errors_As (ClientError typ msg cause rid meth url att maxr ts dur sc ep) =
     Some (ClientError typ msg cause rid meth url att maxr ts dur sc ep)"

definition IsTransient :: "go_error option \<Rightarrow> bool option" where
  "IsTransient err =
     (case err of
        None \<Rightarrow> Some False
      | Some err \<Rightarrow>
          if errors_Is err ErrCircuitOpen = Some True \<or> errors_Is err ErrRateLimited = Some True \<or>
             errors_Is err ErrRetryBudgetExceeded = Some True
          then Some True
          else (case errors_As err of
                  Some (ClientError typ _ _ _ _ _ _ _ _ _ sc _) \<Rightarrow>
                    if typ \<in> {ErrorTypeNetwork, ErrorTypeTimeout, ErrorTypeServer, ErrorTypeRateLimit,
                              ErrorTypeCircuitOpen}
                    then Some True
                    else if typ = ErrorTypeClient then Some (sc = 429)
                    else Some False
                | Some _ \<Rightarrow> None
                | None \<Rightarrow> Some False))"

text \<open>
  \<open>DebugInfo\<close>: \<open>format_time\<close> is \<open>Time.Format\<close> with RFC 3339, \<open>format_duration\<close> the \<open>%v\<close> of a
  duration. \<open>None\<close> is a receiver that is no client error.
\<close>

definition info_line :: "bool \<Rightarrow> string \<Rightarrow> string \<Rightarrow> string" where
  "info_line present label value = (if present then label @ value @ [char_of (10::nat)] else [])"

fun DebugInfo :: "(int \<Rightarrow> string) \<Rightarrow> (int \<Rightarrow> string) \<Rightarrow> go_error \<Rightarrow> string option" where
  "DebugInfo format_time format_duration NilClientError = Some ''Error: <nil>''"
| "DebugInfo format_time format_duration
     (ClientError typ msg cause rid meth url att maxr ts dur sc ep) =
     Some (info_line True ''Error Type: '' typ @
           info_line True ''Message: '' msg @
           info_line (rid \<noteq> []) ''Request ID: '' rid @
           info_line (meth \<noteq> []) ''Method: '' meth @
           info_line (url \<noteq> []) ''URL: '' url @
           info_line (ep \<noteq> []) ''Endpoint: '' ep @
           info_line (sc > 0) ''Status Code: '' (itoa sc) @
           info_line (att > 0) ''Attempt: '' (itoa att @ ''/'' @ itoa maxr) @
           info_line (ts \<noteq> zero_time) ''Timestamp: '' (format_time ts) @
           info_line (dur > 0) ''Duration: '' (format_duration dur) @
           info_line (cause \<noteq> None) ''Cause: '' (case cause of None \<Rightarrow> [] | Some e \<Rightarrow> Error e))"
| "DebugInfo format_time format_duration _ = None"

subsection \<open>How the client builds its errors\<close>

definition getEndpointFromRequest :: "request \<Rightarrow> string" where
  "getEndpointFromRequest req =
     (case rq_URL req of
        None \<Rightarrow> ''unknown''
      | Some u \<Rightarrow> url_Host u @ (if url_Path u \<noteq> [] \<and> url_Path u \<noteq> ''/'' then url_Path u else ''/''))"

text \<open>
  \<open>createClientError\<close>: \<open>maxRetries\<close> is the client's field and \<open>now\<close> the clock. It panics on a
  request without a URL.
\<close>

definition createClientError ::
  "int \<Rightarrow> int \<Rightarrow> string \<Rightarrow> string \<Rightarrow> go_error option \<Rightarrow> string \<Rightarrow> request \<Rightarrow> int \<Rightarrow> int \<Rightarrow> go_error option" where
  "createClientError maxRetries now errorType message cause requestID req attempt duration =
     (case rq_URL req of
        None \<Rightarrow> None
      | Some u \<Rightarrow>
          Some (ClientError errorType message
            (case cause of None \<Rightarrow> None | Some e \<Rightarrow> Some (WrapError (message @ '': '' @ Error e) e))
            requestID (rq_Method req) (url_text u) attempt maxRetries now duration 0
            (getEndpointFromRequest req)))"

subsection \<open>Lemmas\<close>

fun chain :: "go_error \<Rightarrow> go_error list" where
  "chain (ErrorString i t) = [ErrorString i t]"
| "chain (WrapError t e) = WrapError t e # chain e"
| "chain NilClientError = [NilClientError]"
| "chain (ClientError typ msg cause rid meth url att maxr ts dur sc ep) =
     ClientError typ msg cause rid meth url att maxr ts dur sc ep #
       (case cause of None \<Rightarrow> [] | Some e \<Rightarrow> chain e)"

text \<open>A sentinel is found exactly where the chain holds it.\<close>

lemma errors_Is_sentinel:
  "errors_Is e (ErrorString i t) = Some (\<exists>x \<in> set (chain e). same_error x (ErrorString i t))"
  by (induction e) (auto split: option.splits)

lemma errors_Is_client_error:
  assumes "target = ClientError typ msg cause rid meth url att maxr ts dur sc ep"
  shows "errors_Is e target = Some (\<exists>x \<in> set (chain e). ClientError_Is x target = Some True)"
  unfolding assms
  by (induction e) (auto split: option.splits bool.splits)

lemma errors_As_chain:
  "errors_As e = find (\<lambda>x. case x of ClientError _ _ _ _ _ _ _ _ _ _ _ _ \<Rightarrow> True
                               | NilClientError \<Rightarrow> True | _ \<Rightarrow> False) (chain e)"
  by (induction e rule: errors_As.induct) auto

lemma Unwrap_size: "Unwrap e = Some e' \<Longrightarrow> size e' < size e"
  by (cases e) auto

lemma createClientError_fields:
  assumes "createClientError maxr now typ msg cause rid req att dur = Some e"
  shows "rq_URL req \<noteq> None"
    and "e = ClientError typ msg (map_option (\<lambda>c. WrapError (msg @ '': '' @ Error c) c) cause) rid
           (rq_Method req) (url_text (the (rq_URL req))) att maxr now dur 0 (getEndpointFromRequest req)"
  using assms by (auto simp: createClientError_def split: option.splits)


definition example_request :: request where
  "example_request = \<lparr>rq_Method = ''POST'',
     rq_URL = Some \<lparr>url_text = ''http://a/b'', url_Host = ''a'', url_Path = ''/b''\<rparr>,
     rq_Host = [], rq_Header = Map.empty, rq_Body = NilBody, rq_GetBody = None, rq_Context = None\<rparr>"


text \<open>
  Every failure that the client reports itself is classified as transient: the errors built
  for a denied rate limit, an open circuit, an exhausted retry budget (whose type is not among
  the transient ones: its sentinel decides) and a failed transport. The same transport error is
  not transient before it is wrapped.
\<close>

lemma client_failures_transient:
  assumes "createClientError maxr now typ msg (Some c) rid req att dur = Some e"
    and "(typ, c) \<in> {(ErrorTypeRateLimit, ErrRateLimited), (ErrorTypeCircuitOpen, ErrCircuitOpen),
           (ErrorTypeRetryBudgetExceeded, ErrRetryBudgetExceeded)}
         \<or> typ = ErrorTypeNetwork"
  shows "IsTransient (Some e) = Some True \<and> (i > 3 \<longrightarrow> IsTransient (Some (ErrorString i t)) = Some False)"
proof
  note e = createClientError_fields(2) [OF assms(1)]
  show "IsTransient (Some e) = Some True"
    using assms(2)
  proof
    assume "typ = ErrorTypeNetwork"
    then show ?thesis unfolding e by (simp add: IsTransient_def)
  next
    assume "(typ, c) \<in> {(ErrorTypeRateLimit, ErrRateLimited), (ErrorTypeCircuitOpen, ErrCircuitOpen),
           (ErrorTypeRetryBudgetExceeded, ErrRetryBudgetExceeded)}"
    then consider "c = ErrRateLimited" | "c = ErrCircuitOpen" | "c = ErrRetryBudgetExceeded" by blast
    then show ?thesis unfolding e by cases (simp_all add: IsTransient_def sentinel_defs)
  qed
  show "i > 3 \<longrightarrow> IsTransient (Some (ErrorString i t)) = Some False"
    by (auto simp: IsTransient_def sentinel_defs)
qed

lemma client_failures_transient_witness:
  "\<exists>e. createClientError 3 0 ErrorTypeRetryBudgetExceeded ''retry budget exceeded''
         (Some ErrRetryBudgetExceeded) [] example_request 1 0 = Some e \<and> IsTransient (Some e) = Some True"
proof -
  obtain e where e: "createClientError 3 0 ErrorTypeRetryBudgetExceeded ''retry budget exceeded''
      (Some ErrRetryBudgetExceeded) [] example_request 1 0 = Some e"
    by (simp add: createClientError_def example_request_def)
  show ?thesis using client_failures_transient [OF e] e by simp
qed

end
