(* ===== verification/Cache.thy ===== *)
theory Cache
  imports ClientErrors "HOL-Library.Word"
begin

unbundle bit_operations_syntax

text \<open>
  The in-memory cache of \<open>cache.go\<close>: entries with an expiry in 16 shards chosen by a hash of the
  key, and what the client makes of entries, keys and per-request overrides. The locale
  \<open>cache\<close> is the contract of the \<open>Cache\<close> interface of \<open>types.go\<close> that every implementation meets,
  \<open>exact_cache\<close> that of one that forgets nothing before its time. Readings of the clock are the
  argument \<open>now\<close>.
\<close>

subsection \<open>Entries\<close>

record CacheEntry =
  ent_Response :: "response option"
  ent_Body :: string
  ent_StatusCode :: int
  ent_Header :: header
  ent_ExpiresAt :: int
  ent_ETag :: string
  ent_LastModified :: "int option"
  ent_MaxAge :: "int option"
  ent_StaleAt :: "int option"
  ent_IsStale :: bool

definition createResponseFromCache :: "CacheEntry \<Rightarrow> response" where
  "createResponseFromCache entry =
     \<lparr>rs_StatusCode = ent_StatusCode entry, rs_Header = ent_Header entry,
      rs_Body = Reader (ent_Body entry) True, rs_Request = None\<rparr>"

text \<open>
  \<open>createCacheEntry\<close> reads at most \<open>maxCacheSize\<close> bytes and replaces the body of the response by
  them. The results are the entry (\<open>None\<close> is the nil it returns on a read error) and the response
  as the caller finds it afterwards; a nil body is read, which panics (the outer \<open>None\<close>).
\<close>

definition maxCacheSize :: nat where
  "maxCacheSize = 10 * 1024 * 1024"

fun read_limited :: "nat \<Rightarrow> body \<Rightarrow> (string option \<times> body) option" where
  "read_limited n NilBody = None"
| "read_limited n (Reader s ok) =
     (if length s \<ge> n \<or> ok then Some (Some (take n s), Reader (drop n s) ok)
      else Some (None, Reader [] ok))"

definition createCacheEntry :: "response \<Rightarrow> (CacheEntry option \<times> response) option" where
  "createCacheEntry resp =
     (case read_limited maxCacheSize (rs_Body resp) of
        None \<Rightarrow> None
      | Some (None, rest) \<Rightarrow> Some (None, resp\<lparr>rs_Body := rest\<rparr>)
      | Some (Some body, _) \<Rightarrow>
          (let resp = resp\<lparr>rs_Body := Reader body True\<rparr>
           in Some (Some \<lparr>ent_Response = Some resp, ent_Body = body, ent_StatusCode = rs_StatusCode resp,
                     ent_Header = rs_Header resp, ent_ExpiresAt = zero_time, ent_ETag = [],
                     ent_LastModified = None, ent_MaxAge = None, ent_StaleAt = None, ent_IsStale = False\<rparr>,
                    resp)))"

subsection \<open>The sharded cache\<close>

text \<open>\<open>fnv.New32a\<close> over the bytes of the key.\<close>

definition fnv32a :: "string \<Rightarrow> 32 word" where
  "fnv32a s = fold (\<lambda>c h. (h XOR word_of_nat (of_char c)) * 16777619) s 2166136261"

record InMemoryCache =
  imc_shards :: "(string \<rightharpoonup> CacheEntry) list"
  imc_numShards :: int

definition NewInMemoryCache :: InMemoryCache where
  "NewInMemoryCache = \<lparr>imc_shards = replicate 16 Map.empty, imc_numShards = 16\<rparr>"

definition imc_getShard :: "InMemoryCache \<Rightarrow> string \<Rightarrow> nat" where
  "imc_getShard c key = unat (fnv32a key mod word_of_int (imc_numShards c))"

definition imc_Get :: "int \<Rightarrow> string \<Rightarrow> InMemoryCache \<Rightarrow> CacheEntry option \<times> InMemoryCache" where
  "imc_Get now key c =
     (let i = imc_getShard c key; store = imc_shards c ! i
      in case store key of
           None \<Rightarrow> (None, c)
         | Some entry \<Rightarrow>
             if now > ent_ExpiresAt entry
             then (None, c\<lparr>imc_shards := (imc_shards c)[i := store(key := None)]\<rparr>)
             else (Some entry, c))"

definition imc_Set :: "int \<Rightarrow> string \<Rightarrow> CacheEntry \<Rightarrow> int \<Rightarrow> InMemoryCache \<Rightarrow> InMemoryCache" where
  "imc_Set now key entry ttl c =
     (let i = imc_getShard c key; store = imc_shards c ! i; entry = entry\<lparr>ent_ExpiresAt := now + ttl\<rparr>
      in c\<lparr>imc_shards := (imc_shards c)[i := store(key \<mapsto> entry)]\<rparr>)"

definition imc_Delete :: "string \<Rightarrow> InMemoryCache \<Rightarrow> InMemoryCache" where
  "imc_Delete key c =
     (let i = imc_getShard c key; store = imc_shards c ! i
      in c\<lparr>imc_shards := (imc_shards c)[i := store(key := None)]\<rparr>)"

definition imc_Clear :: "InMemoryCache \<Rightarrow> InMemoryCache" where
  "imc_Clear c = c\<lparr>imc_shards := map (\<lambda>_. Map.empty) (imc_shards c)\<rparr>"

text \<open>What the client adds up for its size gauge.\<close>

definition imc_totalSize :: "InMemoryCache \<Rightarrow> nat" where
  "imc_totalSize c = sum_list (map (\<lambda>store. card (dom store)) (imc_shards c))"

subsection \<open>What the client asks of a request\<close>

definition DefaultCacheKeyFunc :: "request \<Rightarrow> string" where
  "DefaultCacheKeyFunc req =
     (case rq_URL req of
        None \<Rightarrow> rq_Method req @ '':''
      | Some u \<Rightarrow> rq_Method req @ '':'' @ url_text u)"

definition DefaultCacheCondition :: "request \<Rightarrow> bool" where
  "DefaultCacheCondition req \<longleftrightarrow> rq_Method req = ''GET''"

text \<open>\<open>hasCache\<close>: the client has a cache; \<open>condition\<close> and \<open>cacheTTL\<close> are its fields.\<close>

definition shouldCacheRequest :: "bool \<Rightarrow> (request \<Rightarrow> bool) \<Rightarrow> request \<Rightarrow> bool" where
  "shouldCacheRequest hasCache condition req =
     (if \<not> hasCache then False
      else (case rq_Context req of
              Some cacheControl \<Rightarrow> cc_Enabled cacheControl
            | None \<Rightarrow> condition req))"

definition getCacheTTLForRequest :: "int \<Rightarrow> request \<Rightarrow> int" where
  "getCacheTTLForRequest cacheTTL req =
     (case rq_Context req of
        Some cacheControl \<Rightarrow> if cc_TTL cacheControl > 0 then cc_TTL cacheControl else cacheTTL
      | None \<Rightarrow> cacheTTL)"

definition WithContextCacheEnabled :: "CacheControl option \<Rightarrow> CacheControl option" where
  "WithContextCacheEnabled ctx = Some \<lparr>cc_Enabled = True, cc_TTL = 0\<rparr>"

definition WithContextCacheDisabled :: "CacheControl option \<Rightarrow> CacheControl option" where
  "WithContextCacheDisabled ctx = Some \<lparr>cc_Enabled = False, cc_TTL = 0\<rparr>"

definition WithContextCacheTTL :: "CacheControl option \<Rightarrow> int \<Rightarrow> CacheControl option" where
  "WithContextCacheTTL ctx ttl = Some \<lparr>cc_Enabled = True, cc_TTL = ttl\<rparr>"

subsection \<open>The contract of a cache\<close>

text \<open>
  Sequences of operations at given times, run on an implementation and on the specification: a
  map that \<open>Get\<close> reads without ever removing what has expired. The results are the answers of
  the lookups.
\<close>

datatype cache_op = OpGet int string | OpSet int string CacheEntry int | OpDelete int string | OpClear int

fun op_time :: "cache_op \<Rightarrow> int" where
  "op_time (OpGet now _) = now" | "op_time (OpSet now _ _ _) = now"
| "op_time (OpDelete now _) = now" | "op_time (OpClear now) = now"

fun run_cache :: "(int \<Rightarrow> string \<Rightarrow> 'c \<Rightarrow> CacheEntry option \<times> 'c) \<Rightarrow> (int \<Rightarrow> string \<Rightarrow> CacheEntry \<Rightarrow> int \<Rightarrow> 'c \<Rightarrow> 'c) \<Rightarrow>
    (string \<Rightarrow> 'c \<Rightarrow> 'c) \<Rightarrow> ('c \<Rightarrow> 'c) \<Rightarrow> cache_op list \<Rightarrow> 'c \<Rightarrow> CacheEntry option list" where
  "run_cache g st d cl [] c = []"
| "run_cache g st d cl (OpGet now k # ops) c = fst (g now k c) # run_cache g st d cl ops (snd (g now k c))"
| "run_cache g st d cl (OpSet now k e ttl # ops) c = run_cache g st d cl ops (st now k e ttl c)"
| "run_cache g st d cl (OpDelete now k # ops) c = run_cache g st d cl ops (d k c)"
| "run_cache g st d cl (OpClear now # ops) c = run_cache g st d cl ops (cl c)"

definition unexpired :: "int \<Rightarrow> CacheEntry option \<Rightarrow> CacheEntry option" where
  "unexpired now r = (case r of None \<Rightarrow> None | Some e \<Rightarrow> if now > ent_ExpiresAt e then None else Some e)"

fun run_map :: "cache_op list \<Rightarrow> (string \<rightharpoonup> CacheEntry) \<Rightarrow> CacheEntry option list" where
  "run_map [] m = []"
| "run_map (OpGet now k # ops) m = unexpired now (m k) # run_map ops m"
| "run_map (OpSet now k e ttl # ops) m = run_map ops (m(k \<mapsto> e\<lparr>ent_ExpiresAt := now + ttl\<rparr>))"
| "run_map (OpDelete now k # ops) m = run_map ops (m(k := None))"
| "run_map (OpClear now # ops) m = run_map ops Map.empty"

text \<open>
  \<open>view c\<close> is what the cache holds for each key, with the moment it expires, as \<open>Get\<close> would
  return it; \<open>returned\<close> is what \<open>Get\<close> makes of an entry that was set. \<open>fits\<close> says which moments the
  cache can keep.
\<close>

locale cache =
  fixes get :: "int \<Rightarrow> string \<Rightarrow> 'c \<Rightarrow> CacheEntry option \<times> 'c"
    and set_entry :: "int \<Rightarrow> string \<Rightarrow> CacheEntry \<Rightarrow> int \<Rightarrow> 'c \<Rightarrow> 'c"
    and delete :: "string \<Rightarrow> 'c \<Rightarrow> 'c"
    and clear :: "'c \<Rightarrow> 'c"
    and valid :: "'c \<Rightarrow> bool"
    and view :: "'c \<Rightarrow> string \<rightharpoonup> CacheEntry"
    and returned :: "CacheEntry \<Rightarrow> CacheEntry"
    and fits :: "int \<Rightarrow> bool"
  assumes get_valid: "valid c \<Longrightarrow> valid (snd (get now k c))"
    and set_valid: "valid c \<Longrightarrow> valid (set_entry now k e ttl c)"
    and delete_valid: "valid c \<Longrightarrow> valid (delete k c)"
    and clear_valid: "valid c \<Longrightarrow> valid (clear c)"
    and get_result: "valid c \<Longrightarrow> fst (get now k c) =
        unexpired now (view c k)"
    and get_view: "valid c \<Longrightarrow> view (snd (get now k c)) k' =
        (if k' = k \<and> fst (get now k c) = None then None else view c k')"
    and set_view: "valid c \<Longrightarrow> fits (now + ttl) \<Longrightarrow> view (set_entry now k e ttl c) k = Some (returned (e\<lparr>ent_ExpiresAt := now + ttl\<rparr>))"
    and set_frame: "valid c \<Longrightarrow> k' \<noteq> k \<Longrightarrow> view (set_entry now k e ttl c) k' \<in> {None, view c k'}"
    and delete_view: "valid c \<Longrightarrow> view (delete k c) = (view c)(k := None)"
    and clear_view: "valid c \<Longrightarrow> view (clear c) = Map.empty"
    and returned_expiry: "ent_ExpiresAt (returned e) = ent_ExpiresAt e"
begin

text \<open>A lookup right after a set finds the entry until it expires.\<close>

lemma get_after_set:
  assumes "valid c" and "fits (now + ttl)"
  shows "fst (get later k (set_entry now k e ttl c)) =
    (if later > now + ttl then None else Some (returned (e\<lparr>ent_ExpiresAt := now + ttl\<rparr>)))"
  using get_result [OF set_valid [OF assms(1)]] set_view [OF assms] by (simp add: returned_expiry unexpired_def)

lemma get_after_delete: "valid c \<Longrightarrow> fst (get now k (delete k c)) = None"
  by (simp add: get_result delete_valid delete_view unexpired_def)

lemma get_after_clear: "valid c \<Longrightarrow> fst (get now k (clear c)) = None"
  by (simp add: get_result clear_valid clear_view unexpired_def)

lemma run_cache_set_get:
  "valid c \<Longrightarrow> fits (now + ttl) \<Longrightarrow>
   last (run_cache get set_entry delete clear (ops @ [OpSet now k e ttl, OpGet later k]) c) =
     (if later > now + ttl then None else Some (returned (e\<lparr>ent_ExpiresAt := now + ttl\<rparr>)))"
proof (induction ops arbitrary: c)
  case Nil
  then show ?case by (simp add: get_after_set)
next
  case (Cons op ops)
  have "run_cache get set_entry delete clear (ops @ [OpSet now k e ttl, OpGet later k]) c' \<noteq> []" for c'
  proof (induction ops arbitrary: c')
    case (Cons op ops)
    then show ?case by (cases op) simp_all
  qed simp
  with Cons show ?case
    by (cases op) (simp_all add: get_valid set_valid delete_valid clear_valid)
qed

lemma get_not_expired: "valid c \<Longrightarrow> fst (get now k c) = Some e \<Longrightarrow> now \<le> ent_ExpiresAt e \<and> view c k = Some e"
  by (auto simp: get_result unexpired_def split: option.splits if_splits)

end

text \<open>Every cache only ever answers what the map would, or nothing.\<close>

context cache
begin

definition within :: "'c \<Rightarrow> (string \<rightharpoonup> CacheEntry) \<Rightarrow> bool" where
  "within c m \<longleftrightarrow> valid c \<and> (\<forall>k e. view c k = Some e \<longrightarrow> (\<exists>e0. m k = Some e0 \<and> e = returned e0))"

lemma run_cache_within:
  "within c m \<Longrightarrow> (\<forall>now k e ttl. OpSet now k e ttl \<in> set ops \<longrightarrow> fits (now + ttl)) \<Longrightarrow>
   list_all2 (\<lambda>r spec. r = None \<or> r = map_option returned spec)
     (run_cache get set_entry delete clear ops c) (run_map ops m)"
proof (induction ops arbitrary: c m)
  case (Cons op ops)
  have v: "valid c" using Cons.prems(1) by (simp add: within_def)
  show ?case
  proof (cases op)
    case (OpGet now k)
    have "within (snd (get now k c)) m"
      using Cons.prems(1) get_view [OF v] get_valid [OF v] by (auto simp: within_def)
    moreover have "fst (get now k c) = None \<or> fst (get now k c) = map_option returned (unexpired now (m k))"
    proof (cases "fst (get now k c)")
      case (Some e)
      from get_not_expired [OF v this] Cons.prems(1) obtain e0 where
        e0: "now \<le> ent_ExpiresAt e" "m k = Some e0" "e = returned e0" by (auto simp: within_def)
      then have "\<not> now > ent_ExpiresAt e0" using returned_expiry [of e0] by simp
      with Some e0 show ?thesis by (simp add: unexpired_def)
    qed simp
    ultimately show ?thesis using OpGet Cons by simp
  next
    case (OpSet now k e ttl)
    then have "fits (now + ttl)" using Cons.prems(2) by auto
    note s = set_view [OF v this] set_frame [OF v, of _ k now e ttl]
    have "within (set_entry now k e ttl c) (m(k \<mapsto> e\<lparr>ent_ExpiresAt := now + ttl\<rparr>))"
      unfolding within_def
    proof (intro conjI allI impI)
      fix k' e' assume e': "view (set_entry now k e ttl c) k' = Some e'"
      show "\<exists>e0. (m(k \<mapsto> e\<lparr>ent_ExpiresAt := now + ttl\<rparr>)) k' = Some e0 \<and> e' = returned e0"
      proof (cases "k' = k")
        case False
        with e' s(2) [of k'] have "view c k' = Some e'" by auto
        with False Cons.prems(1) show ?thesis by (auto simp: within_def)
      qed (use e' s(1) in auto)
    qed (rule set_valid [OF v])
    then show ?thesis using OpSet Cons by (simp del: fun_upd_apply)
  next
    case (OpDelete now k)
    have "within (delete k c) (m(k := None))"
      using Cons.prems(1) delete_valid [OF v] delete_view [OF v] by (simp add: within_def)
    with OpDelete Cons show ?thesis by (simp del: fun_upd_apply)
  next
    case (OpClear now)
    have "within (clear c) Map.empty"
      using clear_valid [OF v] clear_view [OF v] by (simp add: within_def)
    with OpClear Cons show ?thesis by simp
  qed
qed simp

end

text \<open>One that drops nothing but what is deleted or has expired.\<close>

locale exact_cache = cache +
  assumes set_others: "valid c \<Longrightarrow> k' \<noteq> k \<Longrightarrow> view (set_entry now k e ttl c) k' = view c k'"
    and returned_all: "returned e = e"
    and fits_all: "fits t"
begin

text \<open>
  Up to entries that have expired by \<open>t\<close> and were removed, the cache holds what the map does; so
  both answer alike from then on, if the clock does not go back.
\<close>

definition tracks :: "int \<Rightarrow> 'a \<Rightarrow> (string \<rightharpoonup> CacheEntry) \<Rightarrow> bool" where
  "tracks t c m \<longleftrightarrow> valid c \<and> (\<forall>k. view c k = m k \<or>
     (view c k = None \<and> (\<exists>e. m k = Some e \<and> ent_ExpiresAt e < t)))"

lemma tracks_later: "tracks t c m \<Longrightarrow> t \<le> t' \<Longrightarrow> tracks t' c m"
  by (fastforce simp: tracks_def)

lemma tracks_unexpired: "tracks t c m \<Longrightarrow> fst (get t k c) = unexpired t (m k)"
proof -
  assume t: "tracks t c m"
  then have r: "fst (get t k c) = unexpired t (view c k)" by (simp add: tracks_def get_result)
  from t consider "view c k = m k" | e where "view c k = None" "m k = Some e" "ent_ExpiresAt e < t"
    by (auto simp: tracks_def)
  then show ?thesis by cases (simp_all add: r unexpired_def)
qed

lemma tracks_get:
  assumes "tracks t c m"
  shows "tracks t (snd (get t k c)) m"
proof -
  have v: "valid c" using assms by (simp add: tracks_def)
  have "view (snd (get t k c)) k' = m k' \<or>
      (view (snd (get t k c)) k' = None \<and> (\<exists>e. m k' = Some e \<and> ent_ExpiresAt e < t))" for k'
  proof (cases "k' = k \<and> fst (get t k c) = None")
    case True
    then have "view (snd (get t k c)) k' = None" "unexpired t (m k') = None"
      using get_view [OF v] tracks_unexpired [OF assms] by auto
    then show ?thesis by (auto simp: unexpired_def split: option.splits if_splits)
  next
    case False
    then have "view (snd (get t k c)) k' = view c k'" using get_view [OF v, of t k k'] by auto
    then show ?thesis using assms by (simp add: tracks_def)
  qed
  then show ?thesis using get_valid [OF v] by (simp add: tracks_def)
qed

lemma tracks_set:
  assumes "tracks t c m"
  shows "tracks t (set_entry t k e ttl c) (m(k \<mapsto> e\<lparr>ent_ExpiresAt := t + ttl\<rparr>))"
proof -
  have v: "valid c" using assms by (simp add: tracks_def)
  show ?thesis
    using assms set_valid [OF v] set_view [OF v fits_all] set_others [OF v] by (simp add: tracks_def returned_all)
qed

lemma run_cache_map:
  "tracks t c m \<Longrightarrow> sorted (t # map op_time ops) \<Longrightarrow>
   run_cache get set_entry delete clear ops c = run_map ops m"
proof (induction ops arbitrary: t c m)
  case (Cons op ops)
  note later = tracks_later [OF Cons.prems(1)]
  note IH = Cons.IH [of "op_time op"]
  show ?case
  proof (cases op)
    case (OpGet now k)
    with Cons.prems later [of now] IH tracks_get [of now c m k] tracks_unexpired [of now c m k]
    show ?thesis by simp
  next
    case (OpSet now k e ttl)
    with Cons.prems later [of now] have "tracks now c m" by simp
    then show ?thesis using OpSet Cons.prems
      IH [of "set_entry now k e ttl c" "m(k \<mapsto> e\<lparr>ent_ExpiresAt := now + ttl\<rparr>)"]
      tracks_set [OF \<open>tracks now c m\<close>, of k e ttl] by (simp del: fun_upd_apply)
  next
    case (OpDelete now k)
    have "tracks now (delete k c) (m(k := None))"
      using later [of now] Cons.prems(2) OpDelete delete_valid delete_view by (simp add: tracks_def)
    with OpDelete Cons.prems IH show ?thesis by (simp del: fun_upd_apply)
  next
    case (OpClear now)
    have "tracks now (clear c) Map.empty"
      using later [of now] Cons.prems(2) OpClear clear_valid clear_view by (simp add: tracks_def)
    with OpClear Cons.prems IH show ?thesis by simp
  qed
qed simp

lemma get_others_after_set:
  "valid c \<Longrightarrow> k' \<noteq> k \<Longrightarrow> fst (get later k' (set_entry now k e ttl c)) = fst (get later k' c)"
  by (simp add: get_result set_valid set_others)

end

subsection \<open>The sharded cache meets it\<close>

definition imc_valid :: "InMemoryCache \<Rightarrow> bool" where
  "imc_valid c \<longleftrightarrow> imc_numShards c = 16 \<and> length (imc_shards c) = 16"

definition imc_view :: "InMemoryCache \<Rightarrow> string \<rightharpoonup> CacheEntry" where
  "imc_view c key = (imc_shards c ! imc_getShard c key) key"

lemma imc_getShard_less: "imc_valid c \<Longrightarrow> imc_getShard c key < length (imc_shards c)"
  by (simp add: imc_valid_def imc_getShard_def unat_mod)

lemma imc_getShard_frame [simp]: "imc_getShard (c\<lparr>imc_shards := s\<rparr>) key = imc_getShard c key"
  by (simp add: imc_getShard_def)

lemmas imc_defs = imc_Get_def imc_Set_def imc_Delete_def imc_Clear_def

lemma imc_view_update:
  "imc_valid c \<Longrightarrow>
   imc_view (c\<lparr>imc_shards := (imc_shards c)[imc_getShard c k := (imc_shards c ! imc_getShard c k)(k := v)]\<rparr>)
     = (imc_view c)(k := v)"
  using imc_getShard_less [of c] by (auto simp: imc_view_def nth_list_update)

interpretation imc: exact_cache imc_Get imc_Set imc_Delete imc_Clear imc_valid imc_view "\<lambda>e. e" "\<lambda>_. True"
proof unfold_locales
  fix c :: InMemoryCache and now k k' e ttl
  assume v: "imc_valid c"
  show "imc_valid (snd (imc_Get now k c))" "imc_valid (imc_Set now k e ttl c)"
    "imc_valid (imc_Delete k c)" "imc_valid (imc_Clear c)"
    using v by (auto simp: imc_valid_def imc_defs Let_def split: option.splits)
  show "fst (imc_Get now k c) =
      unexpired now (imc_view c k)"
    by (simp add: imc_Get_def imc_view_def unexpired_def Let_def split: option.splits)
  show "imc_view (snd (imc_Get now k c)) k' =
      (if k' = k \<and> fst (imc_Get now k c) = None then None else imc_view c k')"
  proof (cases "imc_view c k")
    case (Some e)
    then have "(imc_shards c ! imc_getShard c k) k = Some e" by (simp add: imc_view_def)
    then show ?thesis
      using imc_view_update [OF v, of k None] by (simp add: imc_Get_def Let_def)
  qed (simp add: imc_Get_def imc_view_def Let_def)
  show "imc_view (imc_Set now k e ttl c) k = Some (e\<lparr>ent_ExpiresAt := now + ttl\<rparr>)"
    using imc_view_update [OF v, of k "Some (e\<lparr>ent_ExpiresAt := now + ttl\<rparr>)"]
    by (simp add: imc_Set_def Let_def)
  show "k' \<noteq> k \<Longrightarrow> imc_view (imc_Set now k e ttl c) k' = imc_view c k'"
    using imc_view_update [OF v, of k "Some (e\<lparr>ent_ExpiresAt := now + ttl\<rparr>)"]
    by (simp add: imc_Set_def Let_def)
  then show "k' \<noteq> k \<Longrightarrow> imc_view (imc_Set now k e ttl c) k' \<in> {None, imc_view c k'}" by simp
  show "imc_view (imc_Delete k c) = (imc_view c)(k := None)"
    using imc_view_update [OF v, of k None] by (simp add: imc_Delete_def Let_def)
  show "imc_view (imc_Clear c) = Map.empty"
    using imc_getShard_less [OF v] by (auto simp: imc_view_def imc_Clear_def)
qed simp_all

lemma NewInMemoryCache_valid: "imc_valid NewInMemoryCache" "imc_view NewInMemoryCache = Map.empty"
proof -
  show v: "imc_valid NewInMemoryCache" by (simp add: imc_valid_def NewInMemoryCache_def)
  have "imc_getShard NewInMemoryCache k < 16" for k
    using imc_getShard_less [OF v, of k] by (simp add: NewInMemoryCache_def)
  then show "imc_view NewInMemoryCache = Map.empty"
    by (auto simp: imc_view_def NewInMemoryCache_def)
qed

subsection \<open>Properties\<close>


definition plain_entry :: "string \<Rightarrow> CacheEntry" where
  "plain_entry body = \<lparr>ent_Response = None, ent_Body = body, ent_StatusCode = 200, ent_Header = Map.empty,
     ent_ExpiresAt = zero_time, ent_ETag = [], ent_LastModified = None, ent_MaxAge = None,
     ent_StaleAt = None, ent_IsStale = False\<rparr>"


text \<open>
  What caching a response costs its reader: the caller gets back, and the cache keeps, the
  first 10 MiB of the body, read without error; so a response is passed on unchanged exactly if
  its body is not longer than that. A body whose reading fails before is not cached.
\<close>

theorem caching_truncates_body:
  assumes "rs_Body resp = Reader s ok" and "ok \<or> maxCacheSize \<le> length s"
  shows "\<exists>entry resp'. createCacheEntry resp = Some (Some entry, resp')
    \<and> createResponseFromCache entry = resp'\<lparr>rs_Request := None\<rparr>
    \<and> rs_Body resp' = Reader (take maxCacheSize s) True
    \<and> (rs_Body resp' = Reader s True \<longleftrightarrow> length s \<le> maxCacheSize)
    \<and> rs_StatusCode resp' = rs_StatusCode resp \<and> rs_Header resp' = rs_Header resp"
proof -
  have "read_limited maxCacheSize (rs_Body resp) = Some (Some (take maxCacheSize s), Reader (drop maxCacheSize s) ok)"
    using assms by auto
  moreover have "take maxCacheSize s = s \<longleftrightarrow> length s \<le> maxCacheSize"
    by (metis length_take min.cobounded2 min.absorb_iff2 take_all)
  ultimately show ?thesis
    by (simp add: createCacheEntry_def createResponseFromCache_def Let_def)
qed

definition text_response :: "string \<Rightarrow> response" where
  "text_response b = \<lparr>rs_StatusCode = 200, rs_Header = Map.empty, rs_Body = Reader b True, rs_Request = None\<rparr>"

lemma caching_truncates_body_witness:
  "\<exists>entry resp'. createCacheEntry (text_response (replicate (maxCacheSize + 1) CHR ''x'')) = Some (Some entry, resp')
     \<and> rs_Body resp' \<noteq> Reader (replicate (maxCacheSize + 1) CHR ''x'') True"
proof -
  have "rs_Body (text_response (replicate (maxCacheSize + 1) CHR ''x'')) =
      Reader (replicate (maxCacheSize + 1) CHR ''x'') True" by (simp add: text_response_def)
  from caching_truncates_body [OF this] show ?thesis by auto
qed

end
