(* ===== verification/CacheConcurrent.thy ===== *)
theory CacheConcurrent
  imports Cache Interleaving
begin

text \<open>
  One shard of the in-memory cache (\<open>cache.go\<close>) under concurrency. The lock of a shard is a
  number of readers and a flag for the writer; a goroutine that cannot take it stays where it is.
  Between taking and releasing it, looking up, removing and writing are steps of their own, so
  that two goroutines about to write the map at once are visible as such: the Go runtime aborts
  the program in that case.
\<close>

record shard_state =
  sh_store :: "string \<rightharpoonup> CacheEntry"
  sh_readers :: int
  sh_writer :: bool

datatype cache_call = CallSet int string CacheEntry int | CallDelete string | CallClear

fun call_store :: "cache_call \<Rightarrow> (string \<rightharpoonup> CacheEntry) \<Rightarrow> (string \<rightharpoonup> CacheEntry)" where
  "call_store (CallSet now key entry ttl) store = store(key \<mapsto> entry\<lparr>ent_ExpiresAt := now + ttl\<rparr>)"
| "call_store (CallDelete key) store = store(key := None)"
| "call_store CallClear store = Map.empty"

datatype shard_pc =
  SIdle | SAnswer "CacheEntry option"
| SGet int string
| SLook int string
| SRemove string
| SRUnlock "CacheEntry option"
| SWriteCall cache_call
| SWrite cache_call
| SUnlock

fun shard_exec :: "shard_pc \<Rightarrow> shard_state \<Rightarrow> shard_state \<times> shard_pc" where
  "shard_exec SIdle s = (s, SIdle)"
| "shard_exec (SAnswer r) s = (s, SAnswer r)"
| "shard_exec (SGet now key) s =
     (if sh_writer s then (s, SGet now key) else (s\<lparr>sh_readers := sh_readers s + 1\<rparr>, SLook now key))"
| "shard_exec (SLook now key) s =
     (s, case sh_store s key of
           None \<Rightarrow> SRUnlock None
         | Some entry \<Rightarrow> if now > ent_ExpiresAt entry then SRemove key else SRUnlock (Some entry))"
| "shard_exec (SRemove key) s = (s\<lparr>sh_store := (sh_store s)(key := None)\<rparr>, SRUnlock None)"
| "shard_exec (SRUnlock r) s = (s\<lparr>sh_readers := sh_readers s - 1\<rparr>, SAnswer r)"
| "shard_exec (SWriteCall c) s =
     (if sh_writer s \<or> sh_readers s > 0 then (s, SWriteCall c) else (s\<lparr>sh_writer := True\<rparr>, SWrite c))"
| "shard_exec (SWrite c) s = (s\<lparr>sh_store := call_store c (sh_store s)\<rparr>, SUnlock)"
| "shard_exec SUnlock s = (s\<lparr>sh_writer := False\<rparr>, SAnswer None)"

fun shard_start :: "shard_pc \<Rightarrow> shard_pc \<Rightarrow> bool" where
  "shard_start pc (SGet now key) = (pc = SIdle \<or> (\<exists>r. pc = SAnswer r))"
| "shard_start pc (SWriteCall c) = (pc = SIdle \<or> (\<exists>r. pc = SAnswer r))"
| "shard_start pc _ = False"

text \<open>Alone, a goroutine executes the operations of the cache on its shard.\<close>

lemma solo_shard_get:
  assumes "\<not> sh_writer s"
  shows "\<exists>r. solo shard_exec 4 (SGet now key) s =
      (s\<lparr>sh_store := if r = None then (sh_store s)(key := None) else sh_store s\<rparr>, SAnswer r)
    \<and> r = unexpired now (sh_store s key)"
proof (cases "sh_store s key")
  case None
  then have "(sh_store s)(key := None) = sh_store s" by auto
  with None assms show ?thesis by (simp add: eval_nat_numeral unexpired_def)
next
  case (Some e)
  with assms show ?thesis by (auto simp: eval_nat_numeral unexpired_def)
qed

lemma solo_shard_write:
  assumes "\<not> sh_writer s" and "sh_readers s \<le> 0"
  shows "solo shard_exec 3 (SWriteCall c) s = (s\<lparr>sh_store := call_store c (sh_store s)\<rparr>, SAnswer None)"
  using assms by (simp add: eval_nat_numeral)

subsection \<open>Exclusion\<close>

definition reading :: "shard_pc \<Rightarrow> int" where
  "reading pc = (case pc of SLook _ _ \<Rightarrow> 1 | SRemove _ \<Rightarrow> 1 | SRUnlock _ \<Rightarrow> 1 | _ \<Rightarrow> 0)"

definition writing :: "shard_pc \<Rightarrow> int" where
  "writing pc = (case pc of SWrite _ \<Rightarrow> 1 | SUnlock \<Rightarrow> 1 | _ \<Rightarrow> 0)"

lemma lock_counts_nonneg [simp]: "0 \<le> reading pc" "0 \<le> writing pc"
  by (simp_all add: reading_def writing_def split: shard_pc.splits)

definition lock_ok :: "shard_state \<Rightarrow> int \<Rightarrow> int \<Rightarrow> bool" where
  "lock_ok s r w \<longleftrightarrow> sh_readers s = r \<and> w = of_bool (sh_writer s) \<and> (sh_writer s \<longrightarrow> r = 0)"

lemma shard_exec_lock:
  assumes "shard_exec pc s = (s', pc')" and "lock_ok s (r + reading pc) (w + writing pc)" and "0 \<le> r" and "0 \<le> w"
  shows "lock_ok s' (r + reading pc') (w + writing pc')"
  using assms
  by (cases pc; cases "sh_writer s") (auto simp: lock_ok_def reading_def writing_def split: if_splits option.splits)

lemma shard_step_lock:
  assumes "mt_step shard_exec shard_start c c'"
    and "lock_ok (fst c) (sum_list (map reading (snd c))) (sum_list (map writing (snd c)))"
  shows "lock_ok (fst c') (sum_list (map reading (snd c'))) (sum_list (map writing (snd c')))"
  using assms(1)
proof cases
  case (call i pcs pc s)
  have "reading (pcs ! i) = 0" "writing (pcs ! i) = 0" "reading pc = 0" "writing pc = 0"
    using call(4) by (cases pc; auto simp: reading_def writing_def)+
  with call assms(2) show ?thesis by (simp add: sum_list_update_int)
next
  case (move i pcs s s' pc)
  have nn: "0 \<le> sum_list (map f pcs) - f (pcs ! i)" if "\<And>pc. 0 \<le> f pc" "f SIdle = 0" for f :: "shard_pc \<Rightarrow> int"
    using sum_list_update_int [OF move(3), of f SIdle] that sum_list_map_nonneg [of "pcs[i := SIdle]" f] by simp
  have "reading SIdle = 0" "writing SIdle = 0" by (simp_all add: reading_def writing_def)
  with shard_exec_lock [OF move(4), of "sum_list (map reading pcs) - reading (pcs ! i)"
      "sum_list (map writing pcs) - writing (pcs ! i)"] move assms(2) nn
  show ?thesis by (simp add: sum_list_update_int)
qed

lemma shard_reach_lock:
  "mt_reach shard_exec shard_start c0 c \<Longrightarrow>
   lock_ok (fst c0) (sum_list (map reading (snd c0))) (sum_list (map writing (snd c0))) \<Longrightarrow>
   lock_ok (fst c) (sum_list (map reading (snd c))) (sum_list (map writing (snd c)))"
  by (induction rule: mt_reach.induct) (auto intro: shard_step_lock)

lemma sum_list_two:
  assumes "i < length pcs" and "j < length pcs" and "i \<noteq> j" and "\<And>pc. 0 \<le> (f pc :: int)"
  shows "f (pcs ! i) + f (pcs ! j) \<le> sum_list (map f pcs)"
proof -
  have "f (pcs ! i) + f (pcs ! j) = sum f' {i, j}" if "f' = (\<lambda>k. f (pcs ! k))" for f'
    using assms(3) that by simp
  also have "sum (\<lambda>k. f (pcs ! k)) {i, j} \<le> sum (\<lambda>k. f (pcs ! k)) {0..<length pcs}"
    using assms by (intro sum_mono2) auto
  also have "\<dots> = sum_list (map f pcs)" by (simp add: sum_list_sum_nth)
  finally show ?thesis by simp
qed

subsection \<open>Properties\<close>

text \<open>The state of a shard with entries \<open>store\<close> and \<open>n\<close> goroutines that have not called yet.\<close>

definition shard_init :: "(string \<rightharpoonup> CacheEntry) \<Rightarrow> nat \<Rightarrow> shard_state \<times> shard_pc list" where
  "shard_init store n = (\<lparr>sh_store = store, sh_readers = 0, sh_writer = False\<rparr>, replicate n SIdle)"

text \<open>
  C35. Insertions, deletions and clears have the shard for themselves: while one goroutine is
  about to write, no other one is looking up, removing or writing, under every interleaving.
\<close>

theorem shard_writer_alone:
  assumes "mt_reach shard_exec shard_start (shard_init store n) (s, pcs)"
    and "i < length pcs" and "j < length pcs" and "i \<noteq> j" and "pcs ! i = SWrite c"
  shows "(\<forall>now key. pcs ! j \<noteq> SLook now key) \<and> (\<forall>key. pcs ! j \<noteq> SRemove key)
    \<and> (\<forall>c'. pcs ! j \<noteq> SWrite c')"
proof -
  have "lock_ok (fst (shard_init store n)) (sum_list (map reading (snd (shard_init store n))))
      (sum_list (map writing (snd (shard_init store n))))"
    by (simp add: shard_init_def lock_ok_def sum_list_replicate reading_def writing_def)
  from shard_reach_lock [OF assms(1) this]
  have "lock_ok s (sum_list (map reading pcs)) (sum_list (map writing pcs))" by simp
  moreover have "writing (pcs ! i) = 1" "reading (pcs ! i) = 0"
    using assms(5) by (simp_all add: writing_def reading_def)
  moreover have "writing (pcs ! i) + writing (pcs ! j) \<le> sum_list (map writing pcs)"
    "reading (pcs ! i) + reading (pcs ! j) \<le> sum_list (map reading pcs)"
    by (rule sum_list_two [OF assms(2-4)], simp)+
  ultimately have "reading (pcs ! j) \<le> 0" "writing (pcs ! j) \<le> 0"
    by (cases "sh_writer s"; use lock_counts_nonneg(2) [of "pcs ! j"] in \<open>simp add: lock_ok_def\<close>)+
  then have "reading (pcs ! j) = 0" "writing (pcs ! j) = 0" by (simp_all add: order_antisym)
  then show ?thesis by (auto simp: reading_def writing_def)
qed

lemma shard_writer_alone_witness:
  "\<exists>s pcs. mt_reach shard_exec shard_start (shard_init Map.empty 2) (s, pcs)
     \<and> pcs ! 0 = SWrite CallClear \<and> pcs ! 1 \<noteq> SRemove ''k''"
proof -
  have "mt_run shard_exec shard_start
      [(0, Some (SWriteCall CallClear)), (1, Some (SGet 0 ''k'')), (0, None), (1, None)] (shard_init Map.empty 2) =
     Some (\<lparr>sh_store = Map.empty, sh_readers = 0, sh_writer = True\<rparr>, [SWrite CallClear, SGet 0 ''k''])"
    by (simp add: shard_init_def eval_nat_numeral)
  from mt_run_reach [OF this mt_reach.init]
  show ?thesis
    using shard_writer_alone [of Map.empty 2 "\<lparr>sh_store = Map.empty, sh_readers = 0, sh_writer = True\<rparr>"
        "[SWrite CallClear, SGet 0 ''k'']" 0 1 CallClear]
    by (intro exI [of _ "\<lparr>sh_store = Map.empty, sh_readers = 0, sh_writer = True\<rparr>"]
        exI [of _ "[SWrite CallClear, SGet 0 ''k'']"]) simp
qed

text \<open>
  Lookups do not: \<open>Get\<close> removes an expired entry while it holds the read lock only, so two
  goroutines that look up expired entries of one shard, even of one key, can be about to write
  the map at the same time.
\<close>

theorem expired_lookups_write_together:
  assumes "store key = Some entry" and "ent_ExpiresAt entry < now"
  shows "\<exists>s. mt_reach shard_exec shard_start (shard_init store 2) (s, [SRemove key, SRemove key])"
proof -
  have "mt_run shard_exec shard_start
      [(0, Some (SGet now key)), (1, Some (SGet now key)), (0, None), (1, None), (0, None), (1, None)]
      (shard_init store 2) =
     Some (\<lparr>sh_store = store, sh_readers = 2, sh_writer = False\<rparr>, [SRemove key, SRemove key])"
    using assms by (simp add: shard_init_def eval_nat_numeral)
  from mt_run_reach [OF this mt_reach.init] show ?thesis by blast
qed

lemma expired_lookups_write_together_witness:
  "\<exists>s. mt_reach shard_exec shard_start (shard_init [''k'' \<mapsto> plain_entry []] 2) (s, [SRemove ''k'', SRemove ''k''])"
  by (rule expired_lookups_write_together [of _ _ "plain_entry []" 0])
     (simp_all add: plain_entry_def zero_time_def duration_defs)

end
