(* ===== verification/LruList.thy ===== *)
theory LruList
  imports Cache
begin

text \<open>
  A shard of the optimized cache (\<open>cache_optimized.go\<close>) down to its pointers: entries live in a
  heap of addresses, the map \<open>os_store\<close> and the doubly linked list from \<open>os_head\<close> to \<open>os_tail\<close>
  refer to them. The lemmas relate the pointer surgery of \<open>addToLRU\<close>, \<open>removeLRU\<close> and \<open>evictLRU\<close>
  to operations on the list of addresses.
\<close>

subsection \<open>State\<close>

record oc_entry =
  oe_key :: string
  oe_response :: "response option"
  oe_body :: string
  oe_header :: header
  oe_expiresAt :: int
  oe_etag :: string
  oe_lastModified :: "int option"
  oe_maxAge :: "int option"
  oe_staleAt :: int
  oe_isStale :: bool
  oe_prev :: "nat option"
  oe_next :: "nat option"
  oe_accessCount :: int
  oe_lastAccess :: int
  oe_hotPromoted :: bool

text \<open>\<open>os_fresh\<close> is the next address to allocate; no code reads it.\<close>

record oc_shard =
  os_store :: "string \<rightharpoonup> nat"
  os_heap :: "nat \<Rightarrow> oc_entry"
  os_fresh :: nat
  os_head :: "nat option"
  os_tail :: "nat option"
  os_hits :: int
  os_misses :: int
  os_evictions :: int
  os_size :: int
  os_maxSize :: int

definition heap_upd :: "nat \<Rightarrow> (oc_entry \<Rightarrow> oc_entry) \<Rightarrow> oc_shard \<Rightarrow> oc_shard" where
  "heap_upd a f sh = sh\<lparr>os_heap := (os_heap sh)(a := f (os_heap sh a))\<rparr>"

subsection \<open>List surgery\<close>

definition addToLRU :: "nat \<Rightarrow> oc_shard \<Rightarrow> oc_shard" where
  "addToLRU entry sh =
     (case os_head sh of
        None \<Rightarrow> sh\<lparr>os_head := Some entry, os_tail := Some entry\<rparr>
      | Some head \<Rightarrow>
          (let sh = heap_upd entry (\<lambda>e. e\<lparr>oe_next := Some head\<rparr>) sh;
               sh = heap_upd head (\<lambda>e. e\<lparr>oe_prev := Some entry\<rparr>) sh
           in sh\<lparr>os_head := Some entry\<rparr>))"

definition removeLRU :: "nat \<Rightarrow> oc_shard \<Rightarrow> oc_shard" where
  "removeLRU entry sh =
     (let sh = (case oe_prev (os_heap sh entry) of
                  Some p \<Rightarrow> heap_upd p (\<lambda>e. e\<lparr>oe_next := oe_next (os_heap sh entry)\<rparr>) sh
                | None \<Rightarrow> sh\<lparr>os_head := oe_next (os_heap sh entry)\<rparr>);
          sh = (case oe_next (os_heap sh entry) of
                  Some n \<Rightarrow> heap_upd n (\<lambda>e. e\<lparr>oe_prev := oe_prev (os_heap sh entry)\<rparr>) sh
                | None \<Rightarrow> sh\<lparr>os_tail := oe_prev (os_heap sh entry)\<rparr>)
      in heap_upd entry (\<lambda>e. e\<lparr>oe_prev := None, oe_next := None\<rparr>) sh)"

text \<open>The shard's part of \<open>evictLRU\<close>; the result says whether an entry was evicted.\<close>

definition evictLRU :: "oc_shard \<Rightarrow> bool \<times> oc_shard" where
  "evictLRU sh =
     (case os_tail sh of
        None \<Rightarrow> (False, sh)
      | Some evicted \<Rightarrow>
          (let sh = sh\<lparr>os_store := (os_store sh)(oe_key (os_heap sh evicted) := None)\<rparr>;
               sh = removeLRU evicted sh
           in (True, sh\<lparr>os_size := sub64 (os_size sh) 1, os_evictions := add64 (os_evictions sh) 1\<rparr>)))"

subsection \<open>Doubly linked segments\<close>

definition first_or :: "nat list \<Rightarrow> nat option \<Rightarrow> nat option" where
  "first_or xs n = (case xs of [] \<Rightarrow> n | x # _ \<Rightarrow> Some x)"

definition last_or :: "nat option \<Rightarrow> nat list \<Rightarrow> nat option" where
  "last_or p xs = (if xs = [] then p else Some (last xs))"

text \<open>\<open>dll h p xs n\<close>: the entries \<open>xs\<close> are linked to each other, to \<open>p\<close> before and to \<open>n\<close> after them.\<close>

fun dll :: "(nat \<Rightarrow> oc_entry) \<Rightarrow> nat option \<Rightarrow> nat list \<Rightarrow> nat option \<Rightarrow> bool" where
  "dll h p [] n = True"
| "dll h p (x # xs) n =
     (oe_prev (h x) = p \<and> oe_next (h x) = first_or xs n \<and> dll h (Some x) xs n)"

lemma ends_simps [simp]:
  "first_or [] n = n" "first_or (x # xs) n = Some x" "last_or p [] = p" "last_or p (xs @ [x]) = Some x"
  "last_or p (x # xs) = last_or (Some x) xs"
  by (simp_all add: first_or_def last_or_def)

lemma first_or_append: "first_or (xs @ ys) n = first_or xs (first_or ys n)"
  by (cases xs) simp_all

lemma dll_append: "dll h p (xs @ ys) n \<longleftrightarrow> dll h p xs (first_or ys n) \<and> dll h (last_or p xs) ys n"
  by (induction xs arbitrary: p) (auto simp: first_or_append)

lemma dll_cong:
  "(\<And>x. x \<in> set xs \<Longrightarrow> oe_prev (h' x) = oe_prev (h x) \<and> oe_next (h' x) = oe_next (h x)) \<Longrightarrow>
   dll h' p xs n = dll h p xs n"
  by (induction xs arbitrary: p) auto

lemma dll_other: "a \<notin> set xs \<Longrightarrow> dll (h(a := e)) p xs n = dll h p xs n"
  by (rule dll_cong) auto

text \<open>Redirecting the end or the beginning of a segment.\<close>

lemma dll_set_next:
  "distinct (xs @ [x]) \<Longrightarrow> dll h p (xs @ [x]) n \<Longrightarrow> dll (h(x := (h x)\<lparr>oe_next := n'\<rparr>)) p (xs @ [x]) n'"
  by (auto simp: dll_append dll_other)

lemma dll_set_prev:
  "distinct (x # xs) \<Longrightarrow> dll h p (x # xs) n \<Longrightarrow> dll (h(x := (h x)\<lparr>oe_prev := p'\<rparr>)) p' (x # xs) n"
  by (auto simp: dll_other)

subsection \<open>The list of a shard\<close>

text \<open>\<open>lru sh xs\<close>: the shard's list consists of the entries \<open>xs\<close>, most recent first.\<close>

definition lru :: "oc_shard \<Rightarrow> nat list \<Rightarrow> bool" where
  "lru sh xs \<longleftrightarrow> distinct xs \<and> dll (os_heap sh) None xs None \<and>
     os_head sh = first_or xs None \<and> os_tail sh = last_or None xs"

text \<open>A node that is in no list.\<close>

definition detached :: "oc_shard \<Rightarrow> nat \<Rightarrow> bool" where
  "detached sh a \<longleftrightarrow> oe_prev (os_heap sh a) = None \<and> oe_next (os_heap sh a) = None"

lemma heap_upd_simps [simp]:
  "os_heap (heap_upd a f sh) = (os_heap sh)(a := f (os_heap sh a))"
  "os_store (heap_upd a f sh) = os_store sh" "os_head (heap_upd a f sh) = os_head sh"
  "os_tail (heap_upd a f sh) = os_tail sh" "os_size (heap_upd a f sh) = os_size sh"
  "os_maxSize (heap_upd a f sh) = os_maxSize sh" "os_fresh (heap_upd a f sh) = os_fresh sh"
  "os_hits (heap_upd a f sh) = os_hits sh" "os_misses (heap_upd a f sh) = os_misses sh"
  "os_evictions (heap_upd a f sh) = os_evictions sh"
  by (simp_all add: heap_upd_def)

text \<open>What list surgery leaves alone: everything of a shard and an entry but links and ends.\<close>

definition same_content :: "oc_entry \<Rightarrow> oc_entry \<Rightarrow> bool" where
  "same_content e e' \<longleftrightarrow> e\<lparr>oe_prev := None, oe_next := None\<rparr> = e'\<lparr>oe_prev := None, oe_next := None\<rparr>"

lemma same_content_refl [simp]: "same_content e e"
  by (simp add: same_content_def)

lemma same_content_upd [simp]:
  "same_content (e\<lparr>oe_next := n\<rparr>) e' = same_content e e'" "same_content (e\<lparr>oe_prev := p\<rparr>) e' = same_content e e'"
  by (simp_all add: same_content_def)

definition same_shard :: "oc_shard \<Rightarrow> oc_shard \<Rightarrow> bool" where
  "same_shard sh sh' \<longleftrightarrow> os_store sh' = os_store sh \<and> os_size sh' = os_size sh \<and> os_maxSize sh' = os_maxSize sh
     \<and> os_fresh sh' = os_fresh sh \<and> os_hits sh' = os_hits sh \<and> os_misses sh' = os_misses sh
     \<and> os_evictions sh' = os_evictions sh \<and> (\<forall>a. same_content (os_heap sh' a) (os_heap sh a))"

lemma addToLRU_same: "same_shard sh (addToLRU a sh)"
  by (auto simp: same_shard_def addToLRU_def Let_def split: option.splits)

lemma removeLRU_same: "same_shard sh (removeLRU a sh)"
  by (auto simp: same_shard_def removeLRU_def Let_def split: option.splits)

lemma addToLRU_lru:
  assumes "lru sh xs" and "a \<notin> set xs" and "detached sh a"
  shows "lru (addToLRU a sh) (a # xs)"
proof (cases xs)
  case Nil
  then show ?thesis using assms by (simp add: lru_def addToLRU_def detached_def)
next
  case (Cons x ys)
  have d: "dll (os_heap sh) None (x # ys) None" "distinct (x # ys)" "a \<noteq> x" "a \<notin> set ys"
    and ends: "os_head sh = Some x" "os_tail sh = last_or None (x # ys)"
    using assms Cons by (auto simp: lru_def)
  let ?h = "(os_heap sh)(a := (os_heap sh a)\<lparr>oe_next := Some x\<rparr>)"
  have "dll ?h None (x # ys) None" using d by (simp add: dll_other)
  then have "dll (?h(x := (?h x)\<lparr>oe_prev := Some a\<rparr>)) (Some a) (x # ys) None" using d by (intro dll_set_prev) auto
  then show ?thesis
    using assms(3) d ends Cons
    by (simp add: lru_def addToLRU_def Let_def detached_def)
qed

lemma removeLRU_lru:
  assumes "lru sh (ys @ a # zs)"
  shows "lru (removeLRU a sh) (ys @ zs) \<and> detached (removeLRU a sh) a"
proof -
  let ?h = "os_heap sh"
  have dist: "distinct ys" "distinct zs" "a \<notin> set ys" "a \<notin> set zs" "set ys \<inter> set zs = {}"
    and d: "dll ?h None ys (Some a)" "oe_prev (?h a) = last_or None ys" "oe_next (?h a) = first_or zs None"
      "dll ?h (Some a) zs None"
    and ends: "os_head sh = first_or (ys @ a # zs) None" "os_tail sh = last_or None (ys @ a # zs)"
    using assms by (auto simp: lru_def dll_append)
  have free: "dll (h(a := e)) p ys n = dll h p ys n" "dll (h(a := e)) p zs n = dll h p zs n" for h e p n
    using dist by (simp_all add: dll_other)
  consider (one) "ys = []" "zs = []"
    | (front) z zs' where "ys = []" "zs = z # zs'"
    | (rear) ys' y where "ys = ys' @ [y]" "zs = []"
    | (mid) ys' y z zs' where "ys = ys' @ [y]" "zs = z # zs'"
    by (metis list.exhaust rev_exhaust)
  then show ?thesis
  proof cases
    case one
    with d ends show ?thesis by (simp add: lru_def detached_def removeLRU_def Let_def)
  next
    case front
    have "dll (?h(z := (?h z)\<lparr>oe_prev := None\<rparr>)) None zs None"
      using dll_set_prev [of z zs' ?h "Some a" None None] d dist front by simp
    with front d ends dist show ?thesis
      by (simp add: lru_def detached_def removeLRU_def Let_def dll_other last_or_def)
  next
    case rear
    have "dll (?h(y := (?h y)\<lparr>oe_next := None\<rparr>)) None ys None"
      using dll_set_next [of ys' y ?h None "Some a" None] d dist rear by simp
    moreover have "a \<noteq> y" using dist rear by auto
    ultimately show ?thesis using rear d ends dist free
      by (simp add: lru_def detached_def removeLRU_def Let_def first_or_append)
  next
    case mid
    let ?h1 = "?h(y := (?h y)\<lparr>oe_next := Some z\<rparr>)"
    have "dll ?h1 None ys (Some z)"
      using dll_set_next [of ys' y ?h None "Some a" "Some z"] d dist mid by simp
    moreover have "z \<notin> set ys" "y \<notin> set zs" "a \<noteq> y" "a \<noteq> z" "y \<noteq> z" using dist mid by auto
    ultimately have one: "dll (?h1(z := (?h1 z)\<lparr>oe_prev := Some y\<rparr>)) None ys (Some z)" by (simp add: dll_other)
    have "dll ?h1 (Some a) zs None" using d \<open>y \<notin> set zs\<close> by (simp add: dll_other)
    then have two: "dll (?h1(z := (?h1 z)\<lparr>oe_prev := Some y\<rparr>)) (Some y) zs None"
      using dll_set_prev [of z zs' ?h1 "Some a" None "Some y"] dist mid by simp
    have "dll (?h1(z := (?h1 z)\<lparr>oe_prev := Some y\<rparr>)) None (ys @ zs) None"
      unfolding dll_append using one two mid by simp
    then show ?thesis
      using mid d ends dist \<open>a \<noteq> y\<close> \<open>a \<noteq> z\<close> \<open>y \<noteq> z\<close>
      by (simp add: lru_def detached_def removeLRU_def Let_def dll_other first_or_append last_or_def)
  qed
qed

text \<open>Removing a node that is in no list cuts the list off: both ends are lost.\<close>

lemma removeLRU_detached:
  "detached sh a \<Longrightarrow> os_head (removeLRU a sh) = None \<and> os_tail (removeLRU a sh) = None"
  by (simp add: removeLRU_def detached_def Let_def)

end
