(* ===== verification/CacheOptimized.thy ===== *)
theory CacheOptimized
  imports LruList GoFloat
begin

unbundle bit_operations_syntax

text \<open>
  The optimized cache (\<open>cache_optimized.go\<close>): shards with a bounded number of entries, evicted from
  the cold end of their list, statistics, and the provider over it. \<open>impl\<close> is the platform's
  conversion of floats that do not fit an integer, \<open>numCPU\<close> is \<open>runtime.NumCPU()\<close>. The padding
  of the Go structs has no counterpart.
\<close>

subsection \<open>Shards\<close>

text \<open>What \<open>Get\<close> makes of a stored entry; the stale window is not among it.\<close>

definition oc_cacheEntry :: "oc_entry \<Rightarrow> CacheEntry" where
  "oc_cacheEntry e =
     \<lparr>ent_Response = None, ent_Body = oe_body e,
      ent_StatusCode = (case oe_response e of None \<Rightarrow> 200 | Some r \<Rightarrow> rs_StatusCode r),
      ent_Header = oe_header e, ent_ExpiresAt = oe_expiresAt e, ent_ETag = oe_etag e,
      ent_LastModified = oe_lastModified e, ent_MaxAge = oe_maxAge e, ent_StaleAt = None,
      ent_IsStale = oe_isStale e\<rparr>"

definition promoteHotEntry :: "nat \<Rightarrow> oc_shard \<Rightarrow> oc_shard" where
  "promoteHotEntry entry sh =
     (if oe_hotPromoted (os_heap sh entry) then sh
      else (let sh = heap_upd entry (\<lambda>e. e\<lparr>oe_hotPromoted := True\<rparr>) sh;
                sh = removeLRU entry sh;
                sh = addToLRU entry sh
            in heap_upd entry (\<lambda>e. e\<lparr>oe_hotPromoted := False\<rparr>) sh))"

text \<open>What \<open>Get\<close> does with an expired entry once it has the write lock.\<close>

definition os_expire :: "string \<Rightarrow> nat \<Rightarrow> oc_shard \<Rightarrow> oc_shard" where
  "os_expire key entry sh = removeLRU entry (sh\<lparr>os_store := (os_store sh)(key := None)\<rparr>)"

definition os_Get :: "int \<Rightarrow> string \<Rightarrow> oc_shard \<Rightarrow> CacheEntry option \<times> oc_shard" where
  "os_Get now key sh =
     (case os_store sh key of
        None \<Rightarrow> (None, sh\<lparr>os_misses := add64 (os_misses sh) 1\<rparr>)
      | Some a \<Rightarrow>
          if now > oe_expiresAt (os_heap sh a) then
            (let sh = os_expire key a sh in (None, sh\<lparr>os_misses := add64 (os_misses sh) 1\<rparr>))
          else
            (let sh = heap_upd a (\<lambda>e. e\<lparr>oe_accessCount := add64 (oe_accessCount e) 1, oe_lastAccess := now\<rparr>) sh;
                 cacheEntry = oc_cacheEntry (os_heap sh a);
                 sh = (if oe_accessCount (os_heap sh a) smod 10 = 0 then promoteHotEntry a sh else sh)
             in (Some cacheEntry, sh\<lparr>os_hits := add64 (os_hits sh) 1\<rparr>)))"

text \<open>\<open>int64(float64(maxSize) * EvictionThreshold)\<close>.\<close>

definition EvictionThreshold :: float64 where
  "EvictionThreshold = flt (85 / 100)"

definition evict_at :: "(float64 \<Rightarrow> int) \<Rightarrow> oc_shard \<Rightarrow> int" where
  "evict_at impl sh = f_to_int64 impl (f_of_int (os_maxSize sh) * EvictionThreshold)"

definition oc_newEntry :: "int \<Rightarrow> string \<Rightarrow> CacheEntry \<Rightarrow> int \<Rightarrow> oc_entry" where
  "oc_newEntry now key entry ttl =
     \<lparr>oe_key = key,
      oe_response = (case ent_Response entry of
          Some r \<Rightarrow> Some r
        | None \<Rightarrow> Some \<lparr>rs_StatusCode = ent_StatusCode entry, rs_Header = ent_Header entry,
                       rs_Body = NilBody, rs_Request = None\<rparr>),
      oe_body = ent_Body entry, oe_header = ent_Header entry, oe_expiresAt = i64 (now + ttl),
      oe_etag = ent_ETag entry, oe_lastModified = ent_LastModified entry, oe_maxAge = ent_MaxAge entry,
      oe_staleAt = (case ent_StaleAt entry of Some t \<Rightarrow> i64 t | None \<Rightarrow> 0), oe_isStale = False,
      oe_prev = None, oe_next = None, oe_accessCount = 1, oe_lastAccess = i64 now, oe_hotPromoted = False\<rparr>"

definition os_drop :: "string \<Rightarrow> oc_shard \<Rightarrow> oc_shard" where
  "os_drop key sh =
     (case os_store sh key of
        None \<Rightarrow> sh
      | Some existing \<Rightarrow> (let sh = removeLRU existing sh in sh\<lparr>os_size := sub64 (os_size sh) 1\<rparr>))"

definition os_insert :: "string \<Rightarrow> oc_entry \<Rightarrow> oc_shard \<Rightarrow> oc_shard" where
  "os_insert key e sh =
     (let a = os_fresh sh;
          sh = (heap_upd a (\<lambda>_. e) sh)\<lparr>os_fresh := a + 1, os_store := (os_store sh)(key \<mapsto> a)\<rparr>;
          sh = addToLRU a sh
      in sh\<lparr>os_size := add64 (os_size sh) 1\<rparr>)"

text \<open>The result says whether an entry was evicted.\<close>

definition os_Set :: "(float64 \<Rightarrow> int) \<Rightarrow> int \<Rightarrow> string \<Rightarrow> CacheEntry \<Rightarrow> int \<Rightarrow> oc_shard \<Rightarrow> bool \<times> oc_shard" where
  "os_Set impl now key entry ttl sh =
     (let (evicted, sh) = (if os_size sh \<ge> evict_at impl sh then evictLRU sh else (False, sh))
      in (evicted, os_insert key (oc_newEntry now key entry ttl) (os_drop key sh)))"

definition os_Delete :: "string \<Rightarrow> oc_shard \<Rightarrow> oc_shard" where
  "os_Delete key sh =
     (case os_store sh key of
        None \<Rightarrow> sh
      | Some a \<Rightarrow>
          (let sh = removeLRU a (sh\<lparr>os_store := (os_store sh)(key := None)\<rparr>)
           in sh\<lparr>os_size := sub64 (os_size sh) 1\<rparr>))"

definition os_Clear :: "oc_shard \<Rightarrow> oc_shard" where
  "os_Clear sh = sh\<lparr>os_store := Map.empty, os_head := None, os_tail := None, os_size := 0\<rparr>"

subsection \<open>The cache\<close>

record OptimizedCache =
  oc_shards :: "oc_shard list"
  oc_numShards :: int
  oc_shardMask :: int
  oc_totalHits :: int
  oc_totalMisses :: int
  oc_totalSets :: int
  oc_totalEvictions :: int

definition nextPowerOf2 :: "int \<Rightarrow> int" where
  "nextPowerOf2 n =
     (if n \<le> 1 then 1
      else (let n = sub64 n 1;
                n = n OR drop_bit 1 n;
                n = n OR drop_bit 2 n;
                n = n OR drop_bit 4 n;
                n = n OR drop_bit 8 n;
                n = n OR drop_bit 16 n
            in add64 n 1))"

definition new_shard :: "int \<Rightarrow> oc_shard" where
  "new_shard maxSizePerShard =
     \<lparr>os_store = Map.empty, os_heap = \<lambda>_. oc_newEntry 0 [] \<lparr>ent_Response = None, ent_Body = [],
        ent_StatusCode = 0, ent_Header = Map.empty, ent_ExpiresAt = 0, ent_ETag = [], ent_LastModified = None,
        ent_MaxAge = None, ent_StaleAt = None, ent_IsStale = False\<rparr> 0,
      os_fresh = 0, os_head = None, os_tail = None, os_hits = 0, os_misses = 0, os_evictions = 0,
      os_size = 0, os_maxSize = maxSizePerShard\<rparr>"

definition NewOptimizedCacheWithSize :: "int \<Rightarrow> int \<Rightarrow> int \<Rightarrow> OptimizedCache" where
  "NewOptimizedCacheWithSize numCPU shardCount maxSizePerShard =
     (let shardCount = (if shardCount \<le> 0 then mul64 numCPU 2 else shardCount);
          maxSizePerShard = (if maxSizePerShard \<le> 0 then 1000 else maxSizePerShard);
          shardCount = nextPowerOf2 shardCount
      in \<lparr>oc_shards = replicate (nat shardCount) (new_shard maxSizePerShard), oc_numShards = shardCount,
          oc_shardMask = sub64 shardCount 1, oc_totalHits = 0, oc_totalMisses = 0, oc_totalSets = 0,
          oc_totalEvictions = 0\<rparr>)"

definition NewOptimizedCache :: "int \<Rightarrow> OptimizedCache" where
  "NewOptimizedCache numCPU = NewOptimizedCacheWithSize numCPU 64 1000"

text \<open>\<open>fnv.New64a\<close> over the bytes of the key.\<close>

definition fnv64a :: "string \<Rightarrow> 64 word" where
  "fnv64a s = fold (\<lambda>c h. (h XOR word_of_nat (of_char c)) * 1099511628211) s 14695981039346656037"

definition oc_getShard :: "OptimizedCache \<Rightarrow> string \<Rightarrow> nat" where
  "oc_getShard c key = unat (fnv64a key AND word_of_int (oc_shardMask c))"

definition oc_Get :: "int \<Rightarrow> string \<Rightarrow> OptimizedCache \<Rightarrow> CacheEntry option \<times> OptimizedCache" where
  "oc_Get now key c =
     (let i = oc_getShard c key;
          (r, sh) = os_Get now key (oc_shards c ! i);
          c = c\<lparr>oc_shards := (oc_shards c)[i := sh]\<rparr>
      in if r = None then (r, c\<lparr>oc_totalMisses := add64 (oc_totalMisses c) 1\<rparr>)
         else (r, c\<lparr>oc_totalHits := add64 (oc_totalHits c) 1\<rparr>))"

definition oc_Set :: "(float64 \<Rightarrow> int) \<Rightarrow> int \<Rightarrow> string \<Rightarrow> CacheEntry \<Rightarrow> int \<Rightarrow> OptimizedCache \<Rightarrow> OptimizedCache" where
  "oc_Set impl now key entry ttl c =
     (let i = oc_getShard c key;
          (evicted, sh) = os_Set impl now key entry ttl (oc_shards c ! i)
      in c\<lparr>oc_shards := (oc_shards c)[i := sh],
           oc_totalEvictions := (if evicted then add64 (oc_totalEvictions c) 1 else oc_totalEvictions c),
           oc_totalSets := add64 (oc_totalSets c) 1\<rparr>)"

definition oc_Delete :: "string \<Rightarrow> OptimizedCache \<Rightarrow> OptimizedCache" where
  "oc_Delete key c =
     (let i = oc_getShard c key in c\<lparr>oc_shards := (oc_shards c)[i := os_Delete key (oc_shards c ! i)]\<rparr>)"

definition oc_Clear :: "OptimizedCache \<Rightarrow> OptimizedCache" where
  "oc_Clear c = c\<lparr>oc_shards := map os_Clear (oc_shards c), oc_totalHits := 0, oc_totalMisses := 0,
     oc_totalSets := 0, oc_totalEvictions := 0\<rparr>"

subsection \<open>Statistics\<close>

record ShardStats =
  ss_Size :: int
  ss_Capacity :: int
  ss_Hits :: int
  ss_Misses :: int
  ss_Evictions :: int

record CacheStats =
  cs_TotalSize :: int
  cs_TotalCapacity :: int
  cs_TotalHits :: int
  cs_TotalMisses :: int
  cs_TotalSets :: int
  cs_TotalEvictions :: int
  cs_HitRatio :: float64
  cs_ShardCount :: int
  cs_ShardStats :: "ShardStats list"

definition oc_GetStats :: "OptimizedCache \<Rightarrow> CacheStats" where
  "oc_GetStats c =
     (let totalSize = fold (\<lambda>sh n. add64 n (os_size sh)) (oc_shards c) 0;
          totalCapacity = fold (\<lambda>sh n. add64 n (os_maxSize sh)) (oc_shards c) 0;
          total = add64 (oc_totalHits c) (oc_totalMisses c);
          hitRatio = (if total > 0 then f_quotient (f_of_int (oc_totalHits c)) (f_of_int total) else 0)
      in \<lparr>cs_TotalSize = totalSize, cs_TotalCapacity = totalCapacity, cs_TotalHits = oc_totalHits c,
          cs_TotalMisses = oc_totalMisses c, cs_TotalSets = oc_totalSets c,
          cs_TotalEvictions = oc_totalEvictions c, cs_HitRatio = hitRatio,
          cs_ShardCount = int (length (oc_shards c)),
          cs_ShardStats = map (\<lambda>sh. \<lparr>ss_Size = os_size sh, ss_Capacity = os_maxSize sh, ss_Hits = os_hits sh,
             ss_Misses = os_misses sh, ss_Evictions = os_evictions sh\<rparr>) (oc_shards c)\<rparr>)"

subsection \<open>The provider over it\<close>

text \<open>A cached response is given no body, and none is stored.\<close>

definition ocp_Get :: "int \<Rightarrow> string \<Rightarrow> OptimizedCache \<Rightarrow> response option \<times> OptimizedCache" where
  "ocp_Get now key c =
     (case oc_Get now key c of
        (None, c) \<Rightarrow> (None, c)
      | (Some entry, c) \<Rightarrow>
          (Some \<lparr>rs_StatusCode = ent_StatusCode entry, rs_Header = ent_Header entry,
                 rs_Body = NilBody, rs_Request = None\<rparr>, c))"

definition ocp_Set :: "(float64 \<Rightarrow> int) \<Rightarrow> int \<Rightarrow> int \<Rightarrow> string \<Rightarrow> response \<Rightarrow> int \<Rightarrow> OptimizedCache \<Rightarrow> OptimizedCache" where
  "ocp_Set impl defaultTTL now key resp ttl c =
     (let ttl = (if ttl \<le> 0 then defaultTTL else ttl);
          entry = \<lparr>ent_Response = None, ent_Body = [], ent_StatusCode = rs_StatusCode resp,
            ent_Header = rs_Header resp, ent_ExpiresAt = zero_time, ent_ETag = [], ent_LastModified = None,
            ent_MaxAge = None, ent_StaleAt = None, ent_IsStale = False\<rparr>
      in oc_Set impl now key entry ttl c)"

definition ocp_Invalidate :: "string \<Rightarrow> OptimizedCache \<Rightarrow> OptimizedCache" where
  "ocp_Invalidate key c = oc_Delete key c"

end
