(* ===== verification/HttpCache.thy ===== *)
theory HttpCache
  imports Cache
begin

text \<open>
  HTTP cache semantics (\<open>http_cache.go\<close>): the directives of \<open>Cache-Control\<close>, when a response
  expires, when an entry must be revalidated and with which conditional headers. The layouts of
  \<open>time.Parse\<close> and \<open>Time.Format\<close> are the parameter \<open>time_formats\<close>.
\<close>

record time_formats =
  parse_RFC1123 :: "string \<Rightarrow> int option"
  parse_RFC850 :: "string \<Rightarrow> int option"
  parse_ANSIC :: "string \<Rightarrow> int option"
  format_RFC1123 :: "int \<Rightarrow> string"

subsection \<open>Directives\<close>

record CacheDirectives =
  NoStore :: bool
  NoCache :: bool
  MaxAge :: "int option"
  SMaxAge :: "int option"
  StaleWhileRevalidate :: "int option"
  MustRevalidate :: bool
  Public :: bool
  Private :: bool

definition no_directives :: CacheDirectives where
  "no_directives = \<lparr>NoStore = False, NoCache = False, MaxAge = None, SMaxAge = None,
     StaleWhileRevalidate = None, MustRevalidate = False, Public = False, Private = False\<rparr>"

text \<open>The seconds of a directive as a duration: a 64-bit product.\<close>

definition directive_seconds :: "string \<Rightarrow> int option" where
  "directive_seconds value = map_option (\<lambda>seconds. mul64 seconds Second) (atoi value)"

text \<open>One round of the loop: \<open>part\<close> is a piece of the header between commas.\<close>

definition parse_part :: "string \<Rightarrow> CacheDirectives \<Rightarrow> CacheDirectives" where
  "parse_part part0 d =
     (let part = trim_space part0
      in if part = [] then d
         else if CHR ''='' \<in> set part then
           (case splitN2 (CHR ''='') part of
              [k, v] \<Rightarrow>
                (let key = trim_space k; value = trim_char (CHR 0x22) (trim_space v)
                 in if key = ''max-age'' then
                      (case directive_seconds value of Some t \<Rightarrow> d\<lparr>MaxAge := Some t\<rparr> | None \<Rightarrow> d)
                    else if key = ''s-maxage'' then
                      (case directive_seconds value of Some t \<Rightarrow> d\<lparr>SMaxAge := Some t\<rparr> | None \<Rightarrow> d)
                    else if key = ''stale-while-revalidate'' then
                      (case directive_seconds value of Some t \<Rightarrow> d\<lparr>StaleWhileRevalidate := Some t\<rparr> | None \<Rightarrow> d)
                    else d)
            | _ \<Rightarrow> d)
         else if part = ''no-store'' then d\<lparr>NoStore := True\<rparr>
         else if part = ''no-cache'' then d\<lparr>NoCache := True\<rparr>
         else if part = ''must-revalidate'' then d\<lparr>MustRevalidate := True\<rparr>
         else if part = ''public'' then d\<lparr>Public := True\<rparr>
         else if part = ''private'' then d\<lparr>Private := True\<rparr>
         else d)"

definition parseCacheControl :: "string \<Rightarrow> CacheDirectives" where
  "parseCacheControl header =
     (if header = [] then no_directives
      else fold parse_part (split_on (CHR '','') header) no_directives)"

subsection \<open>Dates\<close>

definition parseExpires :: "time_formats \<Rightarrow> string \<Rightarrow> int option" where
  "parseExpires tf header =
     (if header = [] then None
      else (case parse_RFC1123 tf header of
              Some t \<Rightarrow> Some t
            | None \<Rightarrow>
                (case parse_RFC850 tf header of
                   Some t \<Rightarrow> Some t
                 | None \<Rightarrow> (case parse_ANSIC tf header of Some t \<Rightarrow> Some t | None \<Rightarrow> None))))"

definition parseLastModified :: "time_formats \<Rightarrow> string \<Rightarrow> int option" where
  "parseLastModified tf header =
     (if header = [] then None
      else (case parse_RFC1123 tf header of
              Some t \<Rightarrow> Some t
            | None \<Rightarrow>
                (case parse_RFC850 tf header of
                   Some t \<Rightarrow> Some t
                 | None \<Rightarrow> (case parse_ANSIC tf header of Some t \<Rightarrow> Some t | None \<Rightarrow> None))))"

subsection \<open>Expiry and revalidation\<close>

definition calculateCacheExpiry :: "time_formats \<Rightarrow> response \<Rightarrow> int \<Rightarrow> int \<times> bool" where
  "calculateCacheExpiry tf resp receivedAt =
     (let cacheControl = parseCacheControl (header_get (rs_Header resp) ''Cache-Control'')
      in if NoStore cacheControl \<or> NoCache cacheControl then (zero_time, False)
         else (case MaxAge cacheControl of
                 Some maxAge \<Rightarrow> (receivedAt + maxAge, True)
               | None \<Rightarrow>
                   (case parseExpires tf (header_get (rs_Header resp) ''Expires'') of
                      Some expiresTime \<Rightarrow> (expiresTime, True)
                    | None \<Rightarrow> (zero_time, False))))"

definition shouldRevalidate :: "int \<Rightarrow> CacheEntry \<Rightarrow> CacheDirectives option \<Rightarrow> bool" where
  "shouldRevalidate now entry cacheControl =
     (case cacheControl of
        None \<Rightarrow> False
      | Some cc \<Rightarrow> if NoCache cc \<or> MustRevalidate cc then True else now > ent_ExpiresAt entry)"

definition addConditionalHeaders :: "time_formats \<Rightarrow> request \<Rightarrow> CacheEntry \<Rightarrow> request" where
  "addConditionalHeaders tf req entry =
     (let req = (if ent_ETag entry \<noteq> []
                 then req\<lparr>rq_Header := header_set ''If-None-Match'' (ent_ETag entry) (rq_Header req)\<rparr> else req)
      in case ent_LastModified entry of
           None \<Rightarrow> req
         | Some t \<Rightarrow> req\<lparr>rq_Header := header_set ''If-Modified-Since'' (format_RFC1123 tf t) (rq_Header req)\<rparr>)"

definition isNotModified :: "response \<Rightarrow> bool" where
  "isNotModified resp \<longleftrightarrow> rs_StatusCode resp = 304"

definition createEnhancedCacheEntry :: "time_formats \<Rightarrow> response \<Rightarrow> string \<Rightarrow> int \<Rightarrow> CacheEntry" where
  "createEnhancedCacheEntry tf resp body receivedAt =
     (let entry = \<lparr>ent_Response = Some resp, ent_Body = body, ent_StatusCode = rs_StatusCode resp,
            ent_Header = rs_Header resp, ent_ExpiresAt = zero_time, ent_ETag = [], ent_LastModified = None,
            ent_MaxAge = None, ent_StaleAt = None, ent_IsStale = False\<rparr>;
          etag = header_get (rs_Header resp) ''ETag'';
          entry = (if etag \<noteq> [] then entry\<lparr>ent_ETag := etag\<rparr> else entry);
          entry = entry\<lparr>ent_LastModified := parseLastModified tf (header_get (rs_Header resp) ''Last-Modified'')\<rparr>
      in case calculateCacheExpiry tf resp receivedAt of
           (expiryTime, shouldCache) \<Rightarrow>
             if shouldCache then
               (let entry = entry\<lparr>ent_ExpiresAt := expiryTime\<rparr>;
                    cacheControl = parseCacheControl (header_get (rs_Header resp) ''Cache-Control'');
                    entry = (case StaleWhileRevalidate cacheControl of
                               Some swr \<Rightarrow> entry\<lparr>ent_StaleAt := Some (expiryTime + swr)\<rparr>
                             | None \<Rightarrow> entry)
                in case MaxAge cacheControl of
                     Some maxAge \<Rightarrow> entry\<lparr>ent_MaxAge := Some maxAge\<rparr>
                   | None \<Rightarrow> entry)
             else entry)"

subsection \<open>Printed directives\<close>

datatype directive =
  DNoStore | DNoCache | DMustRevalidate | DPublic | DPrivate
| DMaxAge int | DSMaxAge int | DStaleWhileRevalidate int

fun print_directive :: "directive \<Rightarrow> string" where
  "print_directive DNoStore = ''no-store''"
| "print_directive DNoCache = ''no-cache''"
| "print_directive DMustRevalidate = ''must-revalidate''"
| "print_directive DPublic = ''public''"
| "print_directive DPrivate = ''private''"
| "print_directive (DMaxAge n) = ''max-age='' @ itoa n"
| "print_directive (DSMaxAge n) = ''s-maxage='' @ itoa n"
| "print_directive (DStaleWhileRevalidate n) = ''stale-while-revalidate='' @ itoa n"

fun print_directives :: "directive list \<Rightarrow> string" where
  "print_directives [] = []"
| "print_directives [d] = print_directive d"
| "print_directives (d # ds) = print_directive d @ '', '' @ print_directives ds"

fun apply_directive :: "directive \<Rightarrow> CacheDirectives \<Rightarrow> CacheDirectives" where
  "apply_directive DNoStore d = d\<lparr>NoStore := True\<rparr>"
| "apply_directive DNoCache d = d\<lparr>NoCache := True\<rparr>"
| "apply_directive DMustRevalidate d = d\<lparr>MustRevalidate := True\<rparr>"
| "apply_directive DPublic d = d\<lparr>Public := True\<rparr>"
| "apply_directive DPrivate d = d\<lparr>Private := True\<rparr>"
| "apply_directive (DMaxAge n) d = d\<lparr>MaxAge := Some (n * Second)\<rparr>"
| "apply_directive (DSMaxAge n) d = d\<lparr>SMaxAge := Some (n * Second)\<rparr>"
| "apply_directive (DStaleWhileRevalidate n) d = d\<lparr>StaleWhileRevalidate := Some (n * Second)\<rparr>"

fun directive_ok :: "directive \<Rightarrow> bool" where
  "directive_ok (DMaxAge n) = in64 (n * Second)"
| "directive_ok (DSMaxAge n) = in64 (n * Second)"
| "directive_ok (DStaleWhileRevalidate n) = in64 (n * Second)"
| "directive_ok _ = True"

lemma print_directive_chars:
  "print_directive d \<noteq> []" "visible (hd (print_directive d))" "visible (last (print_directive d))"
  "CHR '','' \<notin> set (print_directive d)"
proof -
  have "CHR '','' \<notin> set (itoa n)" for n by (rule itoa_free_of) (simp_all add: digit_val_def)
  then show "CHR '','' \<notin> set (print_directive d)" by (cases d) simp_all
  show "print_directive d \<noteq> []" "visible (hd (print_directive d))" by (cases d; simp add: visible_def)+
  have "visible (last (itoa n))" for n by (simp add: itoa_visible [OF last_in_set])
  then show "visible (last (print_directive d))" by (cases d) (simp_all add: visible_def)
qed

lemma directive_seconds_itoa: "in64 (n * Second) \<Longrightarrow> directive_seconds (itoa n) = Some (n * Second)"
proof -
  assume n: "in64 (n * Second)"
  then have "in64 n" by (simp add: in64_def duration_defs)
  with n show ?thesis by (simp add: directive_seconds_def atoi_itoa mul64_exact)
qed

lemma trimmed_keys:
  "trim_space ''max-age'' = ''max-age''" "trim_space ''s-maxage'' = ''s-maxage''"
  "trim_space ''stale-while-revalidate'' = ''stale-while-revalidate''"
  by (rule trim_space_visible; simp add: visible_def)+

lemma trim_value: "trim_char (CHR 0x22) (trim_space (itoa n)) = itoa n"
  by (simp add: trim_space_itoa_any trim_char_id itoa_free_of digit_val_def)

lemma parse_part_trimmed: "trim_space part = trim_space part' \<Longrightarrow> parse_part part d = parse_part part' d"
  by (simp only: parse_part_def)

lemma parse_part_print:
  assumes "directive_ok dir"
  shows "parse_part (print_directive dir) d = apply_directive dir d"
proof -
  have t: "trim_space (print_directive dir) = print_directive dir"
    by (rule trim_space_visible [OF print_directive_chars(1-3)])
  show ?thesis
    using assms t by (cases dir) (simp_all add: parse_part_def splitN2_def trimmed_keys trim_value directive_seconds_itoa)
qed

lemma parse_part_print_spaced:
  "directive_ok dir \<Longrightarrow> parse_part (CHR '' '' # print_directive dir) d = apply_directive dir d"
  using parse_part_trimmed [OF trim_space_space] parse_part_print by metis

lemma split_print_directives:
  "ds \<noteq> [] \<Longrightarrow> split_on (CHR '','') (print_directives ds) =
    print_directive (hd ds) # map (\<lambda>d. CHR '' '' # print_directive d) (tl ds)"
proof (induction ds rule: print_directives.induct)
  case (3 d d' ds)
  have "split_on (CHR '','') (CHR '' '' # print_directives (d' # ds)) =
      (CHR '' '' # print_directive d') # map (\<lambda>d. CHR '' '' # print_directive d) ds"
    using 3 by simp
  then show ?case
    using split_on_append [OF print_directive_chars(4), of d "CHR '' '' # print_directives (d' # ds)"]
    by simp
qed (simp_all add: split_on_none print_directive_chars(4))

lemma parse_print_directives:
  assumes "\<forall>d \<in> set ds. directive_ok d"
  shows "parseCacheControl (print_directives ds) = fold apply_directive ds no_directives"
proof (cases ds)
  case Nil
  then show ?thesis by (simp add: parseCacheControl_def)
next
  case (Cons d ds')
  have ne: "print_directives ds \<noteq> []"
    using print_directive_chars(1) [of d] Cons by (cases ds') auto
  have "fold parse_part (map (\<lambda>d. CHR '' '' # print_directive d) xs) a = fold apply_directive xs a"
    if "\<forall>d \<in> set xs. directive_ok d" for xs a
    using that by (induction xs arbitrary: a) (simp_all add: parse_part_print_spaced)
  then show ?thesis
    using split_print_directives [of ds] Cons assms ne by (simp add: parseCacheControl_def parse_part_print)
qed

text \<open>What a list of directives says, read off the list.\<close>

fun max_ages :: "directive list \<Rightarrow> int list" where
  "max_ages [] = []"
| "max_ages (d # ds) = (case d of DMaxAge n \<Rightarrow> n # max_ages ds | _ \<Rightarrow> max_ages ds)"

lemma fold_no_store: "NoStore (fold apply_directive ds d) \<longleftrightarrow> NoStore d \<or> DNoStore \<in> set ds"
proof (induction ds arbitrary: d)
  case (Cons a ds)
  then show ?case by (cases a) auto
qed simp

lemma fold_no_cache: "NoCache (fold apply_directive ds d) \<longleftrightarrow> NoCache d \<or> DNoCache \<in> set ds"
proof (induction ds arbitrary: d)
  case (Cons a ds)
  then show ?case by (cases a) auto
qed simp

lemma fold_must_revalidate:
  "MustRevalidate (fold apply_directive ds d) \<longleftrightarrow> MustRevalidate d \<or> DMustRevalidate \<in> set ds"
proof (induction ds arbitrary: d)
  case (Cons a ds)
  then show ?case by (cases a) auto
qed simp

lemma fold_max_age:
  "MaxAge (fold apply_directive ds d) =
    (if max_ages ds = [] then MaxAge d else Some (last (max_ages ds) * Second))"
proof (induction ds arbitrary: d)
  case (Cons a ds)
  then show ?case by (cases a) auto
qed simp

lemmas fold_directives = fold_no_store fold_no_cache fold_must_revalidate fold_max_age

subsection \<open>Properties\<close>

text \<open>
  C24. Every list of the known directives, printed as servers write it, is parsed back to what it
  says, with later values overriding earlier ones, as long as its seconds fit a duration
  (292 years); beyond that the product wraps around.
\<close>

theorem cache_control_roundtrip:
  assumes "\<forall>d \<in> set ds. directive_ok d"
  shows "parseCacheControl (print_directives ds) = fold apply_directive ds no_directives"
  by (rule parse_print_directives [OF assms])

lemma cache_control_roundtrip_witness:
  "parseCacheControl (print_directives [DPublic, DMaxAge 60, DStaleWhileRevalidate 30, DMustRevalidate]) =
    no_directives\<lparr>Public := True, MaxAge := Some (60 * Second),
      StaleWhileRevalidate := Some (30 * Second), MustRevalidate := True\<rparr>"
  by (subst cache_control_roundtrip) (simp_all add: in64_def duration_defs no_directives_def)

text \<open>
  C30. When a response expires: never by its headers if they hold \<open>no-store\<close> or \<open>no-cache\<close>, else
  the last \<open>max-age\<close> after it was received, and only without one at its \<open>Expires\<close> date; the entry
  made of it carries that expiry, its validators and the end of its stale window, and the zero
  time, not a refusal, where there is no expiry.
\<close>

theorem response_expiry:
  fixes tf :: time_formats and body :: string and receivedAt :: int
  assumes "\<forall>d \<in> set ds. directive_ok d"
    and "header_get (rs_Header resp) ''Cache-Control'' = print_directives ds"
  defines "e \<equiv> createEnhancedCacheEntry tf resp body receivedAt"
  shows "ent_ExpiresAt e =
      (if DNoStore \<in> set ds \<or> DNoCache \<in> set ds then zero_time
       else if max_ages ds \<noteq> [] then receivedAt + last (max_ages ds) * Second
       else case parseExpires tf (header_get (rs_Header resp) ''Expires'') of Some t \<Rightarrow> t | None \<Rightarrow> zero_time)
    \<and> calculateCacheExpiry tf resp receivedAt =
      (ent_ExpiresAt e, \<not> (DNoStore \<in> set ds \<or> DNoCache \<in> set ds) \<and>
         (max_ages ds \<noteq> [] \<or> parseExpires tf (header_get (rs_Header resp) ''Expires'') \<noteq> None))
    \<and> ent_ETag e = header_get (rs_Header resp) ''ETag''
    \<and> ent_LastModified e = parseLastModified tf (header_get (rs_Header resp) ''Last-Modified'')
    \<and> (ent_StaleAt e \<noteq> None \<longrightarrow> snd (calculateCacheExpiry tf resp receivedAt))"
proof -
  note p = parse_print_directives [OF assms(1)]
  have "calculateCacheExpiry tf resp receivedAt =
      (if DNoStore \<in> set ds \<or> DNoCache \<in> set ds then (zero_time, False)
       else if max_ages ds \<noteq> [] then (receivedAt + last (max_ages ds) * Second, True)
       else case parseExpires tf (header_get (rs_Header resp) ''Expires'') of
         Some t \<Rightarrow> (t, True) | None \<Rightarrow> (zero_time, False))"
    by (simp add: calculateCacheExpiry_def assms(2) p fold_directives no_directives_def Let_def)
  then show ?thesis
    by (auto simp: e_def createEnhancedCacheEntry_def Let_def split: option.splits)
qed

definition headed_response :: "string \<Rightarrow> response" where
  "headed_response cacheControl = \<lparr>rs_StatusCode = 200,
     rs_Header = header_set ''Cache-Control'' cacheControl Map.empty, rs_Body = Reader ''hi'' True, rs_Request = None\<rparr>"

definition no_formats :: time_formats where
  "no_formats = \<lparr>parse_RFC1123 = \<lambda>_. None, parse_RFC850 = \<lambda>_. None, parse_ANSIC = \<lambda>_. None, format_RFC1123 = \<lambda>_. []\<rparr>"

lemma response_expiry_witness:
  "ent_ExpiresAt (createEnhancedCacheEntry no_formats (headed_response (print_directives [DMaxAge 60])) ''hi'' 5) = 5 + 60 * Second
   \<and> ent_ExpiresAt (createEnhancedCacheEntry no_formats (headed_response (print_directives [DMaxAge 60, DNoStore])) ''hi'' 5) = zero_time"
  using response_expiry [of "[DMaxAge 60]" "headed_response (print_directives [DMaxAge 60])" no_formats "''hi''" 5]
    response_expiry [of "[DMaxAge 60, DNoStore]" "headed_response (print_directives [DMaxAge 60, DNoStore])" no_formats "''hi''" 5]
  by (simp add: headed_response_def in64_def duration_defs)

text \<open>
  Revalidation asks the server with the validators the response came with: the request gets
  \<open>If-None-Match\<close> with the stored \<open>ETag\<close> and \<open>If-Modified-Since\<close> with the stored date, and keeps
  every other header. An entry whose \<open>Cache-Control\<close> says \<open>no-cache\<close> or \<open>must-revalidate\<close> is
  revalidated even while it is fresh, others once they have expired.
\<close>

theorem conditional_request:
  assumes "\<forall>d \<in> set ds. directive_ok d" and "ent_ETag entry \<noteq> []" and "ent_LastModified entry = Some t"
    and "canonical_key k \<notin> {canonical_key ''If-None-Match'', canonical_key ''If-Modified-Since''}"
  shows "header_get (rq_Header (addConditionalHeaders tf req entry)) ''If-None-Match'' = ent_ETag entry
    \<and> header_get (rq_Header (addConditionalHeaders tf req entry)) ''If-Modified-Since'' = format_RFC1123 tf t
    \<and> header_get (rq_Header (addConditionalHeaders tf req entry)) k = header_get (rq_Header req) k
    \<and> (shouldRevalidate now entry (Some (parseCacheControl (print_directives ds))) \<longleftrightarrow>
        DNoCache \<in> set ds \<or> DMustRevalidate \<in> set ds \<or> ent_ExpiresAt entry < now)"
proof -
  have "canonical_key ''If-None-Match'' \<noteq> canonical_key ''If-Modified-Since''" by code_simp
  then show ?thesis
    using assms(2-) by (auto simp: addConditionalHeaders_def Let_def shouldRevalidate_def
        parse_print_directives [OF assms(1)] fold_directives no_directives_def)
qed

lemma conditional_request_witness:
  "header_get (rq_Header (addConditionalHeaders no_formats example_request
      ((plain_entry [])\<lparr>ent_ETag := ''v1'', ent_LastModified := Some 0\<rparr>))) ''If-None-Match'' = ''v1''
   \<and> shouldRevalidate 0 (plain_entry []\<lparr>ent_ETag := ''v1'', ent_LastModified := Some 0, ent_ExpiresAt := 9\<rparr>)
      (Some (parseCacheControl (print_directives [DMustRevalidate])))"
proof -
  have k: "canonical_key ''Accept'' \<notin> {canonical_key ''If-None-Match'', canonical_key ''If-Modified-Since''}"
    by code_simp
  let ?e = "(plain_entry [])\<lparr>ent_ETag := ''v1'', ent_LastModified := Some 0\<rparr>"
  show ?thesis
    using conditional_request [of "[DMustRevalidate]" ?e 0 "''Accept''" no_formats example_request 0]
      conditional_request [of "[DMustRevalidate]" "?e\<lparr>ent_ExpiresAt := 9\<rparr>" 0 "''Accept''" no_formats example_request 0] k
    by simp
qed

end
