(* ===== verification/CacheProvider.thy ===== *)
theory CacheProvider
  imports HttpCache
begin

text \<open>
  The cache providers of \<open>cache_provider.go\<close>: what lies between the client and a \<open>Cache\<close> and
  decides what is stored, for how long, and what is served. The operations of the cache below
  are arguments (\<open>get\<close>, \<open>set_entry\<close>, \<open>delete\<close>), its state is threaded through. An entry that \<open>Get\<close>
  returns may be the very object the cache holds; \<open>mark\<close> is what writing \<open>IsStale\<close> to it does to
  the cache. The context argument of the methods is not used by the code.
\<close>

type_synonym 'c get_op = "int \<Rightarrow> string \<Rightarrow> 'c \<Rightarrow> CacheEntry option \<times> 'c"
type_synonym 'c set_op = "int \<Rightarrow> string \<Rightarrow> CacheEntry \<Rightarrow> int \<Rightarrow> 'c \<Rightarrow> 'c"

text \<open>The modes of \<open>types.go\<close>.\<close>

definition TTLOnly :: int where "TTLOnly = 0"
definition HTTPSemantics :: int where "HTTPSemantics = 1"
definition SWR :: int where "SWR = 2"

lemmas mode_defs = TTLOnly_def HTTPSemantics_def SWR_def

text \<open>
  The part both \<open>Set\<close> methods begin with: the body is read to its end and put back, a nil body is
  left alone. The results are the bytes (\<open>None\<close> on a read error) and the response afterwards.
\<close>

definition take_body :: "response \<Rightarrow> string option \<times> response" where
  "take_body resp =
     (case rs_Body resp of
        NilBody \<Rightarrow> (Some [], resp)
      | b \<Rightarrow> (case read_all b of
                (None, rest) \<Rightarrow> (None, resp\<lparr>rs_Body := rest\<rparr>)
              | (Some body, _) \<Rightarrow> (Some body, resp\<lparr>rs_Body := Reader body True\<rparr>)))"

subsection \<open>The default provider\<close>

definition dcp_Get :: "'c get_op \<Rightarrow> int \<Rightarrow> string \<Rightarrow> 'c \<Rightarrow> response option \<times> 'c" where
  "dcp_Get get now key c =
     (case get now key c of
        (None, c') \<Rightarrow> (None, c')
      | (Some entry, c') \<Rightarrow>
          (Some \<lparr>rs_StatusCode = ent_StatusCode entry, rs_Header = ent_Header entry,
                 rs_Body = Reader (ent_Body entry) True, rs_Request = None\<rparr>, c'))"

text \<open>\<open>default_ttl\<close> is the field \<open>ttl\<close> of the provider.\<close>

definition dcp_Set :: "'c set_op \<Rightarrow> int \<Rightarrow> int \<Rightarrow> string \<Rightarrow> response \<Rightarrow> int \<Rightarrow> 'c \<Rightarrow> response \<times> 'c" where
  "dcp_Set set_entry default_ttl now key resp ttl c =
     (case take_body resp of
        (None, resp) \<Rightarrow> (resp, c)
      | (Some body, resp) \<Rightarrow>
          (let entry = \<lparr>ent_Response = Some resp, ent_Body = body, ent_StatusCode = rs_StatusCode resp,
                 ent_Header = rs_Header resp, ent_ExpiresAt = zero_time, ent_ETag = [], ent_LastModified = None,
                 ent_MaxAge = None, ent_StaleAt = None, ent_IsStale = False\<rparr>;
               ttl = (if ttl = 0 then default_ttl else ttl)
           in (resp, set_entry now key entry ttl c)))"

definition dcp_Invalidate :: "(string \<Rightarrow> 'c \<Rightarrow> 'c) \<Rightarrow> string \<Rightarrow> 'c \<Rightarrow> 'c" where
  "dcp_Invalidate delete key c = delete key c"

subsection \<open>The provider with HTTP semantics\<close>

definition createResponseFromEntry :: "CacheEntry \<Rightarrow> response" where
  "createResponseFromEntry entry =
     (let resp = \<lparr>rs_StatusCode = ent_StatusCode entry, rs_Header = ent_Header entry,
                  rs_Body = Reader (ent_Body entry) True, rs_Request = None\<rparr>
      in if ent_IsStale entry
         then resp\<lparr>rs_Header := header_set ''X-Cache-Status'' ''stale'' (rs_Header resp)\<rparr>
         else resp\<lparr>rs_Header := header_set ''X-Cache-Status'' ''hit'' (rs_Header resp)\<rparr>)"

text \<open>\<open>now1\<close> is read by the cache, \<open>now2\<close> by the provider.\<close>

definition hcp_Get :: "'c get_op \<Rightarrow> (string \<Rightarrow> 'c \<Rightarrow> 'c) \<Rightarrow> (string \<Rightarrow> 'c \<Rightarrow> 'c) \<Rightarrow> int \<Rightarrow> int \<Rightarrow> int \<Rightarrow>
    string \<Rightarrow> 'c \<Rightarrow> response option \<times> 'c" where
  "hcp_Get get delete mark mode now1 now2 key c =
     (case get now1 key c of
        (None, c') \<Rightarrow> (None, c')
      | (Some entry, c') \<Rightarrow>
          if now2 > ent_ExpiresAt entry then
            (if mode = SWR \<and> (\<exists>t \<in> set_option (ent_StaleAt entry). now2 < t)
             then (Some (createResponseFromEntry (entry\<lparr>ent_IsStale := True\<rparr>)), mark key c')
             else (None, delete key c'))
          else (Some (createResponseFromEntry entry), c'))"

text \<open>The clock is read when the entry is made, for the default TTL, by \<open>time.Until\<close> and by the cache.\<close>

definition hcp_Set :: "time_formats \<Rightarrow> 'c set_op \<Rightarrow> int \<Rightarrow> int \<Rightarrow> int \<Rightarrow> int \<Rightarrow> int \<Rightarrow>
    string \<Rightarrow> response \<Rightarrow> int \<Rightarrow> 'c \<Rightarrow> response \<times> 'c" where
  "hcp_Set tf set_entry defaultTTL now1 now2 now3 now4 key resp ttl c =
     (case take_body resp of
        (None, resp) \<Rightarrow> (resp, c)
      | (Some body, resp) \<Rightarrow>
          (let entry = createEnhancedCacheEntry tf resp body now1;
               entry = (if ent_ExpiresAt entry = zero_time
                        then (let ttl = (if ttl = 0 then defaultTTL else ttl)
                              in entry\<lparr>ent_ExpiresAt := now2 + ttl\<rparr>)
                        else entry)
           in (resp, set_entry now4 key entry (time_sub (ent_ExpiresAt entry) now3) c)))"

definition hcp_Invalidate :: "(string \<Rightarrow> 'c \<Rightarrow> 'c) \<Rightarrow> string \<Rightarrow> 'c \<Rightarrow> 'c" where
  "hcp_Invalidate delete key c = delete key c"

text \<open>What writing \<open>IsStale\<close> to a returned entry does to the in-memory cache, which hands out its own.\<close>

definition imc_mark :: "string \<Rightarrow> InMemoryCache \<Rightarrow> InMemoryCache" where
  "imc_mark key c =
     (let i = imc_getShard c key; store = imc_shards c ! i
      in c\<lparr>imc_shards := (imc_shards c)[i := store(key := map_option (ent_IsStale_update (\<lambda>_. True)) (store key))]\<rparr>)"

subsection \<open>Providers over any cache\<close>

lemma take_body_reader:
  assumes "rs_Body resp = Reader s True"
  shows "take_body resp = (Some s, resp)"
proof -
  have "resp\<lparr>rs_Body := Reader s True\<rparr> = resp" using assms by (cases resp) simp
  then show ?thesis using assms by (simp add: take_body_def)
qed

context cache
begin

text \<open>
  A cache only returns what has not expired, so a provider that reads the clock at the same
  moment never finds an expired entry: the branch for stale entries is dead, whatever the mode.
\<close>

lemma provider_get:
  assumes "valid c"
  shows "hcp_Get get delete mark mode now now key c =
    (map_option createResponseFromEntry (fst (get now key c)), snd (get now key c))"
  using get_not_expired [OF assms, of now key]
  by (auto simp: hcp_Get_def split: prod.splits option.splits)

lemma provider_set_get:
  fixes tf :: time_formats and now ttl defaultTTL :: int and c :: 'c
  assumes "valid c" and "rs_Body resp = Reader s True"
  defines "e \<equiv> createEnhancedCacheEntry tf resp s now"
  defines "life \<equiv> (if ent_ExpiresAt e = zero_time then (if ttl = 0 then defaultTTL else ttl) else ent_ExpiresAt e - now)"
  assumes "in64 life" and "fits (now + life)"
  shows "fst (hcp_Get get delete mark mode later later key
        (snd (hcp_Set tf set_entry defaultTTL now now now now key resp ttl c))) =
      (if later > now + life then None
       else Some (createResponseFromEntry (returned (e\<lparr>ent_ExpiresAt := now + life\<rparr>))))"
proof -
  let ?e = "if ent_ExpiresAt e = zero_time then e\<lparr>ent_ExpiresAt := now + life\<rparr> else e"
  have life: "ent_ExpiresAt ?e = now + life" by (simp add: life_def)
  moreover have "time_sub (now + life) now = life"
    using assms(5) by (simp add: time_sub_def in64_def)
  moreover have "?e\<lparr>ent_ExpiresAt := now + life\<rparr> = e\<lparr>ent_ExpiresAt := now + life\<rparr>" by simp
  moreover have "snd (hcp_Set tf set_entry defaultTTL now now now now key resp ttl c) =
      set_entry now key ?e (time_sub (ent_ExpiresAt ?e) now) c"
    by (simp add: hcp_Set_def take_body_reader [OF assms(2)] Let_def e_def life_def)
  ultimately show ?thesis
    using provider_get [OF set_valid [OF assms(1)]] get_after_set [OF assms(1,6), of later key ?e]
    by simp
qed

lemma default_provider_set_get:
  fixes now ttl default_ttl :: int and c :: 'c
  assumes "valid c" and "rs_Body resp = Reader s True"
  defines "life \<equiv> if ttl = 0 then default_ttl else ttl"
  assumes "fits (now + life)"
  shows "fst (dcp_Get get later key (snd (dcp_Set set_entry default_ttl now key resp ttl c))) =
      (if later > now + life then None
       else Some (createResponseFromCache (returned \<lparr>ent_Response = Some resp, ent_Body = s,
           ent_StatusCode = rs_StatusCode resp, ent_Header = rs_Header resp, ent_ExpiresAt = now + life,
           ent_ETag = [], ent_LastModified = None, ent_MaxAge = None, ent_StaleAt = None, ent_IsStale = False\<rparr>)))"
proof -
  have set: "\<exists>e. snd (dcp_Set set_entry default_ttl now key resp ttl c) = set_entry now key e life c
     \<and> e\<lparr>ent_ExpiresAt := now + life\<rparr> = \<lparr>ent_Response = Some resp, ent_Body = s,
           ent_StatusCode = rs_StatusCode resp, ent_Header = rs_Header resp, ent_ExpiresAt = now + life,
           ent_ETag = [], ent_LastModified = None, ent_MaxAge = None, ent_StaleAt = None, ent_IsStale = False\<rparr>"
    by (auto simp: dcp_Set_def take_body_reader [OF assms(2)] Let_def life_def)
  moreover have "fst (dcp_Get get later key c') = map_option createResponseFromCache (fst (get later key c'))" for c'
    by (auto simp: dcp_Get_def createResponseFromCache_def split: prod.splits option.splits)
  ultimately show ?thesis
    using get_after_set [OF assms(1,4), of later key] by fastforce
qed

end

subsection \<open>Properties\<close>



text \<open>
  Stale-while-revalidate serves nothing stale over the in-memory cache, in no mode and with
  no window: what the cache below has expired it does not return, so that the provider never
  comes to look at the stale window.
\<close>

theorem swr_serves_nothing_stale:
  assumes "imc_valid c" and "fst (hcp_Get imc_Get imc_Delete imc_mark mode now now key c) = Some resp"
  shows "\<exists>entry. imc_view c key = Some entry \<and> now \<le> ent_ExpiresAt entry \<and> resp = createResponseFromEntry entry
    \<and> snd (hcp_Get imc_Get imc_Delete imc_mark mode now now key c) = c"
proof -
  from assms(2) imc.provider_get [OF assms(1)] obtain entry where
    e: "fst (imc_Get now key c) = Some entry" "resp = createResponseFromEntry entry" by auto
  moreover have "snd (imc_Get now key c) = c"
    using e(1) by (auto simp: imc_Get_def Let_def split: option.splits if_splits)
  ultimately show ?thesis
    using imc.get_not_expired [OF assms(1) e(1)] imc.provider_get [OF assms(1)] by auto
qed

text \<open>An entry that expires at 10 and may be served stale until 1000 is gone at 11.\<close>

lemma swr_serves_nothing_stale_witness:
  "fst (hcp_Get imc_Get imc_Delete imc_mark SWR 11 11 ''k''
      (imc_Set 0 ''k'' ((plain_entry [])\<lparr>ent_StaleAt := Some 1000\<rparr>) 10 NewInMemoryCache)) = None"
proof -
  let ?c = "imc_Set 0 ''k'' ((plain_entry [])\<lparr>ent_StaleAt := Some 1000\<rparr>) 10 NewInMemoryCache"
  have v: "imc_valid ?c" by (rule imc.set_valid [OF NewInMemoryCache_valid(1)])
  have "imc_view ?c ''k'' = Some ((plain_entry [])\<lparr>ent_StaleAt := Some 1000, ent_ExpiresAt := 10\<rparr>)"
    by (simp add: imc.set_view [OF NewInMemoryCache_valid(1)])
  then have "fst (hcp_Get imc_Get imc_Delete imc_mark SWR 11 11 ''k'' ?c) \<noteq> Some resp" for resp
    using swr_serves_nothing_stale [OF v, of SWR 11 "''k''" resp] by auto
  then show ?thesis by (meson option.exhaust)
qed

text \<open>
  A response that says \<open>no-store\<close> is stored all the same, and served from the cache for the
  TTL of the request or the provider: the refusal of \<open>calculateCacheExpiry\<close> only leaves the
  expiry unset, and an unset expiry is filled with the default.
\<close>

theorem no_store_is_stored:
  assumes "imc_valid c" and "rs_Body resp = Reader s True" and "\<forall>d \<in> set ds. directive_ok d"
    and "header_get (rs_Header resp) ''Cache-Control'' = print_directives ds"
    and "DNoStore \<in> set ds" and "0 < defaultTTL" and "in64 defaultTTL"
    and "now \<le> later" and "later \<le> now + defaultTTL"
  shows "fst (hcp_Get imc_Get imc_Delete imc_mark mode later later key
        (snd (hcp_Set tf imc_Set defaultTTL now now now now key resp 0 c))) =
      Some \<lparr>rs_StatusCode = rs_StatusCode resp,
         rs_Header = header_set ''X-Cache-Status'' ''hit'' (rs_Header resp),
         rs_Body = Reader s True, rs_Request = None\<rparr>"
proof -
  let ?e = "createEnhancedCacheEntry tf resp s now"
  have "calculateCacheExpiry tf resp now = (zero_time, False)"
    using assms(4,5) by (simp add: calculateCacheExpiry_def parse_print_directives [OF assms(3)]
        fold_directives no_directives_def Let_def)
  then have e: "ent_ExpiresAt ?e = zero_time" "ent_StatusCode ?e = rs_StatusCode resp" "ent_Body ?e = s"
    "ent_Header ?e = rs_Header resp" "\<not> ent_IsStale ?e"
    by (auto simp: createEnhancedCacheEntry_def Let_def)
  then show ?thesis
    using imc.provider_set_get [OF assms(1,2), where tf = tf and now = now and ttl = 0 and defaultTTL = defaultTTL] assms(7,9)
    by (simp add: createResponseFromEntry_def Let_def)
qed

lemma no_store_is_stored_witness:
  "fst (hcp_Get imc_Get imc_Delete imc_mark HTTPSemantics 7 7 ''k'' (snd (hcp_Set no_formats imc_Set 5 3 3 3 3 ''k''
      (headed_response (print_directives [DNoStore])) 0 NewInMemoryCache))) \<noteq> None"
  by (subst no_store_is_stored [of NewInMemoryCache "headed_response (print_directives [DNoStore])" "''hi''" "[DNoStore]"])
     (simp_all add: NewInMemoryCache_valid headed_response_def in64_def)

end
