(* ===== verification/CacheOptimizedCorrect.thy ===== *)
theory CacheOptimizedCorrect
  imports CacheOptimized CacheProvider "HOL-Library.Multiset"
begin

text \<open>
  The optimized cache keeps its pointer structure well-formed and meets the contract of a cache:
  its map and its list hold the same entries, so that list surgery is never visible.
\<close>

subsection \<open>Well-formed shards\<close>

definition os_ok :: "oc_shard \<Rightarrow> nat list \<Rightarrow> bool" where
  "os_ok sh xs \<longleftrightarrow> lru sh xs \<and>
     (\<forall>k a. os_store sh k = Some a \<longleftrightarrow> a \<in> set xs \<and> oe_key (os_heap sh a) = k) \<and>
     (\<forall>a \<in> set xs. a < os_fresh sh)"

definition os_view :: "oc_shard \<Rightarrow> string \<rightharpoonup> CacheEntry" where
  "os_view sh k = map_option (\<lambda>a. oc_cacheEntry (os_heap sh a)) (os_store sh k)"

lemma same_content_facts:
  assumes "same_content e e'"
  shows "oe_key e = oe_key e'" "oc_cacheEntry e = oc_cacheEntry e'" "oe_expiresAt e = oe_expiresAt e'"
    "oe_hotPromoted e = oe_hotPromoted e'" "oe_accessCount e = oe_accessCount e'"
proof -
  let ?n = "\<lambda>e. e\<lparr>oe_prev := None, oe_next := None\<rparr>"
  have n: "?n e = ?n e'" using assms by (simp add: same_content_def)
  have "oe_key (?n x) = oe_key x" "oc_cacheEntry (?n x) = oc_cacheEntry x" "oe_expiresAt (?n x) = oe_expiresAt x"
    "oe_hotPromoted (?n x) = oe_hotPromoted x" "oe_accessCount (?n x) = oe_accessCount x" for x
    by (simp_all add: oc_cacheEntry_def)
  with n show "oe_key e = oe_key e'" "oc_cacheEntry e = oc_cacheEntry e'" "oe_expiresAt e = oe_expiresAt e'"
    "oe_hotPromoted e = oe_hotPromoted e'" "oe_accessCount e = oe_accessCount e'"
    by metis+
qed

lemma same_shard_heap:
  assumes "same_shard sh sh'"
  shows "oe_key (os_heap sh' a) = oe_key (os_heap sh a)" "oc_cacheEntry (os_heap sh' a) = oc_cacheEntry (os_heap sh a)"
    "oe_hotPromoted (os_heap sh' a) = oe_hotPromoted (os_heap sh a)"
  using assms same_content_facts [of "os_heap sh' a" "os_heap sh a"] by (simp_all add: same_shard_def)

lemma os_view_same: "same_shard sh sh' \<Longrightarrow> os_view sh' = os_view sh"
  by (rule ext) (simp add: os_view_def same_shard_heap(2), simp add: same_shard_def)

text \<open>Fields that \<open>os_ok\<close> and \<open>os_view\<close> do not read.\<close>

lemma os_counters [simp]:
  "lru (sh\<lparr>os_hits := n\<rparr>) xs = lru sh xs" "lru (sh\<lparr>os_misses := n\<rparr>) xs = lru sh xs"
  "lru (sh\<lparr>os_size := n\<rparr>) xs = lru sh xs" "lru (sh\<lparr>os_evictions := n\<rparr>) xs = lru sh xs"
  "lru (sh\<lparr>os_store := s\<rparr>) xs = lru sh xs" "lru (sh\<lparr>os_fresh := f\<rparr>) xs = lru sh xs"
  "os_ok (sh\<lparr>os_hits := n\<rparr>) xs = os_ok sh xs" "os_ok (sh\<lparr>os_misses := n\<rparr>) xs = os_ok sh xs"
  "os_ok (sh\<lparr>os_size := n\<rparr>) xs = os_ok sh xs" "os_ok (sh\<lparr>os_evictions := n\<rparr>) xs = os_ok sh xs"
  "os_view (sh\<lparr>os_hits := n\<rparr>) = os_view sh" "os_view (sh\<lparr>os_misses := n\<rparr>) = os_view sh"
  "os_view (sh\<lparr>os_size := n\<rparr>) = os_view sh" "os_view (sh\<lparr>os_evictions := n\<rparr>) = os_view sh"
  by (auto simp: os_ok_def lru_def os_view_def)

lemma removeLRU_store:
  "removeLRU a (sh\<lparr>os_store := s\<rparr>) = (removeLRU a sh)\<lparr>os_store := s\<rparr>"
  by (simp add: removeLRU_def heap_upd_def Let_def split: option.splits)

text \<open>An entry leaves the map and the list together.\<close>

lemma os_ok_at: "os_ok sh xs \<Longrightarrow> os_store sh k = Some a \<Longrightarrow> \<exists>ys zs. xs = ys @ a # zs \<and> oe_key (os_heap sh a) = k"
  by (auto simp: os_ok_def in_set_conv_decomp)

lemma os_remove:
  assumes "os_ok sh (ys @ a # zs)" and "oe_key (os_heap sh a) = k"
  defines "sh' \<equiv> (removeLRU a sh)\<lparr>os_store := (os_store sh)(k := None)\<rparr>"
  shows "os_ok sh' (ys @ zs)" and "os_view sh' = (os_view sh)(k := None)"
proof -
  have l: "lru sh (ys @ a # zs)" and st: "\<And>k b. os_store sh k = Some b \<longleftrightarrow> b \<in> set (ys @ a # zs) \<and> oe_key (os_heap sh b) = k"
    and fresh: "\<forall>b \<in> set (ys @ a # zs). b < os_fresh sh"
    using assms(1) by (auto simp: os_ok_def)
  have same: "same_shard sh (removeLRU a sh)" by (rule removeLRU_same)
  then have frame: "os_store (removeLRU a sh) = os_store sh" "os_fresh (removeLRU a sh) = os_fresh sh"
    by (simp_all add: same_shard_def)
  have l': "lru (removeLRU a sh) (ys @ zs)" using removeLRU_lru [OF l] by simp
  have a: "os_store sh k = Some a" using st [of k a] assms(2) by simp
  have "a \<notin> set (ys @ zs)" using l by (simp add: lru_def)
  moreover have "b = a" if "b \<in> set (ys @ a # zs)" "oe_key (os_heap sh b) = k" for b
    using st [of k b] a that by auto
  ultimately have "((os_store sh)(k := None)) k' = Some b \<longleftrightarrow> b \<in> set (ys @ zs) \<and> oe_key (os_heap sh b) = k'" for k' b
    using st [of k' b] assms(2) by auto
  with l' fresh show "os_ok sh' (ys @ zs)"
    by (simp add: sh'_def os_ok_def same_shard_heap(1) [OF same] frame)
  show "os_view sh' = (os_view sh)(k := None)"
    by (rule ext) (simp add: sh'_def os_view_def same_shard_heap(2) [OF same])
qed

text \<open>Overwriting contents other than key and links.\<close>

lemma os_touch:
  assumes "os_ok sh xs" and "oe_key (f (os_heap sh a)) = oe_key (os_heap sh a)"
    and "oe_prev (f (os_heap sh a)) = oe_prev (os_heap sh a)" and "oe_next (f (os_heap sh a)) = oe_next (os_heap sh a)"
  shows "os_ok (heap_upd a f sh) xs"
proof -
  have "dll ((os_heap sh)(a := f (os_heap sh a))) None xs None = dll (os_heap sh) None xs None"
    using assms by (intro dll_cong) simp
  then show ?thesis using assms by (auto simp: os_ok_def lru_def)
qed

lemma os_view_touch:
  "oc_cacheEntry (f (os_heap sh a)) = oc_cacheEntry (os_heap sh a) \<Longrightarrow> os_view (heap_upd a f sh) = os_view sh"
  by (rule ext) (auto simp: os_view_def intro!: option.map_cong)

lemma os_ok_same_list:
  "os_ok sh xs \<Longrightarrow> same_shard sh sh' \<Longrightarrow> lru sh' ys \<Longrightarrow> set ys = set xs \<Longrightarrow> os_ok sh' ys"
  by (auto simp: os_ok_def same_shard_heap(1)) (auto simp: same_shard_def)

lemma same_shard_trans: "same_shard a b \<Longrightarrow> same_shard b c \<Longrightarrow> same_shard a c"
  by (simp add: same_shard_def same_content_def)

lemma promote_ok:
  assumes "os_ok sh (ys @ a # zs)"
  shows "\<exists>xs. os_ok (promoteHotEntry a sh) xs \<and> mset xs = mset (ys @ a # zs)"
    and "os_view (promoteHotEntry a sh) = os_view sh"
proof -
  let ?up = "\<lambda>b e. (e :: oc_entry)\<lparr>oe_hotPromoted := b\<rparr>"
  define s1 where "s1 = heap_upd a (?up True) sh"
  define s2 where "s2 = addToLRU a (removeLRU a s1)"
  have s1: "os_ok s1 (ys @ a # zs)" "os_view s1 = os_view sh"
    unfolding s1_def using assms by (auto intro!: os_touch os_view_touch simp: oc_cacheEntry_def)
  have same: "same_shard s1 s2"
    unfolding s2_def by (rule same_shard_trans [OF removeLRU_same addToLRU_same])
  have l1: "lru s1 (ys @ a # zs)" using s1(1) by (simp add: os_ok_def)
  note rm = removeLRU_lru [OF l1]
  have "a \<notin> set (ys @ zs)" using l1 by (simp add: lru_def)
  with rm have "lru s2 (a # ys @ zs)" unfolding s2_def by (intro addToLRU_lru) simp_all
  then have s2: "os_ok s2 (a # ys @ zs)" by (rule os_ok_same_list [OF s1(1) same]) auto
  have v2: "os_view s2 = os_view sh" using os_view_same [OF same] s1(2) by simp
  have p: "promoteHotEntry a sh = (if oe_hotPromoted (os_heap sh a) then sh else heap_upd a (?up False) s2)"
    by (simp add: promoteHotEntry_def s1_def s2_def Let_def)
  have s3: "os_ok (heap_upd a (?up False) s2) (a # ys @ zs)" "os_view (heap_upd a (?up False) s2) = os_view s2"
    using s2 by (auto intro!: os_touch os_view_touch simp: oc_cacheEntry_def)
  show "\<exists>xs. os_ok (promoteHotEntry a sh) xs \<and> mset xs = mset (ys @ a # zs)"
  proof (cases "oe_hotPromoted (os_heap sh a)")
    case True
    with assms p show ?thesis by (intro exI [of _ "ys @ a # zs"]) simp
  next
    case False
    with s3 p show ?thesis by (intro exI [of _ "a # ys @ zs"]) simp
  qed
  show "os_view (promoteHotEntry a sh) = os_view sh" using p s3(2) v2 by simp
qed

text \<open>A new entry enters both.\<close>

lemma os_insert_ok:
  assumes "os_ok sh xs" and "os_store sh key = None" and "oe_key e = key" and "oe_prev e = None" and "oe_next e = None"
  shows "os_ok (os_insert key e sh) (os_fresh sh # xs)"
    and "os_view (os_insert key e sh) = (os_view sh)(key \<mapsto> oc_cacheEntry e)"
proof -
  let ?a = "os_fresh sh"
  define s1 where "s1 = (heap_upd ?a (\<lambda>_. e) sh)\<lparr>os_fresh := ?a + 1, os_store := (os_store sh)(key \<mapsto> ?a)\<rparr>"
  have a: "?a \<notin> set xs" using assms(1) by (auto simp: os_ok_def)
  have st: "\<And>k b. os_store sh k = Some b \<longleftrightarrow> b \<in> set xs \<and> oe_key (os_heap sh b) = k"
    using assms(1) by (simp add: os_ok_def)
  have "lru (heap_upd ?a (\<lambda>_. e) sh) xs"
    using assms(1) a by (simp add: os_ok_def lru_def dll_other)
  then have l1: "lru s1 xs" by (simp add: s1_def lru_def)
  moreover have "detached s1 ?a" using assms by (simp add: s1_def detached_def)
  ultimately have l2: "lru (addToLRU ?a s1) (?a # xs)" using a by (intro addToLRU_lru)
  have same: "same_shard s1 (addToLRU ?a s1)" by (rule addToLRU_same)
  have frame: "os_store (addToLRU ?a s1) = (os_store sh)(key \<mapsto> ?a)" "os_fresh (addToLRU ?a s1) = ?a + 1"
    using same by (simp_all add: same_shard_def s1_def)
  have heap: "os_heap s1 b = (if b = ?a then e else os_heap sh b)" for b by (simp add: s1_def)
  have "((os_store sh)(key \<mapsto> ?a)) k = Some b \<longleftrightarrow> b \<in> set (?a # xs) \<and> oe_key (os_heap s1 b) = k" for k b
    using st [of k b] st [of key b] assms(2,3) a by (auto simp: heap)
  then have ok: "os_ok (addToLRU ?a s1) (?a # xs)"
    using l2 assms(1) by (auto simp: os_ok_def same_shard_heap(1) [OF same] frame)
  moreover have "os_insert key e sh = (addToLRU ?a s1)\<lparr>os_size := add64 (os_size (addToLRU ?a s1)) 1\<rparr>"
    by (simp add: os_insert_def s1_def Let_def)
  ultimately show "os_ok (os_insert key e sh) (?a # xs)" by simp
  have "os_view (addToLRU ?a s1) = os_view s1" by (rule os_view_same [OF same])
  also have "\<dots> = (os_view sh)(key \<mapsto> oc_cacheEntry e)"
    using st a by (auto simp: os_view_def s1_def fun_eq_iff intro!: option.map_cong)
  finally show "os_view (os_insert key e sh) = (os_view sh)(key \<mapsto> oc_cacheEntry e)"
    using \<open>os_insert key e sh = _\<close> by simp
qed

subsection \<open>The operations of a shard\<close>

lemma os_expire_ok:
  assumes "os_ok sh xs" and "os_store sh key = Some a"
  shows "\<exists>xs'. os_ok (os_expire key a sh) xs' \<and> length xs = Suc (length xs')"
    and "os_view (os_expire key a sh) = (os_view sh)(key := None)"
proof -
  obtain ys zs where xs: "xs = ys @ a # zs" "oe_key (os_heap sh a) = key" using os_ok_at [OF assms] by blast
  note rm = os_remove [OF assms(1) [unfolded xs(1)] xs(2)]
  then show "\<exists>xs'. os_ok (os_expire key a sh) xs' \<and> length xs = Suc (length xs')"
    by (intro exI [of _ "ys @ zs"]) (simp add: os_expire_def removeLRU_store xs(1))
  show "os_view (os_expire key a sh) = (os_view sh)(key := None)"
    using rm(2) by (simp add: os_expire_def removeLRU_store)
qed

lemma os_Get_ok:
  assumes "os_ok sh xs"
  shows "\<exists>xs'. os_ok (snd (os_Get now key sh)) xs' \<and>
      length xs' = (if fst (os_Get now key sh) = None \<and> os_store sh key \<noteq> None then length xs - 1 else length xs)"
    and "os_view (snd (os_Get now key sh)) =
      (if fst (os_Get now key sh) = None then (os_view sh)(key := None) else os_view sh)"
    and "fst (os_Get now key sh) = unexpired now (os_view sh key)"
proof -
  show r: "fst (os_Get now key sh) = unexpired now (os_view sh key)"
    by (auto simp: os_Get_def os_view_def unexpired_def oc_cacheEntry_def Let_def split: option.splits)
  consider (none) "os_store sh key = None"
    | (old) a where "os_store sh key = Some a" "now > oe_expiresAt (os_heap sh a)"
    | (hit) a where "os_store sh key = Some a" "\<not> now > oe_expiresAt (os_heap sh a)"
    by (cases "os_store sh key") auto
  then have "(\<exists>xs'. os_ok (snd (os_Get now key sh)) xs' \<and>
      length xs' = (if fst (os_Get now key sh) = None \<and> os_store sh key \<noteq> None then length xs - 1 else length xs))
    \<and> os_view (snd (os_Get now key sh)) = (if fst (os_Get now key sh) = None then (os_view sh)(key := None) else os_view sh)"
  proof cases
    case none
    with assms show ?thesis by (auto simp: os_Get_def os_view_def)
  next
    case old
    obtain xs' where "os_ok (os_expire key a sh) xs'" "length xs = Suc (length xs')"
      using os_expire_ok(1) [OF assms old(1)] by blast
    with old os_expire_ok(2) [OF assms old(1)] show ?thesis
      by (intro conjI exI [of _ xs']) (simp_all add: os_Get_def Let_def)
  next
    case hit
    let ?f = "\<lambda>e. e\<lparr>oe_accessCount := add64 (oe_accessCount e) 1, oe_lastAccess := now\<rparr>"
    have t: "os_ok (heap_upd a ?f sh) xs" "os_view (heap_upd a ?f sh) = os_view sh"
      using assms by (auto intro!: os_touch os_view_touch simp: oc_cacheEntry_def)
    have st: "os_store (heap_upd a ?f sh) key = Some a" using hit by simp
    obtain ys zs where "xs = ys @ a # zs" using os_ok_at [OF t(1) st] by blast
    with promote_ok [of "heap_upd a ?f sh" ys a zs] t obtain xs' where
      p: "os_ok (promoteHotEntry a (heap_upd a ?f sh)) xs'" "mset xs' = mset xs"
        "os_view (promoteHotEntry a (heap_upd a ?f sh)) = os_view sh" by auto
    have len: "length xs' = length xs" using mset_eq_length [OF p(2)] .
    define sh' where "sh' = (if oe_accessCount (os_heap (heap_upd a ?f sh) a) smod 10 = 0
        then promoteHotEntry a (heap_upd a ?f sh) else heap_upd a ?f sh)"
    have "snd (os_Get now key sh) = sh'\<lparr>os_hits := add64 (os_hits sh') 1\<rparr>" "fst (os_Get now key sh) \<noteq> None"
      using hit by (simp_all add: os_Get_def Let_def sh'_def)
    moreover have "(os_ok sh' xs' \<or> os_ok sh' xs) \<and> os_view sh' = os_view sh" using t p by (simp add: sh'_def)
    ultimately show ?thesis using len by auto
  qed
  then show "\<exists>xs'. os_ok (snd (os_Get now key sh)) xs' \<and>
      length xs' = (if fst (os_Get now key sh) = None \<and> os_store sh key \<noteq> None then length xs - 1 else length xs)"
    and "os_view (snd (os_Get now key sh)) =
      (if fst (os_Get now key sh) = None then (os_view sh)(key := None) else os_view sh)"
    by blast+
qed

lemma os_Delete_ok:
  assumes "os_ok sh xs"
  shows "\<exists>xs'. os_ok (os_Delete key sh) xs'" and "os_view (os_Delete key sh) = (os_view sh)(key := None)"
proof -
  have "(\<exists>xs'. os_ok (os_Delete key sh) xs') \<and> os_view (os_Delete key sh) = (os_view sh)(key := None)"
  proof (cases "os_store sh key")
    case None
    then have "(os_view sh)(key := None) = os_view sh" by (auto simp: os_view_def)
    with None assms show ?thesis by (auto simp: os_Delete_def)
  next
    case (Some a)
    then have "os_Delete key sh = (os_expire key a sh)\<lparr>os_size := sub64 (os_size (os_expire key a sh)) 1\<rparr>"
      by (simp add: os_Delete_def os_expire_def Let_def)
    then show ?thesis using os_expire_ok [OF assms Some] by auto
  qed
  then show "\<exists>xs'. os_ok (os_Delete key sh) xs'" "os_view (os_Delete key sh) = (os_view sh)(key := None)" by auto
qed

lemma os_Clear_ok: "os_ok (os_Clear sh) []" "os_view (os_Clear sh) = Map.empty"
  by (auto simp: os_Clear_def os_ok_def lru_def os_view_def)

lemma evictLRU_ok:
  assumes "os_ok sh xs"
  shows "os_ok (snd (evictLRU sh)) (butlast xs)" and "os_view (snd (evictLRU sh)) k \<in> {None, os_view sh k}"
    and "fst (evictLRU sh) \<longleftrightarrow> xs \<noteq> []"
proof -
  have tail: "os_tail sh = last_or None xs" using assms by (simp add: os_ok_def lru_def)
  have "os_ok (snd (evictLRU sh)) (butlast xs) \<and> os_view (snd (evictLRU sh)) k \<in> {None, os_view sh k}
     \<and> (fst (evictLRU sh) \<longleftrightarrow> xs \<noteq> [])"
  proof (cases xs rule: rev_cases)
    case Nil
    with assms tail show ?thesis by (simp add: evictLRU_def)
  next
    case (snoc ys a)
    note rm = os_remove [of sh ys a "[]", OF assms [unfolded snoc] refl]
    have "snd (evictLRU sh) = (\<lambda>s. s\<lparr>os_size := sub64 (os_size s) 1, os_evictions := add64 (os_evictions s) 1\<rparr>)
        ((removeLRU a sh)\<lparr>os_store := (os_store sh)(oe_key (os_heap sh a) := None)\<rparr>)"
      using tail snoc by (simp add: evictLRU_def removeLRU_store Let_def)
    with rm snoc tail show ?thesis by (simp add: evictLRU_def Let_def)
  qed
  then show "os_ok (snd (evictLRU sh)) (butlast xs)" "os_view (snd (evictLRU sh)) k \<in> {None, os_view sh k}"
    "fst (evictLRU sh) \<longleftrightarrow> xs \<noteq> []" by auto
qed

text \<open>The old entry of the key leaves the list; the map is overwritten by the insertion.\<close>

lemma os_insert_overwrites: "os_insert key e (sh\<lparr>os_store := (os_store sh)(key := None)\<rparr>) = os_insert key e sh"
  by (simp add: os_insert_def heap_upd_def)

lemma oc_newEntry_facts [simp]:
  "oe_key (oc_newEntry now key e ttl) = key" "oe_prev (oc_newEntry now key e ttl) = None"
  "oe_next (oc_newEntry now key e ttl) = None"
  by (simp_all add: oc_newEntry_def)

lemma os_replace_ok:
  assumes "os_ok sh xs"
  shows "\<exists>xs'. os_ok (os_insert key (oc_newEntry now key e ttl) (os_drop key sh)) xs'
      \<and> length xs' = Suc (if os_store sh key = None then length xs else length xs - 1)"
    and "os_view (os_insert key (oc_newEntry now key e ttl) (os_drop key sh)) =
      (os_view sh)(key \<mapsto> oc_cacheEntry (oc_newEntry now key e ttl))"
proof -
  let ?e = "oc_newEntry now key e ttl" and ?sh' = "(os_drop key sh)\<lparr>os_store := (os_store (os_drop key sh))(key := None)\<rparr>"
  have "\<exists>ys. os_ok ?sh' ys \<and> os_view ?sh' = (os_view sh)(key := None)
      \<and> length ys = (if os_store sh key = None then length xs else length xs - 1)"
  proof (cases "os_store sh key")
    case None
    then have "(os_store sh)(key := None) = os_store sh" "(os_view sh)(key := None) = os_view sh"
      by (auto simp: os_view_def)
    with None assms show ?thesis by (auto simp: os_drop_def)
  next
    case (Some a)
    have st: "os_store (removeLRU a sh) = os_store sh" using removeLRU_same [of sh a] by (simp add: same_shard_def)
    have "?sh' = (os_expire key a sh)\<lparr>os_size := sub64 (os_size (removeLRU a sh)) 1\<rparr>"
      using Some by (simp add: os_drop_def os_expire_def removeLRU_store st Let_def)
    with os_expire_ok [OF assms Some] Some show ?thesis by auto
  qed
  then obtain ys where ys: "os_ok ?sh' ys" "os_view ?sh' = (os_view sh)(key := None)"
    "length ys = (if os_store sh key = None then length xs else length xs - 1)" by blast
  have "os_store ?sh' key = None" by simp
  note ins = os_insert_ok [OF ys(1) this, of ?e, simplified oc_newEntry_facts os_insert_overwrites]
  show "\<exists>xs'. os_ok (os_insert key ?e (os_drop key sh)) xs'
      \<and> length xs' = Suc (if os_store sh key = None then length xs else length xs - 1)"
    using ins(1) ys(3) by auto
  show "os_view (os_insert key ?e (os_drop key sh)) = (os_view sh)(key \<mapsto> oc_cacheEntry ?e)"
    using ins(2) ys(2) by simp
qed

lemma os_Set_ok:
  assumes "os_ok sh xs"
  shows "\<exists>xs'. os_ok (snd (os_Set impl now key e ttl sh)) xs'"
    and "os_view (snd (os_Set impl now key e ttl sh)) key = Some (oc_cacheEntry (oc_newEntry now key e ttl))"
    and "k \<noteq> key \<Longrightarrow> os_view (snd (os_Set impl now key e ttl sh)) k \<in> {None, os_view sh k}"
proof -
  define sh1 where "sh1 = (if os_size sh \<ge> evict_at impl sh then snd (evictLRU sh) else sh)"
  have set: "snd (os_Set impl now key e ttl sh) = os_insert key (oc_newEntry now key e ttl) (os_drop key sh1)"
    by (simp add: os_Set_def sh1_def Let_def split_beta)
  have "os_ok sh1 (if os_size sh \<ge> evict_at impl sh then butlast xs else xs)"
    using assms evictLRU_ok(1) [OF assms] by (simp add: sh1_def)
  then obtain ys where ys: "os_ok sh1 ys" by blast
  note r = os_replace_ok [OF ys, of key now e ttl]
  from r show "\<exists>xs'. os_ok (snd (os_Set impl now key e ttl sh)) xs'"
    and "os_view (snd (os_Set impl now key e ttl sh)) key = Some (oc_cacheEntry (oc_newEntry now key e ttl))"
    unfolding set by auto
  have "os_view sh1 k \<in> {None, os_view sh k}" using evictLRU_ok(2) [OF assms] by (simp add: sh1_def)
  then show "k \<noteq> key \<Longrightarrow> os_view (snd (os_Set impl now key e ttl sh)) k \<in> {None, os_view sh k}"
    unfolding set r(2) by simp
qed

subsection \<open>The contract\<close>

definition oc_valid :: "OptimizedCache \<Rightarrow> bool" where
  "oc_valid c \<longleftrightarrow> 0 \<le> oc_shardMask c \<and> oc_shardMask c < int (length (oc_shards c)) \<and> oc_shardMask c < 2 ^ 63 \<and>
     (\<forall>sh \<in> set (oc_shards c). \<exists>xs. os_ok sh xs)"

definition oc_view :: "OptimizedCache \<Rightarrow> string \<rightharpoonup> CacheEntry" where
  "oc_view c key = os_view (oc_shards c ! oc_getShard c key) key"

definition oc_returned :: "CacheEntry \<Rightarrow> CacheEntry" where
  "oc_returned e = e\<lparr>ent_Response := None,
     ent_StatusCode := (case ent_Response e of Some r \<Rightarrow> rs_StatusCode r | None \<Rightarrow> ent_StatusCode e),
     ent_StaleAt := None, ent_IsStale := False\<rparr>"

lemma oc_getShard_less:
  assumes "oc_valid c"
  shows "oc_getShard c key < length (oc_shards c)"
proof -
  have "oc_getShard c key \<le> unat (word_of_int (oc_shardMask c) :: 64 word)"
    unfolding oc_getShard_def using word_and_le1 word_le_nat_alt by blast
  moreover have "unat (word_of_int (oc_shardMask c) :: 64 word) = nat (oc_shardMask c)"
    using assms by (simp add: oc_valid_def unat_eq_nat_uint uint_word_of_int)
  ultimately show ?thesis using assms unfolding oc_valid_def by linarith
qed

lemma oc_valid_frame:
  assumes "oc_valid c" and "\<exists>xs. os_ok sh xs" and "oc_shardMask c' = oc_shardMask c"
    and "oc_shards c' = (oc_shards c)[i := sh]"
  shows "oc_valid c'"
  using assms by (auto simp: oc_valid_def dest: set_update_subset_insert [THEN subsetD])

lemma oc_view_frame:
  assumes "oc_valid c" and "oc_shardMask c' = oc_shardMask c"
    and "oc_shards c' = (oc_shards c)[oc_getShard c k := sh]"
  shows "oc_view c' k' = (if oc_getShard c k' = oc_getShard c k then os_view sh k' else oc_view c k')"
  using assms oc_getShard_less [OF assms(1), of k]
  by (simp add: oc_view_def oc_getShard_def)

lemma oc_shard_ok: "oc_valid c \<Longrightarrow> \<exists>xs. os_ok (oc_shards c ! oc_getShard c key) xs"
  using oc_getShard_less by (auto simp: oc_valid_def)

lemma oc_newEntry_returned:
  "in64 (now + ttl) \<Longrightarrow> oc_cacheEntry (oc_newEntry now key e ttl) = oc_returned (e\<lparr>ent_ExpiresAt := now + ttl\<rparr>)"
  by (simp add: oc_cacheEntry_def oc_newEntry_def oc_returned_def split: option.splits)

lemma oc_Get_parts:
  "fst (oc_Get now k c) = fst (os_Get now k (oc_shards c ! oc_getShard c k))"
  "oc_shards (snd (oc_Get now k c)) = (oc_shards c)[oc_getShard c k := snd (os_Get now k (oc_shards c ! oc_getShard c k))]"
  "oc_shardMask (snd (oc_Get now k c)) = oc_shardMask c"
  by (simp_all add: oc_Get_def Let_def split_beta)

lemma oc_Set_parts:
  "oc_shards (oc_Set impl now k e ttl c) =
     (oc_shards c)[oc_getShard c k := snd (os_Set impl now k e ttl (oc_shards c ! oc_getShard c k))]"
  "oc_shardMask (oc_Set impl now k e ttl c) = oc_shardMask c"
  by (simp_all add: oc_Set_def Let_def split_beta)

interpretation oc: cache oc_Get "oc_Set impl" oc_Delete oc_Clear oc_valid oc_view oc_returned in64 for impl
proof unfold_locales
  fix c :: OptimizedCache and now k k' e ttl
  assume v: "oc_valid c"
  let ?sh = "oc_shards c ! oc_getShard c k"
  obtain xs where ok: "os_ok ?sh xs" using oc_shard_ok [OF v] by blast
  note get = os_Get_ok [OF ok, of now k] and set = os_Set_ok [OF ok, where impl = impl and now = now and key = k and e = e and ttl = ttl]
    and del = os_Delete_ok [OF ok, of k]
  have get_ok: "\<exists>xs. os_ok (snd (os_Get now k ?sh)) xs" using get(1) by blast
  show "oc_valid (snd (oc_Get now k c))" by (rule oc_valid_frame [OF v get_ok oc_Get_parts(3,2)])
  show "oc_valid (oc_Set impl now k e ttl c)" by (rule oc_valid_frame [OF v set(1) oc_Set_parts(2,1)])
  show "oc_valid (oc_Delete k c)"
    by (rule oc_valid_frame [OF v del(1), of _ "oc_getShard c k"]) (simp_all add: oc_Delete_def Let_def)
  show "oc_valid (oc_Clear c)" using v os_Clear_ok(1) by (auto simp: oc_valid_def oc_Clear_def)
  show r: "fst (oc_Get now k c) = unexpired now (oc_view c k)"
    by (simp add: oc_Get_parts(1) get(3) oc_view_def)
  show "oc_view (snd (oc_Get now k c)) k' = (if k' = k \<and> fst (oc_Get now k c) = None then None else oc_view c k')"
    unfolding oc_view_frame [OF v oc_Get_parts(3,2)] get(2) oc_Get_parts(1)
    by (auto simp: oc_view_def)
  show "in64 (now + ttl) \<Longrightarrow> oc_view (oc_Set impl now k e ttl c) k = Some (oc_returned (e\<lparr>ent_ExpiresAt := now + ttl\<rparr>))"
    unfolding oc_view_frame [OF v oc_Set_parts(2,1)] by (simp add: set(2) oc_newEntry_returned)
  show "k' \<noteq> k \<Longrightarrow> oc_view (oc_Set impl now k e ttl c) k' \<in> {None, oc_view c k'}"
    unfolding oc_view_frame [OF v oc_Set_parts(2,1)] using set(3) by (auto simp: oc_view_def)
  show "oc_view (oc_Delete k c) = (oc_view c)(k := None)"
    using oc_view_frame [OF v, of "oc_Delete k c" k] del(2)
    by (auto simp: fun_eq_iff oc_Delete_def oc_view_def Let_def)
  show "oc_view (oc_Clear c) = Map.empty"
    using oc_getShard_less [OF v] os_Clear_ok(2)
    by (auto simp: oc_view_def oc_Clear_def oc_getShard_def)
qed (simp add: oc_returned_def)

end
