(* ===== verification/CacheOptimizedProps.thy ===== *)
theory CacheOptimizedProps
  imports CacheOptimizedCorrect
begin

unbundle bit_operations_syntax

text \<open>
  What the optimized cache promises beyond the contract: its constructor, its capacity, what
  becomes of the capacity when expired entries are looked up, what two goroutines that find the
  same expired entry do to a shard, and what its provider serves.
\<close>

subsection \<open>The number of shards\<close>

lemma smear_step:
  assumes "\<And>i. bit x i \<longleftrightarrow> (\<exists>d<j. bit m (i + d))"
  shows "bit (x OR drop_bit j x) i \<longleftrightarrow> (\<exists>d<2 * j. bit (m :: int) (i + d))"
proof -
  have "bit (x OR drop_bit j x) i \<longleftrightarrow> (\<exists>d<j. bit m (i + d)) \<or> (\<exists>d<j. bit m (i + (j + d)))"
    by (simp add: bit_or_iff bit_drop_bit_eq assms ac_simps)
  also have "\<dots> \<longleftrightarrow> (\<exists>d<2 * j. bit m (i + d))"
  proof
    assume "\<exists>d<2 * j. bit m (i + d)"
    then obtain d where d: "d < 2 * j" "bit m (i + d)" by blast
    show "(\<exists>d<j. bit m (i + d)) \<or> (\<exists>d<j. bit m (i + (j + d)))"
    proof (cases "d < j")
      case False
      with d have "d - j < j" "bit m (i + (j + (d - j)))" by auto
      then show ?thesis by blast
    qed (use d in blast)
  next
    assume "(\<exists>d<j. bit m (i + d)) \<or> (\<exists>d<j. bit m (i + (j + d)))"
    then show "\<exists>d<2 * j. bit m (i + d)"
    proof (elim disjE exE conjE)
      fix d assume "d < j" "bit m (i + d)"
      then show ?thesis by (intro exI [of _ d]) simp
    next
      fix d assume "d < j" "bit m (i + (j + d))"
      then show ?thesis by (intro exI [of _ "j + d"]) simp
    qed
  qed
  finally show ?thesis .
qed

definition smear :: "int \<Rightarrow> int" where
  "smear n0 = (let n = n0 OR drop_bit 1 n0; n = n OR drop_bit 2 n; n = n OR drop_bit 4 n;
      n = n OR drop_bit 8 n in n OR drop_bit 16 n)"

lemma bit_smear: "bit (smear m) i \<longleftrightarrow> (\<exists>d<32. bit m (i + d))"
proof -
  have "bit m i \<longleftrightarrow> (\<exists>d<1. bit m (i + d))" for i by simp
  note s1 = smear_step [of m 1 m, OF this]
  note s2 = smear_step [OF s1, simplified]
  note s3 = smear_step [OF s2, simplified]
  note s4 = smear_step [OF s3, simplified]
  note s5 = smear_step [OF s4, simplified]
  show ?thesis using s5 [of i] by (simp add: smear_def Let_def)
qed

lemma bit_at_least: "0 \<le> m \<Longrightarrow> (\<exists>d. bit (m :: int) (i + d)) \<longleftrightarrow> 2 ^ i \<le> m"
proof -
  assume m: "0 \<le> m"
  have "(\<exists>d. bit m (i + d)) \<longleftrightarrow> drop_bit i m \<noteq> 0"
    by (auto simp: bit_eq_iff bit_drop_bit_eq)
  also have "\<dots> \<longleftrightarrow> 2 ^ i \<le> m"
    using m div_pos_pos_trivial [of m "2 ^ i"] zdiv_mono1 [of "2 ^ i" m "2 ^ i"]
    by (cases "2 ^ i \<le> m") (auto simp: drop_bit_eq_div)
  finally show ?thesis .
qed

lemma smear_mask:
  assumes "0 \<le> m" and "m < 2 ^ 32"
  shows "smear m = mask (LEAST l. m < 2 ^ l)"
proof (rule bit_eqI)
  fix i
  let ?L = "LEAST l. m < 2 ^ l"
  have L: "m < 2 ^ ?L" by (rule LeastI [of "\<lambda>l. m < 2 ^ l" 32]) (rule assms)
  have small: "\<not> bit m n" if "32 \<le> n" for n
  proof -
    have "m < 2 ^ n" using assms(2) power_increasing [of 32 n "2::int"] that by simp
    then have "m div 2 ^ n = 0" using assms(1) by simp
    then show ?thesis by (simp add: bit_iff_odd)
  qed
  have "bit (smear m) i \<longleftrightarrow> (\<exists>d. bit m (i + d))"
    unfolding bit_smear using small by (metis add.commute not_less trans_le_add1)
  also have "\<dots> \<longleftrightarrow> i < ?L"
  proof -
    have "2 ^ i \<le> m" if "i < ?L" using not_less_Least [OF that] by simp
    moreover have "i < ?L" if "2 ^ i \<le> m"
    proof (rule ccontr)
      assume "\<not> i < ?L"
      then have "(2::int) ^ ?L \<le> 2 ^ i" by (intro power_increasing) auto
      with L that show False by simp
    qed
    ultimately show ?thesis using bit_at_least [OF assms(1)] by blast
  qed
  finally show "bit (smear m) i \<longleftrightarrow> bit (mask ?L :: int) i" by (simp add: bit_mask_iff)
qed

lemma nextPowerOf2_power:
  assumes "1 \<le> n" and "n \<le> 2 ^ 32"
  shows "\<exists>k \<le> 32. nextPowerOf2 n = 2 ^ k \<and> n \<le> 2 ^ k \<and> 2 ^ k < 2 * n"
proof (cases "n = 1")
  case True
  then show ?thesis by (intro exI [of _ 0]) (simp add: nextPowerOf2_def)
next
  case False
  let ?m = "n - 1" and ?L = "LEAST l. n - 1 < (2::int) ^ l"
  have m: "0 \<le> ?m" "?m < 2 ^ 32" "1 \<le> ?m" using assms False by auto
  have L: "?m < 2 ^ ?L" "?L \<le> 32" using m LeastI [of "\<lambda>l. ?m < 2 ^ l" 32] by (auto intro: Least_le)
  then have "?L \<noteq> 0" using m(3) by (metis power_0 not_le)
  then have "\<not> ?m < 2 ^ (?L - 1)" by (intro not_less_Least) simp
  then have low: "2 ^ (?L - 1) \<le> ?m" by simp
  have two: "(2::int) ^ ?L = 2 * 2 ^ (?L - 1)" using \<open>?L \<noteq> 0\<close> by (simp flip: power_Suc)
  have sub: "sub64 n 1 = ?m" using assms by (intro sub64_exact) (simp add: in64_def)
  have "(2::int) ^ ?L \<le> 2 ^ 32" using L(2) by (intro power_increasing) auto
  moreover have "(1::int) \<le> 2 ^ ?L" by simp
  ultimately have "in64 (2 ^ ?L)" by (intro in64_small) simp_all
  then have "add64 (mask ?L) 1 = 2 ^ ?L" by (simp add: add64_exact mask_eq_exp_minus_1)
  then have "nextPowerOf2 n = 2 ^ ?L"
    using sub smear_mask [OF m(1,2)] assms False by (simp add: nextPowerOf2_def smear_def Let_def)
  then show ?thesis using L low two by (intro exI [of _ ?L]) simp
qed

lemma NewOptimizedCacheWithSize_valid:
  assumes "0 < shardCount" and "shardCount \<le> 2 ^ 32"
  shows "oc_valid (NewOptimizedCacheWithSize numCPU shardCount maxSize)"
    and "oc_view (NewOptimizedCacheWithSize numCPU shardCount maxSize) = Map.empty"
proof -
  obtain k where k: "nextPowerOf2 shardCount = 2 ^ k" "k \<le> 32"
    using nextPowerOf2_power [of shardCount] assms by auto
  have "(2::int) ^ k \<le> 2 ^ 32" using k(2) by (intro power_increasing) auto
  moreover have "(1::int) \<le> 2 ^ k" by simp
  ultimately have "in64 (2 ^ k - 1)" by (intro in64_small) simp_all
  then have mask: "sub64 (2 ^ k) 1 = 2 ^ k - 1" by (rule sub64_exact)
  have new: "os_ok (new_shard n) []" "os_view (new_shard n) = Map.empty" for n
    by (auto simp: new_shard_def os_ok_def lru_def os_view_def)
  show v: "oc_valid (NewOptimizedCacheWithSize numCPU shardCount maxSize)"
    using assms k(1) mask \<open>2 ^ k \<le> 2 ^ 32\<close> new
    by (auto simp: oc_valid_def NewOptimizedCacheWithSize_def Let_def)
  show "oc_view (NewOptimizedCacheWithSize numCPU shardCount maxSize) = Map.empty"
    using oc_getShard_less [OF v] new(2)
    by (auto simp: oc_view_def NewOptimizedCacheWithSize_def Let_def)
qed

subsection \<open>Size and capacity\<close>

lemma promote_sizes [simp]:
  "os_size (promoteHotEntry a sh) = os_size sh" "os_maxSize (promoteHotEntry a sh) = os_maxSize sh"
proof -
  have "os_size (addToLRU a (removeLRU a sh)) = os_size sh \<and> os_maxSize (addToLRU a (removeLRU a sh)) = os_maxSize sh" for sh
    using addToLRU_same [of "removeLRU a sh" a] removeLRU_same [of sh a] by (simp add: same_shard_def)
  then show "os_size (promoteHotEntry a sh) = os_size sh" "os_maxSize (promoteHotEntry a sh) = os_maxSize sh"
    by (simp_all add: promoteHotEntry_def Let_def)
qed

lemma list_sizes [simp]:
  "os_size (removeLRU a sh) = os_size sh" "os_maxSize (removeLRU a sh) = os_maxSize sh"
  "os_size (addToLRU a sh) = os_size sh" "os_maxSize (addToLRU a sh) = os_maxSize sh"
  using removeLRU_same [of sh a] addToLRU_same [of sh a] by (simp_all add: same_shard_def)

lemma op_sizes:
  "os_size (snd (os_Get now k sh)) = os_size sh" "os_maxSize (snd (os_Get now k sh)) = os_maxSize sh"
  "os_maxSize (snd (evictLRU sh)) = os_maxSize sh"
  "os_size (snd (evictLRU sh)) = (if os_tail sh = None then os_size sh else sub64 (os_size sh) 1)"
  "os_maxSize (os_drop k sh) = os_maxSize sh"
  "os_size (os_drop k sh) = (if os_store sh k = None then os_size sh else sub64 (os_size sh) 1)"
  "os_maxSize (os_insert k e sh) = os_maxSize sh" "os_size (os_insert k e sh) = add64 (os_size sh) 1"
  "os_maxSize (os_Delete k sh) = os_maxSize sh"
  "os_size (os_Delete k sh) = (if os_store sh k = None then os_size sh else sub64 (os_size sh) 1)"
  "os_maxSize (os_Clear sh) = os_maxSize sh" "os_size (os_Clear sh) = 0"
  by (simp_all add: os_Get_def os_expire_def evictLRU_def os_drop_def os_insert_def os_Delete_def
      os_Clear_def Let_def split: option.splits)

text \<open>\<open>sized sh xs n\<close>: the shard holds \<open>xs\<close> and its counter is no smaller, and at most \<open>n\<close>.\<close>

definition sized :: "oc_shard \<Rightarrow> nat list \<Rightarrow> int \<Rightarrow> bool" where
  "sized sh xs n \<longleftrightarrow> os_ok sh xs \<and> int (length xs) \<le> os_size sh \<and> os_size sh \<le> n \<and> n < 2 ^ 62"

lemma size_arith:
  "0 < s \<Longrightarrow> s < 2 ^ 62 \<Longrightarrow> sub64 s 1 = s - 1" "0 \<le> s \<Longrightarrow> s < 2 ^ 62 \<Longrightarrow> add64 s 1 = s + 1"
  by (simp_all add: sub64_exact add64_exact in64_def)

lemma os_ok_store_nonempty: "os_ok sh xs \<Longrightarrow> os_store sh k \<noteq> None \<Longrightarrow> 0 < length xs"
  by (auto simp: os_ok_def)

lemma sized_drop:
  assumes "os_ok sh xs" and "int (length xs) \<le> os_size sh" and "os_size sh < 2 ^ 62"
  shows "os_store sh k \<noteq> None \<Longrightarrow> sub64 (os_size sh) 1 = os_size sh - 1"
    and "os_store sh k \<noteq> None \<Longrightarrow> 0 < os_size sh"
proof -
  show pos: "os_store sh k \<noteq> None \<Longrightarrow> 0 < os_size sh"
    using os_ok_store_nonempty [OF assms(1), of k] assms(2) by linarith
  then show "os_store sh k \<noteq> None \<Longrightarrow> sub64 (os_size sh) 1 = os_size sh - 1"
    using assms(3) by (simp add: size_arith)
qed

lemma sized_evict:
  assumes "sized sh xs n"
  shows "sized (snd (evictLRU sh)) (butlast xs) n"
    and "os_size (snd (evictLRU sh)) = (if xs = [] then os_size sh else os_size sh - 1)"
proof -
  have ok: "os_ok sh xs" using assms by (simp add: sized_def)
  then have tail: "os_tail sh = None \<longleftrightarrow> xs = []" by (simp add: os_ok_def lru_def last_or_def)
  have "xs \<noteq> [] \<Longrightarrow> 0 < os_size sh" using assms by (cases xs) (auto simp: sized_def)
  then show sz: "os_size (snd (evictLRU sh)) = (if xs = [] then os_size sh else os_size sh - 1)"
    using assms by (auto simp: op_sizes tail sized_def size_arith)
  show "sized (snd (evictLRU sh)) (butlast xs) n"
    using assms evictLRU_ok(1) [OF ok] sz by (cases xs rule: rev_cases) (auto simp: sized_def)
qed

text \<open>One insertion: what is evicted, what is replaced, and the counter.\<close>

lemma sized_set:
  fixes impl :: "float64 \<Rightarrow> int" and now ttl :: int and k :: string and e :: CacheEntry
  assumes "sized sh xs n" and "n + 1 < 2 ^ 62"
  defines "T \<equiv> evict_at impl sh" and "sh' \<equiv> snd (os_Set impl now k e ttl sh)"
  shows "\<exists>xs'. sized sh' xs' (n + 1) \<and> evict_at impl sh' = T
    \<and> length xs' \<le> Suc (if os_size sh \<ge> T then length xs - 1 else length xs)
    \<and> (os_size sh \<ge> T \<and> length xs \<le> 1 \<longrightarrow> os_size sh' \<ge> T)"
proof -
  define ev where "ev = (os_size sh \<ge> T)"
  define sh1 where "sh1 = (if ev then snd (evictLRU sh) else sh)"
  define ys where "ys = (if ev then butlast xs else xs)"
  have sh': "sh' = os_insert k (oc_newEntry now k e ttl) (os_drop k sh1)"
    by (simp add: sh'_def os_Set_def sh1_def ev_def T_def Let_def split_beta)
  have s1: "sized sh1 ys n" using assms(1) sized_evict(1) [OF assms(1)] by (simp add: sh1_def ys_def)
  then have ok1: "os_ok sh1 ys" and b1: "0 \<le> os_size sh1" "os_size sh1 \<le> n" "n < 2 ^ 62"
    "int (length ys) \<le> os_size sh1" by (auto simp: sized_def)
  obtain xs' where xs': "os_ok sh' xs'" "length xs' = Suc (if os_store sh1 k = None then length ys else length ys - 1)"
    using os_replace_ok(1) [OF ok1] unfolding sh' by blast
  have max: "os_maxSize sh' = os_maxSize sh" by (simp add: sh' op_sizes sh1_def)
  have drop: "os_size (os_drop k sh1) = (if os_store sh1 k = None then os_size sh1 else os_size sh1 - 1)"
    using sized_drop(1) [OF ok1, of k] b1 by (simp add: op_sizes)
  have "0 \<le> os_size (os_drop k sh1)" "os_size (os_drop k sh1) < 2 ^ 62"
    using drop sized_drop(2) [OF ok1, of k] b1 by (auto split: if_splits)
  then have size: "os_size sh' = (if os_store sh1 k = None then os_size sh1 + 1 else os_size sh1)"
    using drop by (simp add: sh' op_sizes size_arith)
  have "sized sh' xs' (n + 1)"
    using xs' size b1 os_ok_store_nonempty [OF ok1, of k] assms(2) by (cases ys) (auto simp: sized_def)
  moreover have "evict_at impl sh' = T" using max by (simp add: T_def evict_at_def)
  moreover have "length xs' \<le> Suc (if os_size sh \<ge> T then length xs - 1 else length xs)"
    using xs'(2) by (auto simp: ys_def ev_def)
  moreover have "os_size sh' \<ge> T" if "os_size sh \<ge> T" "length xs \<le> 1"
  proof -
    have "ys = []" using that by (cases xs) (auto simp: ys_def ev_def)
    then have "os_store sh1 k = None" using os_ok_store_nonempty [OF ok1, of k] by (cases "os_store sh1 k") auto
    moreover have "os_size sh1 \<ge> os_size sh - 1" using sized_evict(2) [OF assms(1)] by (simp add: sh1_def)
    ultimately show ?thesis using size that by simp
  qed
  ultimately show ?thesis by blast
qed

fun os_step :: "(float64 \<Rightarrow> int) \<Rightarrow> cache_op \<Rightarrow> oc_shard \<Rightarrow> oc_shard" where
  "os_step impl (OpGet now k) sh = snd (os_Get now k sh)"
| "os_step impl (OpSet now k e ttl) sh = snd (os_Set impl now k e ttl sh)"
| "os_step impl (OpDelete now k) sh = os_Delete k sh"
| "os_step impl (OpClear now) sh = os_Clear sh"

text \<open>Every operation keeps a shard within its capacity.\<close>

lemma capacity_step:
  assumes "sized sh xs n" and "n + 1 < 2 ^ 62" and "evict_at impl sh = T" and "int (length xs) \<le> max 1 T"
  shows "\<exists>xs'. sized (os_step impl op sh) xs' (n + 1) \<and> evict_at impl (os_step impl op sh) = T
    \<and> int (length xs') \<le> max 1 T"
proof -
  have ok: "os_ok sh xs" and b: "int (length xs) \<le> os_size sh" "os_size sh \<le> n" using assms(1) by (auto simp: sized_def)
  have T: "evict_at impl sh' = T" if "os_maxSize sh' = os_maxSize sh" for sh'
    using assms(3) that by (simp add: evict_at_def)
  show ?thesis
  proof (cases op)
    case (OpGet now k)
    obtain xs' where "os_ok (snd (os_Get now k sh)) xs'" "length xs' \<le> length xs"
      using os_Get_ok(1) [OF ok, of now k] by (auto split: if_splits)
    then show ?thesis using OpGet assms b T by (intro exI [of _ xs']) (auto simp: sized_def op_sizes)
  next
    case (OpSet now k e ttl)
    obtain xs' where xs': "sized (os_step impl op sh) xs' (n + 1)" "evict_at impl (os_step impl op sh) = T"
      "length xs' \<le> Suc (if os_size sh \<ge> T then length xs - 1 else length xs)"
      using sized_set [OF assms(1,2), of impl now k e ttl] assms(3) OpSet by auto
    moreover have "int (length xs') \<le> max 1 T"
    proof (cases "os_size sh \<ge> T")
      case True
      then show ?thesis using xs'(3) assms(4) by (cases xs) auto
    qed (use xs'(3) b in simp)
    ultimately show ?thesis by blast
  next
    case (OpDelete now k)
    obtain xs' where xs': "os_ok (os_Delete k sh) xs'"
      "length xs' = (if os_store sh k = None then length xs else length xs - 1)"
    proof (cases "os_store sh k")
      case None
      then show ?thesis using that [of xs] ok by (simp add: os_Delete_def)
    next
      case (Some a)
      then have "os_Delete k sh = (os_expire k a sh)\<lparr>os_size := sub64 (os_size (os_expire k a sh)) 1\<rparr>"
        by (simp add: os_Delete_def os_expire_def Let_def)
      then show ?thesis using that os_expire_ok(1) [OF ok Some] Some by auto
    qed
    have "os_size (os_Delete k sh) = (if os_store sh k = None then os_size sh else os_size sh - 1)"
      using sized_drop(1) [OF ok, of k] b assms(2) by (simp add: op_sizes)
    then show ?thesis using OpDelete xs' b T assms os_ok_store_nonempty [OF ok, of k]
      by (intro exI [of _ xs']; cases xs) (auto simp: sized_def op_sizes)
  next
    case (OpClear now)
    then show ?thesis using os_Clear_ok(1) [of sh] T assms b
      by (intro exI [of _ "[]"]) (auto simp: sized_def op_sizes)
  qed
qed

lemma capacity_run:
  assumes "sized sh xs n" and "n + int (length ops) < 2 ^ 62" and "evict_at impl sh = T" and "int (length xs) \<le> max 1 T"
  shows "\<exists>xs'. sized (fold (os_step impl) ops sh) xs' (n + int (length ops)) \<and> int (length xs') \<le> max 1 T"
  using assms
proof (induction ops arbitrary: sh xs n)
  case (Cons op ops)
  have "n + 1 < 2 ^ 62" using Cons.prems(2) by simp
  from capacity_step [OF Cons.prems(1) this Cons.prems(3,4), of op] obtain xs' where
    "sized (os_step impl op sh) xs' (n + 1)" "evict_at impl (os_step impl op sh) = T" "int (length xs') \<le> max 1 T" by blast
  from Cons.IH [OF this(1) _ this(2,3)] Cons.prems(2) show ?case by (simp add: ac_simps)
qed auto

lemma new_shard_sized: "sized (new_shard m) [] 0"
  by (auto simp: sized_def os_ok_def lru_def new_shard_def)

text \<open>The threshold lies between nothing and the size asked for.\<close>

lemma evict_at_bounds:
  assumes "0 \<le> os_maxSize sh" and "os_maxSize sh < 2 ^ 53"
  shows "0 \<le> evict_at impl sh" and "evict_at impl sh \<le> os_maxSize sh"
proof -
  let ?m = "of_int (os_maxSize sh) :: rat" and ?q = "rnd (85 / 100)"
  have "(85 / 100 :: rat) \<le> 2 ^ 1000" by (rule order_trans [of _ 1]) auto
  then have q: "EvictionThreshold = Fin ?q" by (simp add: EvictionThreshold_def flt_fin)
  have q1: "0 \<le> ?q" "?q \<le> 1"
    using rnd_nonneg [of "85 / 100"] rnd_le_pow2 [of "85 / 100" 0] by simp_all
  have m: "0 \<le> ?m" "?m \<le> 2 ^ 53" using assms int_le_pow2_rat [of "os_maxSize sh" 53] by simp_all
  have mq: "0 \<le> ?m * ?q" "?m * ?q \<le> ?m" using m q1 by (auto intro: mult_left_le)
  then have "?m * ?q \<le> 2 ^ 1000" using m(2) by (rule_tac order_trans [of _ "2 ^ 53"]) auto
  then have eq: "f_of_int (os_maxSize sh) * EvictionThreshold = Fin (rnd (?m * ?q))"
    using mq by (simp add: f_of_int_exact [OF assms] q flt_fin)
  have r: "0 \<le> rnd (?m * ?q)" "rnd (?m * ?q) \<le> ?m"
    using rnd_nonneg [OF mq(1)] rnd_mono [OF mq] rnd_of_int [of "os_maxSize sh"] assms by auto
  have "rnd (?m * ?q) < 2 ^ 63" using r(2) m(2) by (rule_tac order_le_less_trans [of _ "2 ^ 53"]) auto
  then have t: "evict_at impl sh = trunc_rat (rnd (?m * ?q))"
    using r(1) by (simp add: evict_at_def eq f_to_int64_fin(1))
  show "0 \<le> evict_at impl sh" unfolding t by (rule trunc_nonneg(1) [OF r(1)])
  show "evict_at impl sh \<le> os_maxSize sh"
    unfolding t using trunc_mono [OF r] by simp
qed

subsection \<open>Properties\<close>

text \<open>
  C9. The optimized cache is a cache: in any sequence of operations on a new one (with a positive
  number of shards, up to \<open>2 ^ 32\<close>, and moments that fit 64-bit nanoseconds) every lookup finds
  nothing or what the specification map answers, less the fields it does not keep; and a lookup
  that directly follows an insertion does find the entry, unless it has expired. The pointer
  structure (shards, lists, promotion, eviction) cannot be observed otherwise.
\<close>

theorem optimized_cache_within_map:
  fixes numCPU maxSize :: int
  assumes "0 < shardCount" and "shardCount \<le> 2 ^ 32"
    and "\<forall>now k e ttl. OpSet now k e ttl \<in> set ops \<longrightarrow> in64 (now + ttl)" and "in64 (now + ttl)"
  defines "c \<equiv> NewOptimizedCacheWithSize numCPU shardCount maxSize"
  shows "list_all2 (\<lambda>r spec. r = None \<or> r = map_option oc_returned spec)
      (run_cache oc_Get (oc_Set impl) oc_Delete oc_Clear ops c) (run_map ops Map.empty)
    \<and> last (run_cache oc_Get (oc_Set impl) oc_Delete oc_Clear (ops @ [OpSet now k e ttl, OpGet later k]) c) =
        (if later > now + ttl then None else Some (oc_returned (e\<lparr>ent_ExpiresAt := now + ttl\<rparr>)))"
proof
  note new = NewOptimizedCacheWithSize_valid [OF assms(1,2), of numCPU maxSize, folded c_def]
  have "oc.within c Map.empty" using new by (simp add: oc.within_def)
  then show "list_all2 (\<lambda>r spec. r = None \<or> r = map_option oc_returned spec)
      (run_cache oc_Get (oc_Set impl) oc_Delete oc_Clear ops c) (run_map ops Map.empty)"
    using assms(3) by (rule oc.run_cache_within)
  show "last (run_cache oc_Get (oc_Set impl) oc_Delete oc_Clear (ops @ [OpSet now k e ttl, OpGet later k]) c) =
        (if later > now + ttl then None else Some (oc_returned (e\<lparr>ent_ExpiresAt := now + ttl\<rparr>)))"
    by (rule oc.run_cache_set_get [OF new(1) assms(4)])
qed

lemma optimized_cache_within_map_witness:
  "last (run_cache oc_Get (oc_Set (\<lambda>_. 0)) oc_Delete oc_Clear
     [OpSet 0 ''j'' (plain_entry ''a'') 9, OpSet 1 ''k'' (plain_entry ''b'') 9, OpGet 5 ''k'']
     (NewOptimizedCacheWithSize 8 3 2)) = Some (oc_returned ((plain_entry ''b'')\<lparr>ent_ExpiresAt := 10\<rparr>))"
  using optimized_cache_within_map [of 3 "[OpSet 0 ''j'' (plain_entry ''a'') 9]" 1 9 "\<lambda>_. 0" 8 2 "''k''" "plain_entry ''b''" 5]
  by (simp add: in64_def)

text \<open>
  C23. Capacity: whatever is done to a new shard, its map and its doubly linked list stay the same
  set of entries, properly linked in both directions, and their number never exceeds the
  eviction threshold (or one), which is at most the size asked for.
\<close>

theorem shard_capacity:
  fixes impl :: "float64 \<Rightarrow> int"
  assumes "1 \<le> maxSize" and "maxSize < 2 ^ 53" and "length ops < 2 ^ 61"
  defines "sh \<equiv> fold (os_step impl) ops (new_shard maxSize)"
  shows "\<exists>xs. os_ok sh xs \<and> int (card (dom (os_store sh))) = int (length xs)
    \<and> int (length xs) \<le> max 1 (evict_at impl (new_shard maxSize))
    \<and> max 1 (evict_at impl (new_shard maxSize)) \<le> maxSize"
proof -
  have "int (length ops) < 2 ^ 62" using assms(3) by (simp add: of_nat_less_iff [symmetric] del: of_nat_less_iff)
  then obtain xs where xs: "os_ok sh xs" "int (length xs) \<le> max 1 (evict_at impl (new_shard maxSize))"
    using capacity_run [OF new_shard_sized, of ops impl maxSize "evict_at impl (new_shard maxSize)"]
    by (fastforce simp: sh_def sized_def)
  have "evict_at impl (new_shard maxSize) \<le> maxSize"
    using evict_at_bounds(2) [of "new_shard maxSize" impl] assms(1,2) by (simp add: new_shard_def)
  moreover have "card (dom (os_store sh)) = length xs"
  proof -
    have st: "os_store sh k = Some a \<longleftrightarrow> a \<in> set xs \<and> oe_key (os_heap sh a) = k" for k a
      using xs(1) by (simp add: os_ok_def)
    have "inj_on (\<lambda>a. oe_key (os_heap sh a)) (set xs)"
    proof (rule inj_onI)
      fix a b assume "a \<in> set xs" "b \<in> set xs" "oe_key (os_heap sh a) = oe_key (os_heap sh b)"
      then have "os_store sh (oe_key (os_heap sh a)) = Some a" "os_store sh (oe_key (os_heap sh a)) = Some b"
        by (simp_all add: st)
      then show "a = b" by simp
    qed
    moreover have "k \<in> dom (os_store sh) \<longleftrightarrow> k \<in> (\<lambda>a. oe_key (os_heap sh a)) ` set xs" for k
      using st [of k] by (cases "os_store sh k") (auto simp: dom_def)
    then have "dom (os_store sh) = (\<lambda>a. oe_key (os_heap sh a)) ` set xs" by blast
    moreover have "distinct xs" using xs(1) by (simp add: os_ok_def lru_def)
    ultimately show ?thesis by (simp add: card_image distinct_card)
  qed
  ultimately show ?thesis using xs assms(1) by auto
qed

lemma shard_capacity_witness:
  "\<exists>xs. os_ok (fold (os_step (\<lambda>_. 0)) [OpSet 0 ''a'' (plain_entry []) 5, OpSet 0 ''b'' (plain_entry []) 5] (new_shard 1)) xs
    \<and> int (length xs) \<le> 1"
proof -
  have "evict_at (\<lambda>_. 0) (new_shard 1) \<le> 1"
    using evict_at_bounds(2) [of "new_shard 1" "\<lambda>_. 0"] by (simp add: new_shard_def)
  then show ?thesis
    using shard_capacity [of 1 "[OpSet 0 ''a'' (plain_entry []) 5, OpSet 0 ''b'' (plain_entry []) 5]" "\<lambda>_. 0"] by auto
qed

text \<open>A round of the drift: an entry is stored and looked up after it has expired.\<close>

definition drift_round :: "nat \<Rightarrow> cache_op list" where
  "drift_round i = [OpSet 0 (itoa (int i)) (plain_entry []) 1, OpGet 2 (itoa (int i))]"

lemma drift_round_step:
  assumes "sized sh [] n" and "n + 1 < 2 ^ 62"
  shows "sized (fold (os_step impl) (drift_round i) sh) [] (n + 1)
    \<and> os_size (fold (os_step impl) (drift_round i) sh) = os_size sh + 1
    \<and> evict_at impl (fold (os_step impl) (drift_round i) sh) = evict_at impl sh"
proof -
  let ?k = "itoa (int i)"
  have ok: "os_ok sh []" and b: "0 \<le> os_size sh" "os_size sh \<le> n" using assms(1) by (auto simp: sized_def)
  have none: "os_tail sh = None" "os_store sh k = None" for k
    using ok os_ok_store_nonempty [OF ok, of k] by (auto simp: os_ok_def lru_def)
  define sh1 where "sh1 = snd (os_Set impl 0 ?k (plain_entry []) 1 sh)"
  have sh1: "sh1 = os_insert ?k (oc_newEntry 0 ?k (plain_entry []) 1) sh"
    by (simp add: sh1_def os_Set_def evictLRU_def os_drop_def none)
  have ok1: "os_ok sh1 [os_fresh sh]" "os_view sh1 = (os_view sh)(?k \<mapsto> oc_cacheEntry (oc_newEntry 0 ?k (plain_entry []) 1))"
    unfolding sh1 by (rule os_insert_ok [OF ok none(2)]; simp)+
  have size1: "os_size sh1 = os_size sh + 1" "os_maxSize sh1 = os_maxSize sh"
    using b assms(2) by (simp_all add: sh1 op_sizes size_arith)
  have get: "fst (os_Get 2 ?k sh1) = None"
    unfolding os_Get_ok(3) [OF ok1(1)] ok1(2)
    by (simp add: unexpired_def oc_cacheEntry_def oc_newEntry_def in64_def)
  have "os_store sh1 ?k \<noteq> None" using ok1(2) by (auto simp: os_view_def fun_eq_iff split: if_splits)
  with get os_Get_ok(1) [OF ok1(1), of 2 ?k] have "os_ok (snd (os_Get 2 ?k sh1)) []" by auto
  moreover have "fold (os_step impl) (drift_round i) sh = snd (os_Get 2 ?k sh1)"
    by (simp add: drift_round_def sh1_def)
  ultimately show ?thesis
    using size1 b assms(2) by (simp add: sized_def op_sizes evict_at_def)
qed

lemma drift_rounds:
  assumes "int n < 2 ^ 61"
  shows "sized (fold (os_step impl) (concat (map drift_round [0..<n])) (new_shard m)) [] (int n)
    \<and> os_size (fold (os_step impl) (concat (map drift_round [0..<n])) (new_shard m)) = int n
    \<and> evict_at impl (fold (os_step impl) (concat (map drift_round [0..<n])) (new_shard m)) = evict_at impl (new_shard m)"
  using assms
proof (induction n)
  case 0
  then show ?case using new_shard_sized [of m] by (simp add: new_shard_def)
next
  case (Suc n)
  then show ?case
    using drift_round_step [of "fold (os_step impl) (concat (map drift_round [0..<n])) (new_shard m)" "int n" impl n]
    by (simp add: ac_simps)
qed

lemma full_counter_run:
  assumes "sized sh xs n" and "length xs \<le> 1" and "os_size sh \<ge> evict_at impl sh"
    and "n + int (length sets) < 2 ^ 62"
  shows "\<exists>xs'. os_ok (fold (\<lambda>(now, k, e, ttl). os_step impl (OpSet now k e ttl)) sets sh) xs' \<and> length xs' \<le> 1"
  using assms
proof (induction sets arbitrary: sh xs n)
  case Nil
  then show ?case by (auto simp: sized_def)
next
  case (Cons s sets)
  obtain now k e ttl where s: "s = (now, k, e, ttl)" by (cases s) auto
  have "n + 1 < 2 ^ 62" using Cons.prems(4) by simp
  from sized_set [OF Cons.prems(1) this, of impl now k e ttl] Cons.prems(2,3) obtain xs' where xs':
    "sized (snd (os_Set impl now k e ttl sh)) xs' (n + 1)" "length xs' \<le> Suc (length xs - 1)"
    "os_size (snd (os_Set impl now k e ttl sh)) \<ge> evict_at impl (snd (os_Set impl now k e ttl sh))" by auto
  then have "length xs' \<le> 1" using Cons.prems(2) by simp
  from Cons.IH [OF xs'(1) this xs'(3)] Cons.prems(4) s show ?case by simp
qed

text \<open>
  The capacity leaks away: a lookup that finds an expired entry removes it but leaves the
  shard's counter where it was. After as many such rounds as the eviction threshold an empty
  shard counts as full, and from then on, however many entries are inserted, it holds one.
\<close>

theorem expired_lookups_shrink_shard:
  fixes impl :: "float64 \<Rightarrow> int"
  assumes "int n < 2 ^ 61" and "evict_at impl (new_shard maxSize) \<le> int n" and "int (length sets) < 2 ^ 61"
  defines "sh \<equiv> fold (os_step impl) (concat (map drift_round [0..<n])) (new_shard maxSize)"
  shows "os_store sh = Map.empty \<and> os_size sh = int n
    \<and> (\<exists>xs. os_ok (fold (\<lambda>(now, k, e, ttl). os_step impl (OpSet now k e ttl)) sets sh) xs \<and> length xs \<le> 1)"
proof -
  note d = drift_rounds [OF assms(1), of impl maxSize, folded sh_def]
  then have "os_store sh k = None" for k
    using os_ok_store_nonempty [of sh "[]" k] by (cases "os_store sh k") (auto simp: sized_def)
  moreover have "int n + int (length sets) < 2 ^ 62" using assms(1,3) by simp
  ultimately show ?thesis
    using d full_counter_run [of sh "[]" "int n" impl sets] assms(2) by auto
qed

lemma expired_lookups_shrink_shard_witness:
  "\<exists>xs. os_ok (fold (\<lambda>(now, k, e, ttl). os_step (\<lambda>_. 0) (OpSet now k e ttl))
      [(9, ''a'', plain_entry [], 50), (9, ''b'', plain_entry [], 50), (9, ''c'', plain_entry [], 50)]
      (fold (os_step (\<lambda>_. 0)) (concat (map drift_round [0..<1000])) (new_shard 1000))) xs \<and> length xs \<le> 1"
proof -
  have t: "evict_at (\<lambda>_. 0) (new_shard 1000) \<le> int 1000"
    using evict_at_bounds(2) [of "new_shard 1000" "\<lambda>_. 0"] by (simp add: new_shard_def)
  show ?thesis
    using expired_lookups_shrink_shard [OF _ t, of "[(9, ''a'', plain_entry [], 50), (9, ''b'', plain_entry [], 50), (9, ''c'', plain_entry [], 50)]"]
    by auto
qed

text \<open>
  Between the read lock of a lookup that finds an expired entry and the write lock it then
  takes, a second goroutine can find the same entry. The second removal cuts the list off from
  the shard: all other entries stay in the map, but can never be evicted any more.
\<close>

theorem double_expiry_loses_list:
  assumes "os_ok sh xs" and "os_store sh key = Some a"
  defines "sh' \<equiv> os_expire key a (os_expire key a sh)"
  shows "os_head sh' = None \<and> os_tail sh' = None \<and> os_store sh' = (os_store sh)(key := None)
    \<and> evictLRU sh' = (False, sh')"
proof -
  obtain ys zs where xs: "xs = ys @ a # zs" using os_ok_at [OF assms(1,2)] by blast
  have "lru sh (ys @ a # zs)" using assms(1) xs by (simp add: os_ok_def)
  then have "detached (removeLRU a sh) a" by (simp add: removeLRU_lru)
  note ends = removeLRU_detached [OF this]
  have st: "os_store (removeLRU a sh) = os_store sh" for sh
    using removeLRU_same [of sh a] by (simp add: same_shard_def)
  have e: "sh' = (removeLRU a (removeLRU a sh))\<lparr>os_store := (os_store sh)(key := None)\<rparr>"
    by (simp add: sh'_def os_expire_def removeLRU_store st)
  with ends show ?thesis by (simp add: evictLRU_def)
qed

lemma double_expiry_loses_list_witness:
  "\<exists>sh a. os_store sh ''k'' = Some a \<and> os_store sh ''j'' \<noteq> None \<and>
     os_tail (os_expire ''k'' a (os_expire ''k'' a sh)) = None \<and>
     os_store (os_expire ''k'' a (os_expire ''k'' a sh)) ''j'' \<noteq> None"
proof -
  let ?e = "\<lambda>k. oc_newEntry 0 k (plain_entry []) 1"
  define s0 where "s0 = new_shard 10"
  define s1 where "s1 = os_insert ''j'' (?e ''j'') s0"
  define s2 where "s2 = os_insert ''k'' (?e ''k'') s1"
  have ok0: "os_ok s0 []" using new_shard_sized [of 10] by (simp add: s0_def sized_def)
  have n0: "os_store s0 k = None" for k by (simp add: s0_def new_shard_def)
  note i1 = os_insert_ok [OF ok0 n0, of "?e ''j''" "''j''", simplified, folded s1_def]
  have n1: "os_store s1 ''k'' = None"
    using i1(2) n0 by (auto simp: os_view_def fun_eq_iff dest: spec [of _ "''k''"])
  note i2 = os_insert_ok [OF i1(1) n1, of "?e ''k''", simplified, folded s2_def]
  have "os_view s2 ''k'' \<noteq> None" "os_view s2 ''j'' \<noteq> None" using i1(2) i2(2) by simp_all
  then obtain a where a: "os_store s2 ''k'' = Some a" and j: "os_store s2 ''j'' \<noteq> None" by (auto simp: os_view_def)
  from double_expiry_loses_list [OF i2(1) a] a j show ?thesis by (intro exI [of _ s2] exI [of _ a]) simp
qed

text \<open>
  The provider over the optimized cache serves a stored response with its status and headers
  until it expires, but without its body: \<open>Set\<close> does not store one, and the response of \<open>Get\<close>
  has a nil \<open>Body\<close>, which no response of an HTTP client has.
\<close>

theorem optimized_provider_loses_body:
  assumes "oc_valid c" and "in64 (now + (if ttl \<le> 0 then defaultTTL else ttl))"
    and "later \<le> now + (if ttl \<le> 0 then defaultTTL else ttl)"
  shows "fst (ocp_Get later key (ocp_Set impl defaultTTL now key resp ttl c)) =
    Some \<lparr>rs_StatusCode = rs_StatusCode resp, rs_Header = rs_Header resp, rs_Body = NilBody, rs_Request = None\<rparr>"
proof -
  have set: "\<exists>e. ocp_Set impl defaultTTL now key resp ttl c =
      oc_Set impl now key e (if ttl \<le> 0 then defaultTTL else ttl) c
    \<and> ent_StatusCode e = rs_StatusCode resp \<and> ent_Header e = rs_Header resp \<and> ent_Response e = None"
    by (auto simp: ocp_Set_def Let_def)
  have "fst (ocp_Get later key c') = map_option (\<lambda>e. \<lparr>rs_StatusCode = ent_StatusCode e, rs_Header = ent_Header e,
      rs_Body = NilBody, rs_Request = None\<rparr>) (fst (oc_Get later key c'))" for c'
    by (auto simp: ocp_Get_def split: prod.splits option.splits)
  with set show ?thesis
    using oc.get_after_set [OF assms(1,2), of later key impl] assms(3) by (auto simp: oc_returned_def)
qed

lemma optimized_provider_loses_body_witness:
  "fst (ocp_Get 3 ''k'' (ocp_Set (\<lambda>_. 0) 10 0 ''k'' (text_response ''hello'') 0 (NewOptimizedCache 8))) =
    Some \<lparr>rs_StatusCode = 200, rs_Header = Map.empty, rs_Body = NilBody, rs_Request = None\<rparr>"
  by (subst optimized_provider_loses_body)
     (simp_all add: NewOptimizedCache_def NewOptimizedCacheWithSize_valid in64_def text_response_def)

end
