(* ===== verification/Logging.thy ===== *)
theory Logging
  imports GoStrings
begin

text \<open>
  The \<open>SimpleLogger\<close> of \<open>types.go\<close>: what it prints for a message and its arguments. It hands the
  message to \<open>fmt.Printf\<close> as the format, of which \<open>Printf\<close> models the verbs \<open>%v\<close>, \<open>%s\<close>, \<open>%d\<close> and
  \<open>%%\<close> and the complaints of the library; a format with any other verb or with flags has no value
  here. The text of a \<open>time.Duration\<close> is a parameter.
\<close>

subsection \<open>fmt.Printf\<close>

text \<open>The arguments by their Go types; these are all that the client passes.\<close>

datatype log_arg = StringArg string | IntArg int | Int64Arg int | DurationArg int | CacheModeArg int

fun arg_type :: "log_arg \<Rightarrow> string" where
  "arg_type (StringArg s) = ''string''"
| "arg_type (IntArg n) = ''int''"
| "arg_type (Int64Arg n) = ''int64''"
| "arg_type (DurationArg d) = ''time.Duration''"
| "arg_type (CacheModeArg m) = ''klayengo.CacheMode''"

fun arg_text :: "(int \<Rightarrow> string) \<Rightarrow> log_arg \<Rightarrow> string" where
  "arg_text dt (StringArg s) = s"
| "arg_text dt (IntArg n) = itoa n"
| "arg_text dt (Int64Arg n) = itoa n"
| "arg_text dt (DurationArg d) = dt d"
| "arg_text dt (CacheModeArg m) = itoa m"

definition typed_text :: "(int \<Rightarrow> string) \<Rightarrow> log_arg \<Rightarrow> string" where
  "typed_text dt a = arg_type a @ ''='' @ arg_text dt a"

definition bad_verb :: "(int \<Rightarrow> string) \<Rightarrow> char \<Rightarrow> log_arg \<Rightarrow> string" where
  "bad_verb dt verb a = ''%!'' @ [verb] @ ''('' @ typed_text dt a @ '')''"

fun print_arg :: "(int \<Rightarrow> string) \<Rightarrow> char \<Rightarrow> log_arg \<Rightarrow> string" where
  "print_arg dt verb (StringArg s) =
     (if verb = CHR ''d'' then bad_verb dt verb (StringArg s) else s)"
| "print_arg dt verb (DurationArg d) =
     (if verb = CHR ''d'' then itoa d else dt d)"
| "print_arg dt verb a =
     (if verb = CHR ''s'' then bad_verb dt verb a else arg_text dt a)"

text \<open>What is left of the arguments at the end of the format.\<close>

fun extra_list :: "(int \<Rightarrow> string) \<Rightarrow> log_arg list \<Rightarrow> string" where
  "extra_list dt [] = []"
| "extra_list dt [a] = typed_text dt a"
| "extra_list dt (a # as) = typed_text dt a @ '', '' @ extra_list dt as"

definition extra :: "(int \<Rightarrow> string) \<Rightarrow> log_arg list \<Rightarrow> string" where
  "extra dt as = (if as = [] then [] else ''%!(EXTRA '' @ extra_list dt as @ '')'')"

definition modelled_verb :: "char \<Rightarrow> bool" where
  "modelled_verb c \<longleftrightarrow> c \<in> {CHR ''v'', CHR ''s'', CHR ''d''}"

fun Printf :: "(int \<Rightarrow> string) \<Rightarrow> string \<Rightarrow> log_arg list \<Rightarrow> string option" where
  "Printf dt [] as = Some (extra dt as)"
| "Printf dt (c # cs) as =
     (if c \<noteq> CHR ''%'' then map_option ((#) c) (Printf dt cs as)
      else (case cs of
              [] \<Rightarrow> Some (''%!(NOVERB)'' @ extra dt as)
            | verb # cs' \<Rightarrow>
                if verb = CHR ''%'' then map_option ((#) verb) (Printf dt cs' as)
                else if \<not> modelled_verb verb then None
                else (case as of
                        [] \<Rightarrow> map_option ((@) (''%!'' @ [verb] @ ''(MISSING)'')) (Printf dt cs' [])
                      | a # as' \<Rightarrow> map_option ((@) (print_arg dt verb a)) (Printf dt cs' as'))))"

subsection \<open>SimpleLogger\<close>

definition newline :: string where
  "newline = [CHR 0x0A]"

definition SimpleLogger_Debug :: "(int \<Rightarrow> string) \<Rightarrow> string \<Rightarrow> log_arg list \<Rightarrow> string option" where
  "SimpleLogger_Debug dt msg args =
     (if length args > 0 then Printf dt (''[DEBUG] '' @ msg @ newline) args
      else Printf dt (''[DEBUG] %s'' @ newline) [StringArg msg])"

definition SimpleLogger_Info :: "(int \<Rightarrow> string) \<Rightarrow> string \<Rightarrow> log_arg list \<Rightarrow> string option" where
  "SimpleLogger_Info dt msg args =
     (if length args > 0 then Printf dt (''[INFO] '' @ msg @ newline) args
      else Printf dt (''[INFO] %s'' @ newline) [StringArg msg])"

definition SimpleLogger_Warn :: "(int \<Rightarrow> string) \<Rightarrow> string \<Rightarrow> log_arg list \<Rightarrow> string option" where
  "SimpleLogger_Warn dt msg args =
     (if length args > 0 then Printf dt (''[WARN] '' @ msg @ newline) args
      else Printf dt (''[WARN] %s'' @ newline) [StringArg msg])"

definition SimpleLogger_Error :: "(int \<Rightarrow> string) \<Rightarrow> string \<Rightarrow> log_arg list \<Rightarrow> string option" where
  "SimpleLogger_Error dt msg args =
     (if length args > 0 then Printf dt (''[ERROR] '' @ msg @ newline) args
      else Printf dt (''[ERROR] %s'' @ newline) [StringArg msg])"

text \<open>The \<open>Logger\<close> interface, for the levels.\<close>

datatype log_level = Debug | Info | Warn | Severe

definition level_tag :: "log_level \<Rightarrow> string" where
  "level_tag level = (case level of Debug \<Rightarrow> ''[DEBUG] '' | Info \<Rightarrow> ''[INFO] '' | Warn \<Rightarrow> ''[WARN] '' | Severe \<Rightarrow> ''[ERROR] '')"

definition SimpleLogger_call :: "(int \<Rightarrow> string) \<Rightarrow> log_level \<times> string \<times> log_arg list \<Rightarrow> string option" where
  "SimpleLogger_call dt = (\<lambda>(level, msg, args).
     case level of
       Debug \<Rightarrow> SimpleLogger_Debug dt msg args
     | Info \<Rightarrow> SimpleLogger_Info dt msg args
     | Warn \<Rightarrow> SimpleLogger_Warn dt msg args
     | Severe \<Rightarrow> SimpleLogger_Error dt msg args)"

lemmas logger_defs = SimpleLogger_call_def SimpleLogger_Debug_def SimpleLogger_Info_def
  SimpleLogger_Warn_def SimpleLogger_Error_def level_tag_def

lemma Printf_plain: "CHR ''%'' \<notin> set t \<Longrightarrow> Printf dt (t @ rest) as = map_option ((@) t) (Printf dt rest as)"
  by (cases "Printf dt rest as"; induction t) auto

lemma Printf_no_verb: "CHR ''%'' \<notin> set t \<Longrightarrow> Printf dt t as = Some (t @ extra dt as)"
  using Printf_plain [of t dt "[]" as] by simp

lemma newline_plain [simp]: "CHR ''%'' \<notin> set newline"
  by (simp add: newline_def)

text \<open>Without arguments the message is printed as it is, whatever it contains.\<close>

lemma logger_verbatim: "SimpleLogger_call dt (level, msg, []) = Some (level_tag level @ msg @ newline)"
proof -
  have "Printf dt (CHR ''%'' # CHR ''s'' # newline) [StringArg msg] = Some (msg @ newline)"
    by (simp add: Printf_no_verb modelled_verb_def extra_def)
  then show ?thesis by (cases level) (simp_all add: logger_defs)
qed

text \<open>
  With arguments the message is the format: where it has no verb, all of them are reported as
  extra ones, after the end of the line.
\<close>

lemma logger_extra:
  assumes "CHR ''%'' \<notin> set msg" and "args \<noteq> []"
  shows "SimpleLogger_call dt (level, msg, args) =
    Some (level_tag level @ msg @ newline @ ''%!(EXTRA '' @ extra_list dt args @ '')'')"
  using assms by (cases level) (simp_all add: logger_defs Printf_no_verb extra_def)

end
