(* ===== verification/Metrics.thy ===== *)
theory Metrics
  imports GoStrings GoFloat CircuitBreaker ClientErrors
begin

text \<open>
  The metrics collector (\<open>metrics.go\<close>). Prometheus itself is not modelled: what the collector does
  is the sequence of calls it makes on the vectors of the library, the type \<open>prom_call\<close>, and what it
  asks of the registry is the parameter \<open>register\<close> (\<open>None\<close> where \<open>promauto\<close> panics). A nil collector
  is \<open>None\<close>; every operation then makes no call.
\<close>

subsection \<open>Vectors and calls on them\<close>

datatype vec_kind = Counter | Gauge | Histogram

record prom_vec =
  vec_kind :: vec_kind
  vec_name :: string
  vec_help :: string
  vec_labels :: "string list"

text \<open>The method called on the result of \<open>WithLabelValues\<close>.\<close>

datatype prom_method = Inc | Dec | SetTo float64 | Observe float64

datatype prom_call = Call (call_vec: prom_vec) (call_values: "string list") (call_method: prom_method)

record MetricsCollector =
  mc_requestsTotal :: prom_vec
  mc_requestDuration :: prom_vec
  mc_requestsInFlight :: prom_vec
  mc_retriesTotal :: prom_vec
  mc_circuitBreakerState :: prom_vec
  mc_rateLimiterTokens :: prom_vec
  mc_rateLimiterExceeded :: prom_vec
  mc_cacheHits :: prom_vec
  mc_cacheMisses :: prom_vec
  mc_cacheSize :: prom_vec
  mc_deduplicationHits :: prom_vec
  mc_retryBudgetExceeded :: prom_vec
  mc_errorsTotal :: prom_vec

text \<open>The vectors in the order they are registered in.\<close>

definition klayengo_vectors :: MetricsCollector where
  "klayengo_vectors =
     \<lparr>mc_requestsTotal = \<lparr>vec_kind = Counter, vec_name = ''klayengo_requests_total'',
        vec_help = ''Total number of HTTP requests made'',
        vec_labels = [''method'', ''status_code'', ''endpoint'']\<rparr>,
      mc_requestDuration = \<lparr>vec_kind = Histogram, vec_name = ''klayengo_request_duration_seconds'',
        vec_help = ''Duration of HTTP requests in seconds'',
        vec_labels = [''method'', ''status_code'', ''endpoint'']\<rparr>,
      mc_requestsInFlight = \<lparr>vec_kind = Gauge, vec_name = ''klayengo_requests_in_flight'',
        vec_help = ''Number of HTTP requests currently in flight'',
        vec_labels = [''method'', ''endpoint'']\<rparr>,
      mc_retriesTotal = \<lparr>vec_kind = Counter, vec_name = ''klayengo_retries_total'',
        vec_help = ''Total number of retry attempts'',
        vec_labels = [''method'', ''endpoint'', ''attempt'']\<rparr>,
      mc_circuitBreakerState = \<lparr>vec_kind = Gauge, vec_name = ''klayengo_circuit_breaker_state'',
        vec_help = ''Current state of circuit breaker (0=closed, 1=open, 2=half-open)'',
        vec_labels = [''name'']\<rparr>,
      mc_rateLimiterTokens = \<lparr>vec_kind = Gauge, vec_name = ''klayengo_rate_limiter_tokens'',
        vec_help = ''Current number of available rate limiter tokens'',
        vec_labels = [''name'']\<rparr>,
      mc_rateLimiterExceeded = \<lparr>vec_kind = Counter, vec_name = ''klayengo_rate_limited_total'',
        vec_help = ''Total number of times rate limiting was enforced'',
        vec_labels = [''key'']\<rparr>,
      mc_cacheHits = \<lparr>vec_kind = Counter, vec_name = ''klayengo_cache_hits_total'',
        vec_help = ''Total number of cache hits'',
        vec_labels = [''method'', ''endpoint'']\<rparr>,
      mc_cacheMisses = \<lparr>vec_kind = Counter, vec_name = ''klayengo_cache_misses_total'',
        vec_help = ''Total number of cache misses'',
        vec_labels = [''method'', ''endpoint'']\<rparr>,
      mc_cacheSize = \<lparr>vec_kind = Gauge, vec_name = ''klayengo_cache_size'',
        vec_help = ''Current number of entries in cache'',
        vec_labels = [''name'']\<rparr>,
      mc_deduplicationHits = \<lparr>vec_kind = Counter, vec_name = ''klayengo_deduplication_hits_total'',
        vec_help = ''Total number of deduplication hits'',
        vec_labels = [''method'', ''endpoint'']\<rparr>,
      mc_retryBudgetExceeded = \<lparr>vec_kind = Counter, vec_name = ''klayengo_retry_budget_exceeded_total'',
        vec_help = ''Total number of times retry budget was exceeded'',
        vec_labels = [''host'']\<rparr>,
      mc_errorsTotal = \<lparr>vec_kind = Counter, vec_name = ''klayengo_errors_total'',
        vec_help = ''Total number of errors encountered'',
        vec_labels = [''type'', ''method'', ''endpoint'']\<rparr>\<rparr>"

definition vectors_of :: "MetricsCollector \<Rightarrow> prom_vec list" where
  "vectors_of mc =
     [mc_requestsTotal mc, mc_requestDuration mc, mc_requestsInFlight mc, mc_retriesTotal mc,
      mc_circuitBreakerState mc, mc_rateLimiterTokens mc, mc_rateLimiterExceeded mc, mc_cacheHits mc,
      mc_cacheMisses mc, mc_cacheSize mc, mc_deduplicationHits mc, mc_retryBudgetExceeded mc,
      mc_errorsTotal mc]"

fun register_all :: "(prom_vec \<Rightarrow> 'r \<Rightarrow> 'r option) \<Rightarrow> prom_vec list \<Rightarrow> 'r \<Rightarrow> 'r option" where
  "register_all register [] r = Some r"
| "register_all register (v # vs) r =
     (case register v r of None \<Rightarrow> None | Some r' \<Rightarrow> register_all register vs r')"

text \<open>
  \<open>is_registry\<close>: whether the registerer is a \<open>*prometheus.Registry\<close>, which the constructor asserts
  after everything is registered.
\<close>

definition NewMetricsCollectorWithRegistry ::
  "(prom_vec \<Rightarrow> 'r \<Rightarrow> 'r option) \<Rightarrow> ('r \<Rightarrow> bool) \<Rightarrow> 'r \<Rightarrow> (MetricsCollector \<times> 'r) option" where
  "NewMetricsCollectorWithRegistry register is_registry r =
     (case register_all register (vectors_of klayengo_vectors) r of
        None \<Rightarrow> None
      | Some r' \<Rightarrow> if is_registry r' then Some (klayengo_vectors, r') else None)"

subsection \<open>Operations\<close>

text \<open>\<open>Duration.Seconds()\<close>.\<close>

definition duration_Seconds :: "int \<Rightarrow> float64" where
  "duration_Seconds d =
     f_of_int (d sdiv Second) + f_quotient (f_of_int (d smod Second)) (f_of_int 1000000000)"

text \<open>\<open>calls\<close> is what was called so far.\<close>

definition RecordRequest :: "MetricsCollector option \<Rightarrow> string \<Rightarrow> string \<Rightarrow> int \<Rightarrow> int \<Rightarrow> prom_call list \<Rightarrow> prom_call list" where
  "RecordRequest mc method endpoint statusCode duration calls =
     (case mc of
        None \<Rightarrow> calls
      | Some mc \<Rightarrow>
          (let statusCodeStr = itoa statusCode
           in calls @ [Call (mc_requestsTotal mc) [method, statusCodeStr, endpoint] Inc,
                     Call (mc_requestDuration mc) [method, statusCodeStr, endpoint]
                       (Observe (duration_Seconds duration))]))"

definition RecordRequestStart :: "MetricsCollector option \<Rightarrow> string \<Rightarrow> string \<Rightarrow> prom_call list \<Rightarrow> prom_call list" where
  "RecordRequestStart mc method endpoint calls =
     (case mc of
        None \<Rightarrow> calls
      | Some mc \<Rightarrow> calls @ [Call (mc_requestsInFlight mc) [method, endpoint] Inc])"

definition RecordRequestEnd :: "MetricsCollector option \<Rightarrow> string \<Rightarrow> string \<Rightarrow> prom_call list \<Rightarrow> prom_call list" where
  "RecordRequestEnd mc method endpoint calls =
     (case mc of
        None \<Rightarrow> calls
      | Some mc \<Rightarrow> calls @ [Call (mc_requestsInFlight mc) [method, endpoint] Dec])"

definition RecordRetry :: "MetricsCollector option \<Rightarrow> string \<Rightarrow> string \<Rightarrow> int \<Rightarrow> prom_call list \<Rightarrow> prom_call list" where
  "RecordRetry mc method endpoint attempt calls =
     (case mc of
        None \<Rightarrow> calls
      | Some mc \<Rightarrow> (let attemptStr = itoa attempt
           in calls @ [Call (mc_retriesTotal mc) [method, endpoint, attemptStr] Inc]))"

definition RecordCircuitBreakerState :: "MetricsCollector option \<Rightarrow> string \<Rightarrow> int \<Rightarrow> prom_call list \<Rightarrow> prom_call list" where
  "RecordCircuitBreakerState mc name state calls =
     (case mc of
        None \<Rightarrow> calls
      | Some mc \<Rightarrow> (let stateValue =
              (if state = StateClosed then 0
               else if state = StateOpen then f_of_int 1
               else if state = StateHalfOpen then f_of_int 2
               else 0)
           in calls @ [Call (mc_circuitBreakerState mc) [name] (SetTo stateValue)]))"

definition RecordRateLimiterTokens :: "MetricsCollector option \<Rightarrow> string \<Rightarrow> int \<Rightarrow> prom_call list \<Rightarrow> prom_call list" where
  "RecordRateLimiterTokens mc name tokens calls =
     (case mc of
        None \<Rightarrow> calls
      | Some mc \<Rightarrow> calls @ [Call (mc_rateLimiterTokens mc) [name] (SetTo (f_of_int tokens))])"

definition RecordRateLimiterExceeded :: "MetricsCollector option \<Rightarrow> string \<Rightarrow> prom_call list \<Rightarrow> prom_call list" where
  "RecordRateLimiterExceeded mc key calls =
     (case mc of
        None \<Rightarrow> calls
      | Some mc \<Rightarrow> calls @ [Call (mc_rateLimiterExceeded mc) [key] Inc])"

definition RecordCacheHit :: "MetricsCollector option \<Rightarrow> string \<Rightarrow> string \<Rightarrow> prom_call list \<Rightarrow> prom_call list" where
  "RecordCacheHit mc method endpoint calls =
     (case mc of
        None \<Rightarrow> calls
      | Some mc \<Rightarrow> calls @ [Call (mc_cacheHits mc) [method, endpoint] Inc])"

definition RecordCacheMiss :: "MetricsCollector option \<Rightarrow> string \<Rightarrow> string \<Rightarrow> prom_call list \<Rightarrow> prom_call list" where
  "RecordCacheMiss mc method endpoint calls =
     (case mc of
        None \<Rightarrow> calls
      | Some mc \<Rightarrow> calls @ [Call (mc_cacheMisses mc) [method, endpoint] Inc])"

definition RecordCacheSize :: "MetricsCollector option \<Rightarrow> string \<Rightarrow> int \<Rightarrow> prom_call list \<Rightarrow> prom_call list" where
  "RecordCacheSize mc name sz calls =
     (case mc of
        None \<Rightarrow> calls
      | Some mc \<Rightarrow> calls @ [Call (mc_cacheSize mc) [name] (SetTo (f_of_int sz))])"

definition RecordError :: "MetricsCollector option \<Rightarrow> string \<Rightarrow> string \<Rightarrow> string \<Rightarrow> prom_call list \<Rightarrow> prom_call list" where
  "RecordError mc errorType method endpoint calls =
     (case mc of
        None \<Rightarrow> calls
      | Some mc \<Rightarrow> calls @ [Call (mc_errorsTotal mc) [errorType, method, endpoint] Inc])"

definition RecordDeduplicationHit :: "MetricsCollector option \<Rightarrow> string \<Rightarrow> string \<Rightarrow> prom_call list \<Rightarrow> prom_call list" where
  "RecordDeduplicationHit mc method endpoint calls =
     (case mc of
        None \<Rightarrow> calls
      | Some mc \<Rightarrow> calls @ [Call (mc_deduplicationHits mc) [method, endpoint] Inc])"

definition RecordRetryBudgetExceeded :: "MetricsCollector option \<Rightarrow> string \<Rightarrow> prom_call list \<Rightarrow> prom_call list" where
  "RecordRetryBudgetExceeded mc endpoint calls =
     (case mc of
        None \<Rightarrow> calls
      | Some mc \<Rightarrow> (let idx = index_of (CHR ''/'') endpoint;
               host = (if idx \<noteq> - 1 then take (nat idx) endpoint else endpoint)
           in calls @ [Call (mc_retryBudgetExceeded mc) [host] Inc]))"

definition GetRegistry :: "MetricsCollector \<times> 'r \<Rightarrow> 'r" where
  "GetRegistry mc = snd mc"

subsection \<open>Sequences of records\<close>

datatype metric_event =
  OnRequest string string int int | OnStart string string | OnEnd string string
| OnRetry string string int | OnBreaker string int | OnTokens string int | OnLimited string
| OnHit string string | OnMiss string string | OnSize string int | OnError string string string
| OnDuplicate string string | OnBudget string

fun record_event :: "MetricsCollector option \<Rightarrow> metric_event \<Rightarrow> prom_call list \<Rightarrow> prom_call list" where
  "record_event mc (OnRequest m e sc d) = RecordRequest mc m e sc d"
| "record_event mc (OnStart m e) = RecordRequestStart mc m e"
| "record_event mc (OnEnd m e) = RecordRequestEnd mc m e"
| "record_event mc (OnRetry m e a) = RecordRetry mc m e a"
| "record_event mc (OnBreaker n st) = RecordCircuitBreakerState mc n st"
| "record_event mc (OnTokens n t) = RecordRateLimiterTokens mc n t"
| "record_event mc (OnLimited k) = RecordRateLimiterExceeded mc k"
| "record_event mc (OnHit m e) = RecordCacheHit mc m e"
| "record_event mc (OnMiss m e) = RecordCacheMiss mc m e"
| "record_event mc (OnSize n k) = RecordCacheSize mc n k"
| "record_event mc (OnError t m e) = RecordError mc t m e"
| "record_event mc (OnDuplicate m e) = RecordDeduplicationHit mc m e"
| "record_event mc (OnBudget e) = RecordRetryBudgetExceeded mc e"

lemmas record_defs =
  RecordRequest_def RecordRequestStart_def RecordRequestEnd_def RecordRetry_def
  RecordCircuitBreakerState_def RecordRateLimiterTokens_def RecordRateLimiterExceeded_def
  RecordCacheHit_def RecordCacheMiss_def RecordCacheSize_def RecordError_def
  RecordDeduplicationHit_def RecordRetryBudgetExceeded_def

text \<open>What the library accepts: a value for every label, and a method that the kind of vector has.\<close>

fun method_of_kind :: "vec_kind \<Rightarrow> prom_method \<Rightarrow> bool" where
  "method_of_kind Counter f \<longleftrightarrow> f = Inc"
| "method_of_kind Gauge f \<longleftrightarrow> f = Inc \<or> f = Dec \<or> (\<exists>x. f = SetTo x)"
| "method_of_kind Histogram f \<longleftrightarrow> (\<exists>x. f = Observe x)"

definition accepted :: "MetricsCollector \<Rightarrow> prom_call \<Rightarrow> bool" where
  "accepted mc c \<longleftrightarrow> call_vec c \<in> set (vectors_of mc) \<and> length (call_values c) = length (vec_labels (call_vec c))
     \<and> method_of_kind (vec_kind (call_vec c)) (call_method c)"

lemma record_event_accepted:
  "list_all (accepted klayengo_vectors) calls \<Longrightarrow>
   list_all (accepted klayengo_vectors) (record_event (Some klayengo_vectors) e calls)"
  by (cases e) (simp_all add: record_defs accepted_def vectors_of_def klayengo_vectors_def Let_def)

lemma record_nil [simp]: "record_event None e calls = calls"
  by (cases e) (simp_all add: record_defs)

lemma register_all_names:
  assumes "register_all register vs r = Some r'"
    and "\<And>v r r'. register v r = Some r' \<Longrightarrow> names r' = insert (vec_name v) (names r)"
  shows "names r' = names r \<union> vec_name ` set vs"
  using assms(1) by (induction vs arbitrary: r) (auto split: option.splits dest: assms(2))

subsection \<open>The gauge of requests in flight\<close>

definition in_flight :: "string \<Rightarrow> string \<Rightarrow> prom_call list \<Rightarrow> int" where
  "in_flight m e calls =
     sum_list (map (\<lambda>c. if vec_name (call_vec c) = ''klayengo_requests_in_flight'' \<and> call_values c = [m, e]
                        then (case call_method c of Inc \<Rightarrow> 1 | Dec \<Rightarrow> - 1 | _ \<Rightarrow> 0) else 0) calls)"

lemma in_flight_simps [simp]:
  "in_flight m e [] = 0"
  "in_flight m e (xs @ ys) = in_flight m e xs + in_flight m e ys"
  by (simp_all add: in_flight_def)

lemma in_flight_start [simp]:
  "in_flight m e (RecordRequestStart (Some klayengo_vectors) m' e' calls) =
     in_flight m e calls + (if m' = m \<and> e' = e then 1 else 0)"
  by (simp add: RecordRequestStart_def klayengo_vectors_def) (simp add: in_flight_def)

lemma in_flight_end [simp]:
  "in_flight m e (RecordRequestEnd (Some klayengo_vectors) m' e' calls) =
     in_flight m e calls - (if m' = m \<and> e' = e then 1 else 0)"
  by (simp add: RecordRequestEnd_def klayengo_vectors_def) (simp add: in_flight_def)

subsection \<open>Properties\<close>



text \<open>
  One registry takes one collector: if it refuses a name it has, as Prometheus does, a second
  collector on it panics, so a second client with \<open>WithMetrics()\<close> cannot be built.
\<close>

lemma second_collector_panics:
  assumes "NewMetricsCollectorWithRegistry register is_registry r = Some (mc, r')"
    and "\<And>v r r'. register v r = Some r' \<Longrightarrow> names r' = insert (vec_name v) (names r)"
    and "\<And>v r. vec_name v \<in> names r \<Longrightarrow> register v r = None"
  shows "NewMetricsCollectorWithRegistry register is_registry r' = None"
proof -
  from assms(1) have "register_all register (vectors_of klayengo_vectors) r = Some r'"
    by (auto simp: NewMetricsCollectorWithRegistry_def split: option.splits if_splits)
  then have "names r' = names r \<union> vec_name ` set (vectors_of klayengo_vectors)"
    by (rule register_all_names) (rule assms(2))
  then have "vec_name (mc_requestsTotal klayengo_vectors) \<in> names r'" by (simp add: vectors_of_def)
  with assms(3) show ?thesis by (simp add: NewMetricsCollectorWithRegistry_def vectors_of_def)
qed

text \<open>
  The label of an exceeded retry budget is the host: the collector cuts the endpoint at its first
  slash, which for a URL whose host has none and whose path is empty or begins with one gives the
  host back.
\<close>

lemma budget_label_is_host:
  assumes "rq_URL req = Some u" and "CHR ''/'' \<notin> set (url_Host u)"
    and "url_Path u = [] \<or> hd (url_Path u) = CHR ''/''"
  shows "RecordRetryBudgetExceeded (Some mc) (getEndpointFromRequest req) calls =
    calls @ [Call (mc_retryBudgetExceeded mc) [url_Host u] Inc]"
proof -
  have "getEndpointFromRequest req = url_Host u @ CHR ''/'' # tl (url_Path u)"
    using assms(1,3) list.collapse [of "url_Path u"]
    by (cases "url_Path u = []") (auto simp: getEndpointFromRequest_def)
  then obtain rest where e: "getEndpointFromRequest req = url_Host u @ CHR ''/'' # rest" by blast
  have "takeWhile (\<lambda>x. x \<noteq> CHR ''/'') (url_Host u @ CHR ''/'' # rest) = url_Host u"
    using assms(2) by (simp add: takeWhile_append)
  then show ?thesis by (simp add: RecordRetryBudgetExceeded_def e index_of_def)
qed

end
