(* ===== verification/Backoff.thy ===== *)
theory Backoff
  imports GoFloat
begin

text \<open>
  The retry delays of \<open>internal/backoff\<close>: the two strategies and the calculator that delegates
  to one of them. A call of \<open>rand.Float64()\<close> is the argument \<open>rand\<close>, and \<open>impl\<close> is what the
  platform yields for a float that does not fit an integer. Durations are nanoseconds.
  The locale \<open>strategy\<close> is the contract of the \<open>Strategy\<close> interface.
\<close>

subsection \<open>The strategies\<close>

primrec pow_loop :: "float64 \<Rightarrow> nat \<Rightarrow> float64 \<Rightarrow> float64" where
  "pow_loop base 0 result = result"
| "pow_loop base (Suc n) result = pow_loop base n (result * base)"

definition pow :: "float64 \<Rightarrow> int \<Rightarrow> float64" where
  "pow base exponent = pow_loop base (nat exponent) 1"

definition clampJitter :: "float64 \<Rightarrow> float64" where
  "clampJitter jitter = (if jitter < 0 then 0 else if 1 < jitter then 1 else jitter)"

type_synonym calculate = "(float64 \<Rightarrow> int) \<Rightarrow> float64 \<Rightarrow> int \<Rightarrow> int \<Rightarrow> int \<Rightarrow> float64 \<Rightarrow> float64 \<Rightarrow> int"

definition ExponentialJitter_Calculate :: calculate where
  "ExponentialJitter_Calculate impl rand attempt initialBackoff maxBackoff multiplier jitter =
     (let attempt = (if attempt < 0 then 0 else attempt);
          attempt = (if attempt > 30 then 30 else attempt);
          backoff = f_to_int64 impl (f_of_int initialBackoff * pow multiplier attempt);
          backoff = (if backoff < 0 \<or> backoff > maxBackoff then maxBackoff else backoff);
          jitter = clampJitter jitter
      in if 0 < jitter then
           (let jitterAmount = f_to_int64 impl (f_of_int backoff * jitter * rand)
            in if add64 backoff jitterAmount > maxBackoff then maxBackoff
               else add64 backoff jitterAmount)
         else backoff)"

definition DecorrelatedJitter_Calculate :: calculate where
  "DecorrelatedJitter_Calculate impl rand attempt initialBackoff maxBackoff multiplier jitter =
     (if attempt \<le> 0 then initialBackoff
      else (let attempt = (if attempt > 10 then 10 else attempt);
                base = f_of_int initialBackoff;
                factor = pow (Fin 3) attempt;
                upper = base * factor;
                maxBackoffFloat = f_of_int maxBackoff;
                upper = (if maxBackoffFloat < upper \<or> upper < 0 then maxBackoffFloat else upper);
                upper = (if upper < base then base else upper);
                delay = base + rand * (upper - base);
                result = f_to_int64 impl delay
            in if result < 0 \<or> result > maxBackoff then maxBackoff else result))"

subsection \<open>The calculator\<close>

datatype Strategy = ExponentialJitterStrategy | DecorrelatedJitterStrategy

fun Strategy_Calculate :: "Strategy \<Rightarrow> calculate" where
  "Strategy_Calculate ExponentialJitterStrategy = ExponentialJitter_Calculate"
| "Strategy_Calculate DecorrelatedJitterStrategy = DecorrelatedJitter_Calculate"

record Calculator =
  calc_strategy :: Strategy

definition NewCalculator :: "Strategy \<Rightarrow> Calculator" where
  "NewCalculator strategy = \<lparr>calc_strategy = strategy\<rparr>"

definition Calculator_Calculate :: "Calculator \<Rightarrow> calculate" where
  "Calculator_Calculate c = Strategy_Calculate (calc_strategy c)"

definition SetStrategy :: "Strategy \<Rightarrow> Calculator \<Rightarrow> Calculator" where
  "SetStrategy strategy c = c\<lparr>calc_strategy := strategy\<rparr>"

definition GetStrategy :: "Calculator \<Rightarrow> Strategy" where
  "GetStrategy c = calc_strategy c"

definition GetExponentialJitterCalculator :: Calculator where
  "GetExponentialJitterCalculator = NewCalculator ExponentialJitterStrategy"

definition GetDecorrelatedJitterCalculator :: Calculator where
  "GetDecorrelatedJitterCalculator = NewCalculator DecorrelatedJitterStrategy"

subsection \<open>The contract of a strategy\<close>

text \<open>What \<open>rand.Float64()\<close> documents: a float in the half-open unit interval.\<close>

definition unit_rand :: "float64 \<Rightarrow> bool" where
  "unit_rand r \<longleftrightarrow> (case r of Fin u \<Rightarrow> 0 \<le> u \<and> u < 1 | _ \<Rightarrow> False)"

locale strategy =
  fixes calculate :: calculate
  assumes bounded: "unit_rand r \<Longrightarrow> 0 \<le> initial \<Longrightarrow> initial \<le> maxb \<Longrightarrow> maxb < 2 ^ 62 \<Longrightarrow>
      0 \<le> calculate impl r attempt initial maxb multiplier jitter \<and>
      calculate impl r attempt initial maxb multiplier jitter \<le> maxb"
begin

text \<open>Sleeping before the first \<open>n\<close> retries takes at most \<open>n\<close> times the maximum.\<close>

lemma total_bounded:
  assumes "\<And>k. unit_rand (rand k)" and "0 \<le> initial" and "initial \<le> maxb" and "maxb < 2 ^ 62"
  shows "(\<Sum>k<n. calculate impl (rand k) (int k) initial maxb multiplier jitter) \<le> int n * maxb"
proof -
  have "(\<Sum>k<n. calculate impl (rand k) (int k) initial maxb multiplier jitter) \<le> (\<Sum>k<n. maxb)"
    using bounded [OF assms(1,2,3,4)] by (intro sum_mono) auto
  then show ?thesis by simp
qed

end

lemma clampJitter_cases:
  "0 < clampJitter j \<Longrightarrow> \<exists>u. clampJitter j = Fin u \<and> 0 < u \<and> u \<le> 1"
  by (cases j) (auto simp: clampJitter_def float_consts split: if_splits)

lemma jitter_amount:
  assumes "0 \<le> backoff" and "backoff < 2 ^ 62" and "unit_rand r" and "0 < clampJitter j"
  shows "0 \<le> f_to_int64 impl (f_of_int backoff * clampJitter j * r)"
    and "f_to_int64 impl (f_of_int backoff * clampJitter j * r) \<le> 2 ^ 62"
proof -
  obtain u where u: "clampJitter j = Fin u" "0 < u" "u \<le> 1" using clampJitter_cases [OF assms(4)] by blast
  obtain v where v: "r = Fin v" "0 \<le> v" "v < 1" using assms(3) by (auto simp: unit_rand_def split: float64.splits)
  have b: "0 \<le> (of_int backoff :: rat)" "(of_int backoff :: rat) \<le> 2 ^ 62"
    using assms(1) int_le_pow2_rat [OF assms(2)] by simp_all
  then have "of_int backoff \<le> (2 ^ 1000 :: rat)" by simp
  then have f: "f_of_int backoff = Fin (rnd (of_int backoff))" using b by (simp add: f_of_int_def flt_fin)
  obtain y where y: "f_of_int backoff * Fin u = Fin y" "0 \<le> y" "y \<le> 2 ^ 62"
    using times_unit [of "rnd (of_int backoff)" 62 u] rnd_nonneg [OF b(1)] rnd_le_pow2 [OF b] u f by auto
  obtain z where z: "Fin y * Fin v = Fin z" "0 \<le> z" "z \<le> 2 ^ 62"
    using times_unit [of y 62 v] y v by auto
  have eq: "f_to_int64 impl (f_of_int backoff * clampJitter j * r) = trunc_rat z"
    using f_to_int64_fin(1) [of z impl] y z u v by simp
  then show "0 \<le> f_to_int64 impl (f_of_int backoff * clampJitter j * r)"
    using trunc_nonneg [OF z(2)] by simp
  have "trunc_rat z \<le> trunc_rat (of_int (2 ^ 62))" using z by (intro trunc_mono) simp_all
  then show "f_to_int64 impl (f_of_int backoff * clampJitter j * r) \<le> 2 ^ 62"
    using eq by (simp only: trunc_of_int)
qed

text \<open>The exponential delay before the jitter, and what the jitter adds.\<close>

definition exp_base :: "(float64 \<Rightarrow> int) \<Rightarrow> int \<Rightarrow> int \<Rightarrow> int \<Rightarrow> float64 \<Rightarrow> int" where
  "exp_base impl attempt initial maxb multiplier =
     (let b = f_to_int64 impl (f_of_int initial * pow multiplier (min 30 (max 0 attempt)))
      in if b < 0 \<or> b > maxb then maxb else b)"

lemma exponential_bounds:
  fixes impl :: "float64 \<Rightarrow> int" and attempt initial :: int and multiplier jitter :: float64
  assumes "unit_rand r" and "0 \<le> maxb" and "maxb < 2 ^ 62"
  defines "d \<equiv> ExponentialJitter_Calculate impl r attempt initial maxb multiplier jitter"
    and "b \<equiv> exp_base impl attempt initial maxb multiplier"
  shows "0 \<le> b \<and> b \<le> d \<and> d \<le> maxb \<and> (\<not> 0 < clampJitter jitter \<longrightarrow> d = b)"
proof -
  have b: "0 \<le> b" "b \<le> maxb" using assms(2) by (auto simp: b_def exp_base_def Let_def)
  have "(if attempt < 0 then 0 else attempt) = max 0 attempt" by simp
  moreover have "(if a > 30 then 30 else a) = min 30 a" for a :: int by simp
  ultimately have d: "d = (if 0 < clampJitter jitter then
      (let j = f_to_int64 impl (f_of_int b * clampJitter jitter * r)
       in if add64 b j > maxb then maxb else add64 b j) else b)"
    by (simp only: d_def b_def ExponentialJitter_Calculate_def exp_base_def Let_def)
  show ?thesis
  proof (cases "0 < clampJitter jitter")
    case True
    let ?j = "f_to_int64 impl (f_of_int b * clampJitter jitter * r)"
    have "b < 2 ^ 62" using b assms(3) by simp
    note j = jitter_amount [OF b(1) this assms(1) True, of impl]
    then have "add64 b ?j = b + ?j" using b assms(3) by (intro add64_exact) (simp add: in64_def)
    with d b j True show ?thesis by (simp add: Let_def)
  qed (use b d in simp)
qed

interpretation expo: strategy ExponentialJitter_Calculate
  by unfold_locales (use exponential_bounds in \<open>meson order_trans\<close>)+

interpretation deco: strategy DecorrelatedJitter_Calculate
  by unfold_locales (auto simp: DecorrelatedJitter_Calculate_def Let_def)

interpretation calc: strategy "Calculator_Calculate c" for c
  by unfold_locales (cases "calc_strategy c"; simp add: Calculator_Calculate_def expo.bounded deco.bounded)+

subsection \<open>Exact powers\<close>

lemma flt_exact:
  assumes "0 \<le> m" and "m < 2 ^ 53" and "k \<le> 900"
  shows "flt (of_int (m * 2 ^ k)) = Fin (of_int (m * 2 ^ k))"
proof -
  have eq: "(of_int (m * 2 ^ k) :: rat) = of_int m * 2 powi int k" by simp
  have "(of_int m :: rat) \<le> of_int (2 ^ 53)" using assms(2) by (simp only: of_int_le_iff)
  then have "(of_int m :: rat) * 2 ^ k \<le> 2 ^ 53 * 2 ^ 900"
    using assms by (intro mult_mono power_increasing) auto
  also have "\<dots> \<le> (2::rat) ^ 1000" by (simp flip: power_add)
  finally have le: "(of_int (m * 2 ^ k) :: rat) \<le> 2 ^ 1000" by simp
  have "rnd (of_int (m * 2 ^ k)) = of_int (m * 2 ^ k)"
    unfolding eq using assms by (intro rnd_exact) auto
  with le assms(1) show ?thesis by (simp add: flt_fin)
qed

lemma pow_loop_two: "n + k \<le> 900 \<Longrightarrow> pow_loop (Fin 2) n (Fin (of_int (2 ^ k))) = Fin (of_int (2 ^ (n + k)))"
proof (induction n arbitrary: k)
  case (Suc n)
  have "Fin (of_int (2 ^ k)) * Fin 2 = Fin (of_int (2 ^ Suc k))"
    using flt_exact [of 1 "Suc k"] Suc.prems by (simp add: mult.commute)
  with Suc.IH [of "Suc k"] Suc.prems show ?case by simp
qed simp

lemma pow_two: "0 \<le> a \<Longrightarrow> a \<le> 900 \<Longrightarrow> pow (Fin 2) a = Fin (of_int (2 ^ nat a))"
  using pow_loop_two [of "nat a" 0] by (simp add: pow_def one_float64_def)

lemma exp_base_doubles:
  assumes "0 \<le> initial" and "initial < 2 ^ 53" and "initial * 2 ^ nat (min 30 (max 0 attempt)) < 2 ^ 63"
  shows "exp_base impl attempt initial maxb (Fin 2) = min maxb (initial * 2 ^ nat (min 30 (max 0 attempt)))"
proof -
  let ?a = "min 30 (max 0 attempt)" and ?v = "initial * 2 ^ nat (min 30 (max 0 attempt))"
  have "pow (Fin 2) ?a = Fin (of_int (2 ^ nat ?a))" by (rule pow_two) auto
  moreover have "f_of_int initial = Fin (of_int initial)" by (rule f_of_int_exact [OF assms(1,2)])
  moreover have "flt (of_int ?v) = Fin (of_int ?v)" by (rule flt_exact [OF assms(1,2)]) auto
  ultimately have "f_of_int initial * pow (Fin 2) ?a = Fin (of_int ?v)" by simp
  moreover have v0: "0 \<le> ?v" using assms(1) by simp
  moreover have "in64 ?v" using v0 assms(3) unfolding in64_def by linarith
  ultimately have "f_to_int64 impl (f_of_int initial * pow (Fin 2) ?a) = ?v"
    by (simp only: f_to_int64_def float64.case trunc_of_int if_True)
  with v0 show ?thesis by (simp only: exp_base_def Let_def) (simp add: min_def)
qed

subsection \<open>The decorrelated delay\<close>

lemma fin_add_mono:
  assumes "0 \<le> b" and "rnd b = b" and "b \<le> 2 ^ 60" and "0 \<le> x" and "x \<le> 2 ^ 60"
  shows "\<exists>y. Fin b + Fin x = Fin y \<and> b \<le> y \<and> y \<le> 2 ^ 61"
proof -
  have le: "0 \<le> b + x" "b + x \<le> 2 ^ 61" using assms by auto
  then have "b + x \<le> 2 ^ 1000" by (rule_tac order_trans) auto
  then have "Fin b + Fin x = Fin (rnd (b + x))" using le by (simp add: flt_fin)
  moreover have "b \<le> rnd (b + x)" using rnd_mono [of b "b + x"] assms by simp
  ultimately show ?thesis using rnd_le_pow2 [OF le] by blast
qed

lemma decorrelated_delay:
  assumes b: "0 \<le> b" "rnd b = b" "b \<le> 2 ^ 60" and up: "b \<le> up" "up \<le> 2 ^ 60" and u: "0 \<le> u" "u < 1"
  shows "\<exists>y. Fin b + Fin u * (Fin up - Fin b) = Fin y \<and> b \<le> y \<and> y \<le> 2 ^ 61"
proof -
  have d: "0 \<le> up - b" "up - b \<le> 2 ^ 60" using b up by auto
  then have "up - b \<le> 2 ^ 1000" by (rule_tac order_trans) auto
  then have diff: "Fin up - Fin b = Fin (rnd (up - b))" using d by (simp add: minus_float64_def flt_fin)
  obtain z where z: "Fin (rnd (up - b)) * Fin u = Fin z" "0 \<le> z" "z \<le> 2 ^ 60"
    using times_unit [of "rnd (up - b)" 60 u] rnd_nonneg [OF d(1)] rnd_le_pow2 [OF d] u by auto
  then have "Fin u * Fin (rnd (up - b)) = Fin z" by (simp add: mult.commute)
  then show ?thesis using fin_add_mono [OF b z(2,3)] diff by simp
qed

lemma pow_loop_three:
  "3 ^ k * 3 ^ n < (2::int) ^ 53 \<Longrightarrow> pow_loop (Fin 3) n (Fin (of_int (3 ^ k))) = Fin (of_int (3 ^ (n + k)))"
proof (induction n arbitrary: k)
  case (Suc n)
  have "(3::int) ^ Suc k \<le> 3 ^ k * 3 ^ Suc n" by simp
  then have "(3::int) ^ Suc k < 2 ^ 53" using Suc.prems by linarith
  then have "Fin (of_int (3 ^ k)) * Fin 3 = Fin (of_int (3 ^ Suc k))"
    using flt_exact [of "3 ^ Suc k" 0] by (simp add: mult.commute)
  with Suc.IH [of "Suc k"] Suc.prems show ?case by (simp add: mult_ac)
qed simp

lemma pow_three:
  assumes "0 \<le> a" and "a \<le> 10"
  shows "pow (Fin 3) a = Fin (of_int (3 ^ nat a))"
proof -
  have "(3::int) ^ nat a \<le> 3 ^ 10" using assms by (intro power_increasing) auto
  then have "(3::int) ^ nat a < 2 ^ 53" by simp
  then show ?thesis using pow_loop_three [of 0 "nat a"] by (simp add: pow_def one_float64_def)
qed

lemma decorrelated_bounds:
  fixes impl :: "float64 \<Rightarrow> int" and attempt :: int and multiplier jitter :: float64
  assumes "unit_rand r" and "0 \<le> initial" and "initial \<le> maxb" and "maxb < 2 ^ 53"
  defines "d \<equiv> DecorrelatedJitter_Calculate impl r attempt initial maxb multiplier jitter"
  shows "initial \<le> d \<and> d \<le> maxb"
proof (cases "attempt \<le> 0")
  case True
  then show ?thesis using assms by (simp add: DecorrelatedJitter_Calculate_def)
next
  case False
  define a where "a = (if attempt > 10 then 10 else attempt)"
  define up0 where "up0 = f_of_int initial * pow (Fin 3) a"
  obtain u where u: "r = Fin u" "0 \<le> u" "u < 1" using assms(1) by (auto simp: unit_rand_def split: float64.splits)
  let ?b = "of_int initial :: rat" and ?m = "of_int maxb :: rat"
  have fin: "f_of_int initial = Fin ?b" "f_of_int maxb = Fin ?m" using assms by (auto intro: f_of_int_exact)
  have m60: "?m \<le> 2 ^ 60" using int_le_pow2_rat [of maxb 60] assms(4) by simp
  have a: "0 \<le> a" "a \<le> 10" using False by (auto simp: a_def)
  have up: "up0 = Fin (rnd (?b * 3 ^ nat a))" "0 \<le> rnd (?b * 3 ^ nat a)"
  proof -
    have "(3::rat) ^ nat a \<le> 3 ^ 10" using a by (intro power_increasing) auto
    then have "?b * 3 ^ nat a \<le> 2 ^ 60 * 3 ^ 10"
      using assms(2,3) m60 by (intro mult_mono) auto
    also have "\<dots> \<le> (2::rat) ^ 1000" by simp
    finally show "up0 = Fin (rnd (?b * 3 ^ nat a))" "0 \<le> rnd (?b * 3 ^ nat a)"
      using assms(2) by (simp_all add: up0_def fin pow_three [OF a] flt_fin rnd_nonneg)
  qed
  have fac: "Fin ?b * pow (Fin 3) a = Fin (rnd (?b * 3 ^ nat a))"
    using up(1) by (simp only: up0_def fin)
  define up1 where "up1 = (if ?m < rnd (?b * 3 ^ nat a) then ?m else rnd (?b * 3 ^ nat a))"
  define up2 where "up2 = (if up1 < ?b then ?b else up1)"
  have up2: "?b \<le> up2" "up2 \<le> ?m" using assms(3) by (auto simp: up2_def up1_def)
  have "rnd ?b = ?b" using assms by (intro rnd_of_int) auto
  then obtain y where y: "Fin ?b + Fin u * (Fin up2 - Fin ?b) = Fin y" "?b \<le> y" "y \<le> 2 ^ 61"
    using decorrelated_delay [of ?b up2 u] up2 m60 u assms(2,3) by auto
  have "d = (let result = f_to_int64 impl (Fin ?b + Fin u * (Fin up2 - Fin ?b))
      in if result < 0 \<or> result > maxb then maxb else result)"
    using False fac up(2) by (simp add: d_def DecorrelatedJitter_Calculate_def Let_def fin u a_def [symmetric]
        up1_def up2_def float_consts)
  then have d: "d = (let result = f_to_int64 impl (Fin y) in if result < 0 \<or> result > maxb then maxb else result)"
    using y by simp
  have "initial \<le> trunc_rat y" using trunc_mono [of ?b y] y(2) assms(2) by simp
  moreover have "0 \<le> y" using y(2) assms(2) by (simp add: order_trans [of 0 ?b])
  moreover have "y < 2 ^ 63" using y(3) by (rule order_le_less_trans) simp
  ultimately show ?thesis
    using d f_to_int64_fin(1) [of y impl] assms(2,3) by (auto simp: Let_def)
qed

subsection \<open>Properties\<close>

text \<open>
  C15. Every delay a calculator gives lies between 0 and \<open>maxBackoff\<close>: for both strategies, every
  attempt number, every multiplier and jitter (negative, infinite and NaN ones too), every random
  number and every platform, as long as \<open>0 \<le> initialBackoff \<le> maxBackoff < 2 ^ 62\<close> (146 years).
  No overflow of the 64-bit sum escapes the cap.
\<close>

theorem backoff_within_cap:
  assumes "unit_rand rand" and "0 \<le> initialBackoff" and "initialBackoff \<le> maxBackoff" and "maxBackoff < 2 ^ 62"
  shows "0 \<le> Calculator_Calculate c impl rand attempt initialBackoff maxBackoff multiplier jitter \<and>
    Calculator_Calculate c impl rand attempt initialBackoff maxBackoff multiplier jitter \<le> maxBackoff"
  by (rule calc.bounded [OF assms])

lemma backoff_within_cap_witness:
  "0 \<le> Calculator_Calculate GetExponentialJitterCalculator (\<lambda>_. - (2 ^ 63)) (Fin (1 / 2)) 99 100 5000 PosInf NaN \<and>
   Calculator_Calculate GetExponentialJitterCalculator (\<lambda>_. - (2 ^ 63)) (Fin (1 / 2)) 99 100 5000 PosInf NaN \<le> 5000"
  by (rule backoff_within_cap) (simp_all add: unit_rand_def)

text \<open>
  With the default multiplier 2 the exponential strategy doubles exactly: before jitter the
  delay of attempt \<open>k\<close> is \<open>initialBackoff * 2 ^ k\<close> (\<open>k\<close> capped at 30), cut at \<open>maxBackoff\<close>, with no
  rounding error; jitter only ever lengthens it, up to \<open>maxBackoff\<close>, and without jitter it is
  exactly that.
\<close>

theorem exponential_backoff_doubles:
  assumes "unit_rand rand" and "0 \<le> initialBackoff" and "initialBackoff < 2 ^ 53"
    and "0 \<le> maxBackoff" and "maxBackoff < 2 ^ 62" and "0 \<le> attempt"
    and "initialBackoff * 2 ^ nat (min 30 attempt) < 2 ^ 63"
  shows "let d = Calculator_Calculate GetExponentialJitterCalculator impl rand attempt
        initialBackoff maxBackoff (Fin 2) jitter;
      b = min maxBackoff (initialBackoff * 2 ^ nat (min 30 attempt))
    in b \<le> d \<and> d \<le> maxBackoff \<and> (clampJitter jitter = 0 \<longrightarrow> d = b)"
proof -
  have a: "max 0 attempt = attempt" using assms(6) by simp
  have "exp_base impl attempt initialBackoff maxBackoff (Fin 2) =
      min maxBackoff (initialBackoff * 2 ^ nat (min 30 attempt))"
    using exp_base_doubles [OF assms(2,3), of attempt impl maxBackoff] assms(7) by (simp only: a)
  moreover have "clampJitter jitter = 0 \<Longrightarrow> \<not> 0 < clampJitter jitter" by (simp add: float_consts)
  ultimately show ?thesis
    using exponential_bounds [OF assms(1,4,5), of impl attempt initialBackoff "Fin 2" jitter]
    by (simp add: Calculator_Calculate_def GetExponentialJitterCalculator_def NewCalculator_def Let_def)
qed

lemma exponential_backoff_doubles_witness:
  "let d = Calculator_Calculate GetExponentialJitterCalculator (\<lambda>_. 0) (Fin (1 / 4)) 3
        (100 * Millisecond) (10 * Second) (Fin 2) (Fin (1 / 2));
      b = min (10 * Second) (100 * Millisecond * 2 ^ nat (min 30 3))
    in b \<le> d \<and> d \<le> 10 * Second \<and> (clampJitter (Fin (1 / 2)) = 0 \<longrightarrow> d = b)"
  by (rule exponential_backoff_doubles) (simp_all add: unit_rand_def duration_defs)

text \<open>
  The decorrelated strategy never waits less than \<open>initialBackoff\<close> nor more than
  \<open>maxBackoff\<close>, whatever the attempt and the random number.
\<close>

theorem decorrelated_backoff_between:
  assumes "unit_rand rand" and "0 \<le> initialBackoff" and "initialBackoff \<le> maxBackoff" and "maxBackoff < 2 ^ 53"
  shows "initialBackoff \<le> Calculator_Calculate GetDecorrelatedJitterCalculator impl rand attempt
        initialBackoff maxBackoff multiplier jitter \<and>
      Calculator_Calculate GetDecorrelatedJitterCalculator impl rand attempt
        initialBackoff maxBackoff multiplier jitter \<le> maxBackoff"
  using decorrelated_bounds [OF assms]
  by (simp add: Calculator_Calculate_def GetDecorrelatedJitterCalculator_def NewCalculator_def)

lemma decorrelated_backoff_between_witness:
  "100 \<le> Calculator_Calculate GetDecorrelatedJitterCalculator (\<lambda>_. 0) (Fin (1 / 3)) 2 100 1000 (Fin 2) 0 \<and>
   Calculator_Calculate GetDecorrelatedJitterCalculator (\<lambda>_. 0) (Fin (1 / 3)) 2 100 1000 (Fin 2) 0 \<le> 1000"
  by (rule decorrelated_backoff_between) (simp_all add: unit_rand_def)

end
