(* ===== verification/RetryPolicy.thy ===== *)
theory RetryPolicy
  imports Backoff ClientErrors
begin

text \<open>
  The retry policy of \<open>retry_policy.go\<close>: which outcome of an attempt is retried and after which
  delay. \<open>parse_time\<close> is \<open>http.ParseTime\<close>, \<open>now\<close> a reading of the clock, \<open>rand\<close> a call of
  \<open>rand.Float64()\<close> and \<open>impl\<close> the platform's conversion of floats that do not fit an integer. A
  result \<open>None\<close> of \<open>ShouldRetry\<close> is a panic.
\<close>

subsection \<open>The strategy names\<close>

definition ExponentialJitter :: int where "ExponentialJitter = 0"
definition DecorrelatedJitter :: int where "DecorrelatedJitter = 1"

lemmas strategy_codes = ExponentialJitter_def DecorrelatedJitter_def

definition BackoffStrategy_String :: "int \<Rightarrow> string" where
  "BackoffStrategy_String bs =
     (if bs = ExponentialJitter then ''ExponentialJitter''
      else if bs = DecorrelatedJitter then ''DecorrelatedJitter''
      else ''Unknown'')"

subsection \<open>The policy\<close>

record DefaultRetryPolicy =
  drp_maxRetries :: int
  drp_initialBackoff :: int
  drp_maxBackoff :: int
  drp_backoffMultiplier :: float64
  drp_jitter :: float64
  drp_backoffStrategy :: int
  drp_backoffCalculator :: "Calculator option"
  drp_isIdempotent :: "string \<Rightarrow> bool"

definition DefaultIsIdempotent :: "string \<Rightarrow> bool" where
  "DefaultIsIdempotent method \<longleftrightarrow> method \<in> {''GET'', ''HEAD'', ''PUT'', ''DELETE'', ''OPTIONS''}"

definition NewDefaultRetryPolicy :: "int \<Rightarrow> int \<Rightarrow> int \<Rightarrow> float64 \<Rightarrow> float64 \<Rightarrow> DefaultRetryPolicy" where
  "NewDefaultRetryPolicy maxRetries initialBackoff maxBackoff multiplier jitter =
     \<lparr>drp_maxRetries = maxRetries, drp_initialBackoff = initialBackoff, drp_maxBackoff = maxBackoff,
      drp_backoffMultiplier = multiplier, drp_jitter = jitter, drp_backoffStrategy = ExponentialJitter,
      drp_backoffCalculator = Some GetExponentialJitterCalculator, drp_isIdempotent = DefaultIsIdempotent\<rparr>"

definition NewDefaultRetryPolicyWithStrategy ::
  "int \<Rightarrow> int \<Rightarrow> int \<Rightarrow> float64 \<Rightarrow> float64 \<Rightarrow> int \<Rightarrow> DefaultRetryPolicy" where
  "NewDefaultRetryPolicyWithStrategy maxRetries initialBackoff maxBackoff multiplier jitter strat =
     \<lparr>drp_maxRetries = maxRetries, drp_initialBackoff = initialBackoff, drp_maxBackoff = maxBackoff,
      drp_backoffMultiplier = multiplier, drp_jitter = jitter, drp_backoffStrategy = strat,
      drp_backoffCalculator =
        (if strat = ExponentialJitter then Some GetExponentialJitterCalculator
         else if strat = DecorrelatedJitter then Some GetDecorrelatedJitterCalculator
         else Some GetExponentialJitterCalculator),
      drp_isIdempotent = DefaultIsIdempotent\<rparr>"

subsection \<open>Delays\<close>

text \<open>The seconds are multiplied as 64-bit integers, before the cap of one hour.\<close>

definition parseRetryAfter :: "(string \<Rightarrow> int option) \<Rightarrow> int \<Rightarrow> string \<Rightarrow> int" where
  "parseRetryAfter parse_time now value =
     (let from_date =
        (case parse_time value of
           Some t \<Rightarrow> (let delay = time_sub t now in if delay > 0 \<and> delay \<le> Hour then delay else 0)
         | None \<Rightarrow> 0)
      in if value = [] then 0
         else (case atoi (trim_space value) of
                 Some seconds \<Rightarrow>
                   if seconds > 0
                   then (let delay = mul64 seconds Second in if delay > Hour then Hour else delay)
                   else from_date
               | None \<Rightarrow> from_date))"

definition drp_calculateExponentialBackoff ::
  "(float64 \<Rightarrow> int) \<Rightarrow> float64 \<Rightarrow> DefaultRetryPolicy \<Rightarrow> int \<Rightarrow> int" where
  "drp_calculateExponentialBackoff impl rand p attempt =
     (let attempt = (if attempt < 0 then 0 else attempt);
          attempt = (if attempt > 30 then 30 else attempt);
          backoff = f_to_int64 impl (f_of_int (drp_initialBackoff p) * pow (drp_backoffMultiplier p) attempt);
          backoff = (if backoff < 0 \<or> backoff > drp_maxBackoff p then drp_maxBackoff p else backoff);
          jitter = drp_jitter p;
          jitter = (if jitter < 0 then 0 else jitter);
          jitter = (if 1 < jitter then 1 else jitter)
      in if 0 < jitter then
           (let jitterAmount = f_to_int64 impl (f_of_int backoff * jitter * rand)
            in if add64 backoff jitterAmount > drp_maxBackoff p then drp_maxBackoff p
               else add64 backoff jitterAmount)
         else backoff)"

definition drp_calculateDecorrelatedBackoff ::
  "(float64 \<Rightarrow> int) \<Rightarrow> float64 \<Rightarrow> DefaultRetryPolicy \<Rightarrow> int \<Rightarrow> int" where
  "drp_calculateDecorrelatedBackoff impl rand p attempt =
     (if attempt \<le> 0 then drp_initialBackoff p
      else (let attempt = (if attempt > 10 then 10 else attempt);
                base = f_of_int (drp_initialBackoff p);
                factor = pow (Fin 3) attempt;
                upper = base * factor;
                maxBackoffFloat = f_of_int (drp_maxBackoff p);
                upper = (if maxBackoffFloat < upper \<or> upper < 0 then maxBackoffFloat else upper);
                upper = (if upper < base then base else upper);
                delay = base + rand * (upper - base);
                result = f_to_int64 impl delay
            in if result < 0 \<or> result > drp_maxBackoff p then drp_maxBackoff p else result))"

definition drp_calculateBackoff :: "(float64 \<Rightarrow> int) \<Rightarrow> float64 \<Rightarrow> DefaultRetryPolicy \<Rightarrow> int \<Rightarrow> int" where
  "drp_calculateBackoff impl rand p attempt =
     (case drp_backoffCalculator p of
        None \<Rightarrow>
          if drp_backoffStrategy p = ExponentialJitter then drp_calculateExponentialBackoff impl rand p attempt
          else if drp_backoffStrategy p = DecorrelatedJitter then drp_calculateDecorrelatedBackoff impl rand p attempt
          else drp_calculateExponentialBackoff impl rand p attempt
      | Some c \<Rightarrow>
          Calculator_Calculate c impl rand attempt (drp_initialBackoff p) (drp_maxBackoff p)
            (drp_backoffMultiplier p) (drp_jitter p))"

subsection \<open>The decision\<close>

definition ShouldRetry ::
  "(string \<Rightarrow> int option) \<Rightarrow> (float64 \<Rightarrow> int) \<Rightarrow> int \<Rightarrow> float64 \<Rightarrow> DefaultRetryPolicy \<Rightarrow>
   response option \<Rightarrow> go_error option \<Rightarrow> int \<Rightarrow> (int \<times> bool) option" where
  "ShouldRetry parse_time impl now rand p resp err attempt =
     (let decide =
        (let (shouldRetry, delay) =
           (if err \<noteq> None then (True, 0)
            else (case resp of
                    Some r \<Rightarrow>
                      if rs_StatusCode r = 429 \<or> rs_StatusCode r \<ge> 500
                      then (True, parseRetryAfter parse_time now (header_get (rs_Header r) ''Retry-After''))
                      else (False, 0)
                  | None \<Rightarrow> (False, 0)))
         in if \<not> shouldRetry then (0, False)
            else if delay = 0 then (drp_calculateBackoff impl rand p attempt, True)
            else (delay, True))
      in if attempt \<ge> drp_maxRetries p then Some (0, False)
         else (case resp of
                 Some r \<Rightarrow>
                   (case rs_Request r of
                      None \<Rightarrow> None
                    | Some rq \<Rightarrow> if drp_isIdempotent p (rq_Method rq) then Some decide else Some (0, False))
               | None \<Rightarrow> Some decide))"

subsection \<open>Lemmas\<close>

text \<open>The computation a policy without calculator falls back to is the calculator's.\<close>

lemma fallback_exponential:
  "drp_calculateExponentialBackoff impl rand p attempt =
     ExponentialJitter_Calculate impl rand attempt (drp_initialBackoff p) (drp_maxBackoff p)
       (drp_backoffMultiplier p) (drp_jitter p)"
proof -
  have "(let j = (if j < 0 then 0 else j) in if 1 < j then 1 else j) = clampJitter j" for j :: float64
    by (cases j) (simp_all add: clampJitter_def float_consts)
  then show ?thesis
    by (simp only: drp_calculateExponentialBackoff_def ExponentialJitter_Calculate_def Let_def)
qed

lemma fallback_decorrelated:
  "drp_calculateDecorrelatedBackoff impl rand p attempt =
     DecorrelatedJitter_Calculate impl rand attempt (drp_initialBackoff p) (drp_maxBackoff p)
       (drp_backoffMultiplier p) (drp_jitter p)"
  by (simp only: drp_calculateDecorrelatedBackoff_def DecorrelatedJitter_Calculate_def)

definition calculator_of :: "DefaultRetryPolicy \<Rightarrow> Calculator" where
  "calculator_of p =
     (case drp_backoffCalculator p of
        Some c \<Rightarrow> c
      | None \<Rightarrow> if drp_backoffStrategy p = DecorrelatedJitter then GetDecorrelatedJitterCalculator
                else GetExponentialJitterCalculator)"

lemma policy_backoff:
  "drp_calculateBackoff impl rand p attempt =
     Calculator_Calculate (calculator_of p) impl rand attempt (drp_initialBackoff p) (drp_maxBackoff p)
       (drp_backoffMultiplier p) (drp_jitter p)"
  by (auto simp: drp_calculateBackoff_def calculator_of_def fallback_exponential fallback_decorrelated
      Calculator_Calculate_def GetExponentialJitterCalculator_def GetDecorrelatedJitterCalculator_def
      NewCalculator_def strategy_codes split: option.splits)

lemma parseRetryAfter_le_Hour: "parseRetryAfter parse_time now value \<le> Hour"
  by (auto simp: parseRetryAfter_def Let_def duration_defs split: option.splits)


lemma parseRetryAfter_itoa:
  assumes "0 < s" and "in64 s"
  shows "parseRetryAfter parse_time now (itoa s) = min Hour (mul64 s Second)"
proof -
  have "atoi (trim_space (itoa s)) = Some s" using assms by (simp add: trim_space_itoa atoi_itoa)
  then show ?thesis using assms(1) by (simp add: parseRetryAfter_def Let_def min_def)
qed

lemma itoa_7: "itoa 7 = ''7''"
  by code_simp

lemma ShouldRetry_at_limit: "attempt \<ge> drp_maxRetries p \<Longrightarrow>
    ShouldRetry parse_time impl now rand p resp err attempt = Some (0, False)"
  by (simp add: ShouldRetry_def Let_def)

subsection \<open>Properties\<close>

text \<open>
  What the policy retries: an attempt below the limit whose outcome is an error or a status
  of 429 or from 500 on, unless a response is there and its method is not idempotent (an error
  without a response is retried whatever the method). The delay is what the \<open>Retry-After\<close> header
  of a response without error says, where it says something, else the calculator's. The
  policy's own fallback computations agree with the calculator, so a policy without one decides
  the same.
\<close>

theorem retry_decision:
  fixes parse_time :: "string \<Rightarrow> int option" and now :: int and err :: "go_error option"
    and attempt :: int and p :: DefaultRetryPolicy
  assumes "\<forall>r. resp = Some r \<longrightarrow> rs_Request r \<noteq> None"
  defines "header \<equiv> (case resp of
      Some r \<Rightarrow> if err = None then parseRetryAfter parse_time now (header_get (rs_Header r) ''Retry-After'') else 0
    | None \<Rightarrow> 0)"
    and "retry \<equiv> attempt < drp_maxRetries p
      \<and> (\<forall>r rq. resp = Some r \<and> rs_Request r = Some rq \<longrightarrow> drp_isIdempotent p (rq_Method rq))
      \<and> (err \<noteq> None \<or> (\<exists>r. resp = Some r \<and> (rs_StatusCode r = 429 \<or> rs_StatusCode r \<ge> 500)))"
  shows "ShouldRetry parse_time impl now rand p resp err attempt =
    (if retry then Some (if header \<noteq> 0 then header
         else Calculator_Calculate (calculator_of p) impl rand attempt (drp_initialBackoff p)
           (drp_maxBackoff p) (drp_backoffMultiplier p) (drp_jitter p), True)
     else Some (0, False))"
  using assms(1)
  by (cases resp) (auto simp: ShouldRetry_def Let_def policy_backoff header_def retry_def)

definition example_response :: "int \<Rightarrow> string \<Rightarrow> response" where
  "example_response status retryAfter =
     \<lparr>rs_StatusCode = status, rs_Header = header_set ''Retry-After'' retryAfter Map.empty,
      rs_Body = NilBody, rs_Request = Some example_request\<rparr>"

lemma retry_decision_witness:
  "ShouldRetry (\<lambda>_. None) (\<lambda>_. 0) 0 (Fin 0)
      ((NewDefaultRetryPolicy 3 100 1000 (Fin 2) 0)\<lparr>drp_isIdempotent := \<lambda>_. True\<rparr>)
      (Some (example_response 503 ''7'')) None 0 = Some (7 * Second, True)
   \<and> ShouldRetry (\<lambda>_. None) (\<lambda>_. 0) 0 (Fin 0) (NewDefaultRetryPolicy 3 100 1000 (Fin 2) 0)
      (Some (example_response 503 ''7'')) None 0 = Some (0, False)"
proof -
  have "parseRetryAfter (\<lambda>_. None) 0 ''7'' = 7 * Second"
    using parseRetryAfter_itoa [of 7 "\<lambda>_. None" 0] itoa_7
    by (simp add: in64_def mul64_exact duration_defs)
  moreover have "header_get (header_set ''Retry-After'' ''7'' Map.empty) ''Retry-After'' = ''7''"
    by simp
  ultimately show ?thesis
    using retry_decision [of "Some (example_response 503 ''7'')" "\<lambda>_. None" "\<lambda>_. 0" 0 "Fin 0"
        "(NewDefaultRetryPolicy 3 100 1000 (Fin 2) 0)\<lparr>drp_isIdempotent := \<lambda>_. True\<rparr>" None 0]
      retry_decision [of "Some (example_response 503 ''7'')" "\<lambda>_. None" "\<lambda>_. 0" 0 "Fin 0"
        "NewDefaultRetryPolicy 3 100 1000 (Fin 2) 0" None 0]
    by (simp add: example_response_def example_request_def NewDefaultRetryPolicy_def
        DefaultIsIdempotent_def duration_defs)
qed

text \<open>
  C34. A \<open>Retry-After\<close> of \<open>s\<close> seconds as servers print it is read back as \<open>s\<close> seconds, cut at one
  hour, for every \<open>s\<close> that a duration can hold; beyond that the product wraps around before it
  is compared with the cap, and where it wraps once the delay is negative: the retry, which
  the server wants put off by centuries, is then not delayed at all.
\<close>

theorem retry_after_seconds:
  assumes "0 < s" and "s * Second < 2 ^ 64"
  shows "parseRetryAfter parse_time now (itoa s) =
      (if s * Second < 2 ^ 63 then min Hour (s * Second) else s * Second - 2 ^ 64)
    \<and> (parseRetryAfter parse_time now (itoa s) < 0 \<longleftrightarrow> 2 ^ 63 \<le> s * Second)"
proof -
  have in_s: "in64 s" using assms by (simp add: in64_def duration_defs)
  have m: "mul64 s Second = (if s * Second < 2 ^ 63 then s * Second else s * Second - 2 ^ 64)"
  proof (cases "s * Second < 2 ^ 63")
    case True
    then show ?thesis using assms by (simp add: mul64_exact in64_def duration_defs)
  next
    case False
    with False show ?thesis using i64_once [of "s * Second"] assms(2) by (simp add: mul64_def)
  qed
  have "0 < Hour" "Hour < 2 ^ 63" by (simp_all add: duration_defs)
  moreover have "0 < s * Second" using assms(1) by (simp add: duration_defs)
  moreover define v where "v = s * Second"
  ultimately show ?thesis
    using assms(2) unfolding parseRetryAfter_itoa [OF assms(1) in_s] m v_def [symmetric]
    by (simp add: min_def)
qed

lemma retry_after_seconds_witness:
  "parseRetryAfter (\<lambda>_. None) 0 (itoa 120) = 120 * Second
   \<and> parseRetryAfter (\<lambda>_. None) 0 (itoa 9223372037) < 0"
  using retry_after_seconds [of 120 "\<lambda>_. None" 0] retry_after_seconds [of 9223372037 "\<lambda>_. None" 0]
  by (simp add: duration_defs)

end
