(* ===== verification/RetryBudget.thy ===== *)
theory RetryBudget
  imports Interleaving
begin

text \<open>
  The retry budget of \<open>retry_policy.go\<close>: at most \<open>maxRetries\<close> retries per window. First the
  operations of one goroutine, then the same code with every atomic operation a step of its
  own. Times are \<open>UnixNano()\<close> readings.
\<close>

subsection \<open>State and operations\<close>

record RetryBudget =
  rb_maxRetries :: int
  rb_perWindow :: int
  rb_window :: int
  rb_current :: int
  rb_windowStart :: int

definition NewRetryBudget :: "int \<Rightarrow> int \<Rightarrow> int \<Rightarrow> RetryBudget" where
  "NewRetryBudget now maxRetries perWindow =
     \<lparr>rb_maxRetries = maxRetries, rb_perWindow = perWindow, rb_window = perWindow,
      rb_current = 0, rb_windowStart = now\<rparr>"

definition rb_Allow :: "int \<Rightarrow> RetryBudget \<Rightarrow> bool \<times> RetryBudget" where
  "rb_Allow now rb =
     (let rb = (if sub64 now (rb_windowStart rb) \<ge> rb_perWindow rb
                then rb\<lparr>rb_windowStart := now, rb_current := 0\<rparr> else rb)
      in if rb_current rb \<ge> rb_maxRetries rb then (False, rb)
         else (let newCurrent = add64 (rb_current rb) 1
               in (newCurrent \<le> rb_maxRetries rb, rb\<lparr>rb_current := newCurrent\<rparr>)))"

definition rb_GetStats :: "RetryBudget \<Rightarrow> int \<times> int \<times> int" where
  "rb_GetStats rb = (rb_current rb, rb_maxRetries rb, rb_windowStart rb)"

fun rb_run :: "int list \<Rightarrow> RetryBudget \<Rightarrow> bool list \<times> RetryBudget" where
  "rb_run [] rb = ([], rb)"
| "rb_run (now # ts) rb =
     (let (ok, rb) = rb_Allow now rb; (oks, rb) = rb_run ts rb in (ok # oks, rb))"

subsection \<open>One atomic operation at a time\<close>

datatype rb_pc =
  RIdle | RAnswer bool
| RStart int
| RSwap int int
| RReset
| RLoad
| RAdd

text \<open>The shared state carries the number of calls granted so far, which no code reads.\<close>

fun rb_exec :: "rb_pc \<Rightarrow> RetryBudget \<times> int \<Rightarrow> (RetryBudget \<times> int) \<times> rb_pc" where
  "rb_exec RIdle s = (s, RIdle)"
| "rb_exec (RAnswer d) s = (s, RAnswer d)"
| "rb_exec (RStart now) (rb, g) =
     ((rb, g), if sub64 now (rb_windowStart rb) \<ge> rb_perWindow rb then RSwap now (rb_windowStart rb) else RLoad)"
| "rb_exec (RSwap now windowStart) (rb, g) =
     (if rb_windowStart rb = windowStart then ((rb\<lparr>rb_windowStart := now\<rparr>, g), RReset)
      else ((rb, g), RLoad))"
| "rb_exec RReset (rb, g) = ((rb\<lparr>rb_current := 0\<rparr>, g), RLoad)"
| "rb_exec RLoad (rb, g) = ((rb, g), if rb_current rb \<ge> rb_maxRetries rb then RAnswer False else RAdd)"
| "rb_exec RAdd (rb, g) =
     (let newCurrent = add64 (rb_current rb) 1
      in ((rb\<lparr>rb_current := newCurrent\<rparr>, g + of_bool (newCurrent \<le> rb_maxRetries rb)),
          RAnswer (newCurrent \<le> rb_maxRetries rb)))"

fun rb_over :: "rb_pc \<Rightarrow> bool" where
  "rb_over RIdle = True" | "rb_over (RAnswer d) = True" | "rb_over pc = False"

text \<open>A call begins with a clock reading between \<open>lo\<close> and \<open>T\<close>.\<close>

definition rb_start :: "int \<Rightarrow> int \<Rightarrow> rb_pc \<Rightarrow> rb_pc \<Rightarrow> bool" where
  "rb_start lo T pc pc' \<longleftrightarrow> rb_over pc \<and> (case pc' of RStart now \<Rightarrow> lo \<le> now \<and> now \<le> T | _ \<Rightarrow> False)"

lemma solo_rb_Allow:
  "solo rb_exec 5 (RStart now) (rb, g) =
     ((snd (rb_Allow now rb), g + of_bool (fst (rb_Allow now rb))), RAnswer (fst (rb_Allow now rb)))"
  by (simp add: eval_nat_numeral rb_Allow_def Let_def)

subsection \<open>The grants of one window\<close>

lemma rb_Allow_in_window:
  assumes "0 \<le> rb_windowStart rb" and "0 \<le> now" and "in64 now" and "in64 (rb_windowStart rb)"
    and "now - rb_windowStart rb < rb_perWindow rb" and "0 \<le> rb_current rb" and "rb_maxRetries rb < 2 ^ 63"
  shows "rb_Allow now rb = (rb_current rb < rb_maxRetries rb,
     if rb_current rb < rb_maxRetries rb then rb\<lparr>rb_current := rb_current rb + 1\<rparr> else rb)"
  using assms add64_Suc [of "rb_current rb" "rb_current rb + 1"]
  by (auto simp: rb_Allow_def Let_def sub64_times in64_def)

lemma rb_run_in_window:
  assumes "\<forall>t \<in> set ts. 0 \<le> t \<and> in64 t \<and> t - rb_windowStart rb < rb_perWindow rb"
    and "0 \<le> rb_windowStart rb" and "in64 (rb_windowStart rb)" and "0 \<le> rb_current rb"
    and "rb_maxRetries rb < 2 ^ 63"
  shows "fst (rb_run ts rb) = map (\<lambda>k. rb_current rb + int k < rb_maxRetries rb) [0..<length ts]"
  using assms
proof (induction ts arbitrary: rb)
  case (Cons t ts)
  let ?rb = "if rb_current rb < rb_maxRetries rb then rb\<lparr>rb_current := rb_current rb + 1\<rparr> else rb"
  have one: "rb_Allow t rb = (rb_current rb < rb_maxRetries rb, ?rb)"
    using Cons.prems by (intro rb_Allow_in_window) auto
  have "fst (rb_run ts ?rb) = map (\<lambda>k. rb_current rb + int (Suc k) < rb_maxRetries rb) [0..<length ts]"
    using Cons.prems Cons.IH [of ?rb] by auto
  with one show ?case
    by (simp add: Let_def split_beta upt_rec [of 0] map_Suc_upt [symmetric] o_def del: upt_Suc)
qed simp

subsection \<open>Grants under concurrency\<close>

text \<open>
  A successful swap moves the start of the window by at least its length; the goroutine that did
  it owes a reset of the counter. Between two resets at most \<open>maxRetries\<close> additions are granted.
\<close>

definition rb_shared_ok :: "int \<Rightarrow> int \<Rightarrow> int \<Rightarrow> RetryBudget \<times> int \<Rightarrow> bool" where
  "rb_shared_ok T W m s \<longleftrightarrow> rb_perWindow (fst s) = W \<and> rb_maxRetries (fst s) = m \<and>
     0 \<le> rb_windowStart (fst s) \<and> rb_windowStart (fst s) \<le> T \<and> 0 \<le> rb_current (fst s) \<and> in64 T"

fun rb_local_ok :: "int \<Rightarrow> int \<Rightarrow> rb_pc \<Rightarrow> bool" where
  "rb_local_ok T W (RStart now) = (0 \<le> now \<and> now \<le> T)"
| "rb_local_ok T W (RSwap now ws) = (0 \<le> now \<and> now \<le> T \<and> W \<le> now - ws)"
| "rb_local_ok T W pc = True"

definition owes_reset :: "rb_pc \<Rightarrow> int" where
  "owes_reset pc = of_bool (pc = RReset)"

definition adding :: "rb_pc \<Rightarrow> int" where
  "adding pc = of_bool (pc = RAdd)"

lemmas rb_ghosts = owes_reset_def adding_def

text \<open>The windows begun since \<open>t0\<close>, and the bounds that every step keeps.\<close>

definition windows :: "int \<Rightarrow> int \<Rightarrow> int \<Rightarrow> int" where
  "windows t0 W ws = (ws - t0) div W"

definition rb_bounds :: "int \<Rightarrow> int \<Rightarrow> int \<Rightarrow> int \<Rightarrow> RetryBudget \<Rightarrow> int \<Rightarrow> int \<Rightarrow> int \<Rightarrow> bool" where
  "rb_bounds t0 W m n rb g owed add \<longleftrightarrow>
     g \<le> min m (rb_current rb) + m * (windows t0 W (rb_windowStart rb) - owed) \<and> rb_current rb + add \<le> m + n"

lemma windows_step: "0 < W \<Longrightarrow> W \<le> now - ws \<Longrightarrow> windows t0 W ws + 1 \<le> windows t0 W now"
proof -
  assume "0 < W" "W \<le> now - ws"
  then have "((ws - t0) + W) div W \<le> (now - t0) div W" by (intro zdiv_mono1) auto
  moreover have "((ws - t0) + W) div W = (ws - t0) div W + 1"
    using \<open>0 < W\<close> by (intro div_add_self2) simp
  ultimately show ?thesis by (simp add: windows_def)
qed

lemma rb_exec_ok:
  assumes "rb_shared_ok T W m (rb, g)" and "rb_local_ok T W pc" and "rb_exec pc (rb, g) = ((rb', g'), pc')"
    and "rb_current rb < 2 ^ 63 - 1"
  shows "rb_shared_ok T W m (rb', g') \<and> rb_local_ok T W pc'"
proof (cases pc)
  case (RStart now)
  then show ?thesis using assms by (auto simp: rb_shared_ok_def sub64_times in64_def split: if_splits)
next
  case RAdd
  have "add64 (rb_current rb) 1 = rb_current rb + 1"
    using assms(1,4) by (intro add64_exact) (simp add: rb_shared_ok_def in64_def)
  with RAdd show ?thesis using assms by (auto simp: rb_shared_ok_def Let_def)
qed (use assms in \<open>auto simp: rb_shared_ok_def split: if_splits\<close>)

lemma rb_exec_bounds:
  assumes ok: "rb_shared_ok T W m (rb, g)" "rb_local_ok T W pc" and e: "rb_exec pc (rb, g) = ((rb', g'), pc')"
    and b: "rb_bounds t0 W m n rb g (owed + owes_reset pc) (others + adding pc)"
    and rest: "0 \<le> owed" "0 \<le> others" "others < n" "0 \<le> m" "0 < W" "m + n < 2 ^ 63"
  shows "rb_bounds t0 W m n rb' g' (owed + owes_reset pc') (others + adding pc')"
proof (cases pc)
  case (RSwap now ws)
  show ?thesis
  proof (cases "rb_windowStart rb = ws")
    case True
    have "m * (windows t0 W ws + 1) \<le> m * windows t0 W now"
      using RSwap ok rest by (intro mult_left_mono windows_step) auto
    with RSwap True e b show ?thesis by (auto simp: rb_bounds_def rb_ghosts distrib_left right_diff_distrib)
  qed (use RSwap e b in \<open>auto simp: rb_bounds_def rb_ghosts\<close>)
next
  case RReset
  with e b ok rest show ?thesis
    by (auto simp: rb_bounds_def rb_ghosts rb_shared_ok_def distrib_left right_diff_distrib)
next
  case RLoad
  with e b ok rest show ?thesis
    by (auto simp: rb_bounds_def rb_ghosts rb_shared_ok_def split: if_splits)
next
  case RAdd
  have "add64 (rb_current rb) 1 = rb_current rb + 1"
    using b RAdd rest ok by (intro add64_exact) (auto simp: rb_bounds_def rb_ghosts rb_shared_ok_def in64_def)
  with RAdd e b ok show ?thesis
    by (auto simp: rb_bounds_def rb_ghosts rb_shared_ok_def Let_def)
qed (use e b in \<open>auto simp: rb_bounds_def rb_ghosts split: if_splits\<close>)

definition rb_inv :: "int \<Rightarrow> int \<Rightarrow> int \<Rightarrow> int \<Rightarrow> (RetryBudget \<times> int) \<times> rb_pc list \<Rightarrow> bool" where
  "rb_inv t0 T W m c \<longleftrightarrow> rb_shared_ok T W m (fst c) \<and> list_all (rb_local_ok T W) (snd c) \<and>
     rb_bounds t0 W m (int (length (snd c))) (fst (fst c)) (snd (fst c))
       (sum_list (map owes_reset (snd c))) (sum_list (map adding (snd c)))"

lemma rb_start_ghosts:
  assumes "rb_start lo T pc pc'"
  shows "owes_reset pc = 0" "owes_reset pc' = 0" "adding pc = 0" "adding pc' = 0"
    and "0 \<le> lo \<Longrightarrow> rb_local_ok T W pc'"
  using assms by (auto simp: rb_start_def rb_ghosts split: rb_pc.splits)

lemma ghost_sums:
  assumes "i < length pcs"
  shows "0 \<le> sum_list (map owes_reset pcs) - owes_reset (pcs ! i)"
    and "0 \<le> sum_list (map adding pcs) - adding (pcs ! i)"
    and "sum_list (map adding pcs) - adding (pcs ! i) < int (length pcs)"
proof -
  have nn: "0 \<le> sum_list (map f (pcs[i := RIdle]))" if "\<And>pc. 0 \<le> f pc" for f :: "rb_pc \<Rightarrow> int"
    using that by (intro sum_list_map_nonneg) auto
  have u: "sum_list (map f (pcs[i := RIdle])) = sum_list (map f pcs) - f (pcs ! i) + f RIdle" for f :: "rb_pc \<Rightarrow> int"
    by (rule sum_list_update_int [OF assms])
  show "0 \<le> sum_list (map owes_reset pcs) - owes_reset (pcs ! i)"
    using nn [of owes_reset] u [of owes_reset] by (simp add: rb_ghosts)
  show "0 \<le> sum_list (map adding pcs) - adding (pcs ! i)"
    using nn [of adding] u [of adding] by (simp add: rb_ghosts)
  have le: "sum_list (map adding xs) \<le> int (length xs)" for xs
    by (induction xs) (auto simp: rb_ghosts)
  have "sum_list (map (\<lambda>pc. 1 - adding pc) (pcs[i := RIdle])) \<ge> 1"
  proof -
    have "0 \<le> sum_list (map (\<lambda>pc. 1 - adding pc) (pcs[i := RAdd]))"
      by (intro sum_list_map_nonneg) (simp add: rb_ghosts)
    then show ?thesis
      using sum_list_update_int [OF assms, of "\<lambda>pc. 1 - adding pc" RIdle]
        sum_list_update_int [OF assms, of "\<lambda>pc. 1 - adding pc" RAdd] by (simp add: rb_ghosts)
  qed
  moreover have "sum_list (map (\<lambda>pc. 1 - adding pc) xs) = int (length xs) - sum_list (map adding xs)" for xs
    by (induction xs) auto
  ultimately have "sum_list (map adding (pcs[i := RIdle])) < int (length pcs)" by simp
  then show "sum_list (map adding pcs) - adding (pcs ! i) < int (length pcs)"
    using u [of adding] by (simp add: rb_ghosts)
qed

lemma rb_step_inv:
  assumes "mt_step rb_exec (rb_start lo T) c c'" and "rb_inv t0 T W m c"
    and "0 \<le> lo" and "0 \<le> m" and "0 < W" and "m + int (length (snd c)) < 2 ^ 62"
  shows "rb_inv t0 T W m c' \<and> length (snd c') = length (snd c)"
  using assms(1)
proof cases
  case (call i pcs pc s)
  have "sum_list (map owes_reset (pcs[i := pc])) = sum_list (map owes_reset pcs)"
    "sum_list (map adding (pcs[i := pc])) = sum_list (map adding pcs)"
    using call rb_start_ghosts(1-4) [OF call(4)] by (simp_all add: sum_list_update_int)
  with call assms(2) rb_start_ghosts(5) [OF call(4) assms(3)] show ?thesis
    by (simp add: rb_inv_def list_all_update)
next
  case (move i pcs s s' pc)
  obtain rb g rb' g' where s: "s = (rb, g)" "s' = (rb', g')" by (cases s; cases s') auto
  let ?o = "sum_list (map owes_reset pcs) - owes_reset (pcs ! i)"
    and ?a = "sum_list (map adding pcs) - adding (pcs ! i)" and ?n = "int (length pcs)"
  have ok: "rb_shared_ok T W m (rb, g)" and l: "rb_local_ok T W (pcs ! i)"
    and b: "rb_bounds t0 W m ?n rb g (?o + owes_reset (pcs ! i)) (?a + adding (pcs ! i))"
    using assms(2) move s by (auto simp: rb_inv_def list_all_length)
  note gs = ghost_sums [OF move(3)]
  have e: "rb_exec (pcs ! i) (rb, g) = ((rb', g'), pc)" using move s by simp
  have mn: "m + ?n < 2 ^ 62" using assms(6) move by simp
  then have "m + ?n < 2 ^ 63" by simp
  note b' = rb_exec_bounds [OF ok l e b gs assms(4,5) this]
  have "0 \<le> adding (pcs ! i)" by (simp add: rb_ghosts)
  with gs(2) have "0 \<le> ?a + adding (pcs ! i)" by linarith
  then have "rb_current rb \<le> m + ?n" using b unfolding rb_bounds_def by linarith
  then have "rb_current rb < 2 ^ 63 - 1" using mn by simp
  note ok' = rb_exec_ok [OF ok l e this]
  show ?thesis
    using ok' b' move s assms(2)
    by (auto simp: rb_inv_def sum_list_update_int list_all_update algebra_simps)
qed

lemma rb_reach_inv:
  assumes "mt_reach rb_exec (rb_start lo T) c0 c" and "rb_inv t0 T W m c0"
    and "0 \<le> lo" and "0 \<le> m" and "0 < W" and "m + int (length (snd c0)) < 2 ^ 62"
  shows "rb_inv t0 T W m c \<and> length (snd c) = length (snd c0)"
  using assms
proof (induction rule: mt_reach.induct)
  case (step c c')
  then show ?case using rb_step_inv [OF step.hyps(2), of t0 W m] by simp
qed simp

subsection \<open>Properties\<close>

text \<open>
  In a window a single goroutine gets exactly the first \<open>maxRetries\<close> calls granted and every
  later one denied, and the first call after the window has passed is granted again.
\<close>

theorem budget_grants_first_of_window:
  assumes "0 \<le> start" and "in64 start" and "0 < perWindow" and "0 < maxRetries" and "maxRetries < 2 ^ 63"
    and "\<forall>t \<in> set ts. 0 \<le> t \<and> in64 t \<and> t - start < perWindow"
    and "0 \<le> now" and "in64 now" and "\<forall>t \<in> set (start # ts). perWindow \<le> now - t"
  shows "fst (rb_run ts (NewRetryBudget start maxRetries perWindow)) = map (\<lambda>k. int k < maxRetries) [0..<length ts]
    \<and> fst (rb_Allow now (snd (rb_run ts (NewRetryBudget start maxRetries perWindow))))"
proof
  let ?rb = "NewRetryBudget start maxRetries perWindow"
  show "fst (rb_run ts ?rb) = map (\<lambda>k. int k < maxRetries) [0..<length ts]"
    using rb_run_in_window [of ts ?rb] assms by (simp add: NewRetryBudget_def)
  have keeps: "rb_perWindow (snd (rb_run ts rb)) = rb_perWindow rb
      \<and> rb_maxRetries (snd (rb_run ts rb)) = rb_maxRetries rb
      \<and> rb_windowStart (snd (rb_run ts rb)) \<in> set (rb_windowStart rb # ts)" for rb
  proof (induction ts arbitrary: rb)
    case (Cons t ts)
    have "rb_perWindow (snd (rb_Allow t rb)) = rb_perWindow rb"
      "rb_maxRetries (snd (rb_Allow t rb)) = rb_maxRetries rb"
      "rb_windowStart (snd (rb_Allow t rb)) \<in> {rb_windowStart rb, t}"
      by (auto simp: rb_Allow_def Let_def)
    with Cons [of "snd (rb_Allow t rb)"] show ?case by (auto simp: Let_def split_beta)
  qed simp
  let ?rb' = "snd (rb_run ts ?rb)"
  have ws: "rb_windowStart ?rb' \<in> set (start # ts)" and "rb_perWindow ?rb' = perWindow" "rb_maxRetries ?rb' = maxRetries"
    using keeps [of ?rb] by (simp_all add: NewRetryBudget_def)
  moreover have "0 \<le> rb_windowStart ?rb'" "in64 (rb_windowStart ?rb')" using ws assms by auto
  moreover have "perWindow \<le> now - rb_windowStart ?rb'" using ws assms(9) by blast
  ultimately have "rb_perWindow ?rb' \<le> sub64 now (rb_windowStart ?rb')"
    using assms(7,8) by (simp add: sub64_times)
  moreover have "add64 0 1 = 1" by (simp add: add64_exact in64_def)
  ultimately show "fst (rb_Allow now ?rb')"
    using \<open>rb_maxRetries ?rb' = maxRetries\<close> assms(4) by (simp add: rb_Allow_def Let_def)
qed

lemma budget_grants_first_of_window_witness:
  "fst (rb_run [3, 4, 5] (NewRetryBudget 0 2 10)) = [True, True, False]
   \<and> fst (rb_Allow 15 (snd (rb_run [3, 4, 5] (NewRetryBudget 0 2 10))))"
  using budget_grants_first_of_window [of 0 10 2 "[3, 4, 5]" 15]
  by (simp add: in64_def upt_rec)


text \<open>Two goroutines at the start of a new window; the one that moved the window resets late.\<close>

definition reset_race :: "(nat \<times> rb_pc option) list" where
  "reset_race =
     [(0, Some (RStart 10)), (0, None), (0, None),
      (1, Some (RStart 11)), (1, None), (1, None), (1, None),
      (0, None), (0, None), (0, None)]"

lemma reset_race_run:
  "mt_run rb_exec (rb_start 10 11) reset_race ((NewRetryBudget 0 1 10, 0), [RIdle, RIdle]) =
     Some ((\<lparr>rb_maxRetries = 1, rb_perWindow = 10, rb_window = 10, rb_current = 1, rb_windowStart = 10\<rparr>, 2),
           [RAnswer True, RAnswer True])"
  by (simp add: reset_race_def NewRetryBudget_def rb_start_def Let_def add64_def sub64_def i64_def)


text \<open>
  Within one window the budget can be exceeded: a budget of one retry per ten nanoseconds can
  grant two calls whose clock readings are 10 and 11, because the counter is reset after the
  window has been moved, so that a grant made in between is forgotten.
\<close>

theorem budget_exceeded_in_one_window:
  "\<exists>rb pcs. mt_reach rb_exec (rb_start 10 11) ((NewRetryBudget 0 1 10, 0), [RIdle, RIdle]) ((rb, 2), pcs)
     \<and> rb_windowStart rb = 10 \<and> 2 > rb_maxRetries rb"
  using mt_run_reach [OF reset_race_run mt_reach.init]
  by (intro exI conjI) (assumption, simp_all)

end
