(* ===== verification/RateLimiterRegistry.thy ===== *)
theory RateLimiterRegistry
  imports RateLimiterOptimized GoHttp
begin

text \<open>
  The registry of \<open>rate_limiter_registry.go\<close>: a limiter per key and a fallback. Limiters are
  shared objects: a value of the interface type \<open>Limiter\<close> is nil (\<open>None\<close>), a nil pointer to a
  limiter inside a non-nil interface (\<open>NilLimiter\<close>), or the address of a limiter in the store
  \<open>limiters\<close>. A result \<open>None\<close> of type \<open>option\<close> is a panic: a nil pointer is dereferenced by the
  limiter or by a key function.
\<close>

subsection \<open>Limiters as shared objects\<close>

datatype limiter_object = PlainLimiter RateLimiter | OptimizedLimiter OptimizedRateLimiter

datatype Limiter = NilLimiter | LimiterAt nat

type_synonym limiters = "nat \<rightharpoonup> limiter_object"

fun object_Allow :: "int \<Rightarrow> limiter_object \<Rightarrow> bool \<times> limiter_object" where
  "object_Allow now (PlainLimiter rl) = (let (ok, rl') = rl_Allow now rl in (ok, PlainLimiter rl'))"
| "object_Allow now (OptimizedLimiter rl) = (let (ok, rl') = orl_Allow now rl in (ok, OptimizedLimiter rl'))"

fun Limiter_Allow :: "int \<Rightarrow> Limiter \<Rightarrow> limiters \<Rightarrow> (bool \<times> limiters) option" where
  "Limiter_Allow now NilLimiter s = None"
| "Limiter_Allow now (LimiterAt a) s =
     (case s a of
        None \<Rightarrow> None
      | Some l \<Rightarrow> (let (ok, l') = object_Allow now l in Some (ok, s(a \<mapsto> l'))))"

subsection \<open>The registry\<close>

type_synonym KeyFunc = "request \<Rightarrow> string option"

record RateLimiterRegistry =
  reg_limiters :: "string \<rightharpoonup> Limiter option"
  reg_keyFunc :: "KeyFunc option"
  reg_fallback :: "Limiter option"

definition NewRateLimiterRegistry :: "KeyFunc option \<Rightarrow> Limiter option \<Rightarrow> RateLimiterRegistry" where
  "NewRateLimiterRegistry keyFunc fallback =
     \<lparr>reg_limiters = Map.empty, reg_keyFunc = keyFunc, reg_fallback = fallback\<rparr>"

definition RegisterLimiter :: "string \<Rightarrow> Limiter option \<Rightarrow> RateLimiterRegistry \<Rightarrow> RateLimiterRegistry" where
  "RegisterLimiter key lm r = r\<lparr>reg_limiters := (reg_limiters r)(key \<mapsto> lm)\<rparr>"

definition GetLimiter :: "RateLimiterRegistry \<Rightarrow> request \<Rightarrow> (Limiter option \<times> string) option" where
  "GetLimiter r req =
     (case reg_keyFunc r of
        None \<Rightarrow> Some (reg_fallback r, ''default'')
      | Some keyFunc \<Rightarrow>
          (case keyFunc req of
             None \<Rightarrow> None
           | Some key \<Rightarrow>
               (case reg_limiters r key of
                  Some lm \<Rightarrow> Some (lm, key)
                | None \<Rightarrow>
                    if reg_fallback r \<noteq> None then Some (reg_fallback r, ''default'')
                    else Some (None, key))))"

definition reg_Allow ::
  "int \<Rightarrow> RateLimiterRegistry \<Rightarrow> request \<Rightarrow> limiters \<Rightarrow> ((bool \<times> string) \<times> limiters) option" where
  "reg_Allow now r req s =
     (case GetLimiter r req of
        None \<Rightarrow> None
      | Some (None, key) \<Rightarrow> Some ((True, key), s)
      | Some (Some lm, key) \<Rightarrow>
          (case Limiter_Allow now lm s of
             None \<Rightarrow> None
           | Some (ok, s') \<Rightarrow> Some ((ok, key), s')))"

subsection \<open>Key functions\<close>

definition DefaultHostKeyFunc :: KeyFunc where
  "DefaultHostKeyFunc req =
     (case rq_URL req of
        None \<Rightarrow> None
      | Some u \<Rightarrow>
          if url_Host u \<noteq> [] then Some (''host:'' @ url_Host u)
          else if rq_Host req \<noteq> [] then Some (''host:'' @ rq_Host req)
          else Some ''host:unknown'')"

definition DefaultRouteKeyFunc :: KeyFunc where
  "DefaultRouteKeyFunc req =
     (case rq_URL req of
        None \<Rightarrow> None
      | Some u \<Rightarrow> Some (''route:'' @ rq_Method req @ '':'' @ url_Path u))"

definition DefaultHostRouteKeyFunc :: KeyFunc where
  "DefaultHostRouteKeyFunc req =
     (case rq_URL req of
        None \<Rightarrow> None
      | Some u \<Rightarrow>
          (let host = url_Host u;
               host = (if host = [] then rq_Host req else host);
               host = (if host = [] then ''unknown'' else host)
           in Some (''host_route:'' @ host @ '':'' @ rq_Method req @ '':'' @ url_Path u)))"

subsection \<open>Lemmas\<close>

text \<open>A run: requests at the given times, and the answers, until one panics.\<close>

fun reg_run :: "RateLimiterRegistry \<Rightarrow> (int \<times> request) list \<Rightarrow> limiters \<Rightarrow> (bool list \<times> limiters) option" where
  "reg_run r [] s = Some ([], s)"
| "reg_run r ((now, req) # calls) s =
     (case reg_Allow now r req s of
        None \<Rightarrow> None
      | Some ((ok, _), s') \<Rightarrow>
          (case reg_run r calls s' of None \<Rightarrow> None | Some (oks, s'') \<Rightarrow> Some (ok # oks, s'')))"

text \<open>The answers to the requests of one key.\<close>

fun answers_for :: "(request \<Rightarrow> bool) \<Rightarrow> (int \<times> request) list \<Rightarrow> bool list \<Rightarrow> bool list" where
  "answers_for f ((now, req) # calls) (ok # oks) =
     (if f req then ok # answers_for f calls oks else answers_for f calls oks)"
| "answers_for f _ _ = []"

text \<open>A call touches no limiter but the one it is answered by.\<close>

lemma reg_Allow_frame:
  assumes "reg_Allow now r req s = Some ((ok, key), s')" and "\<forall>k. GetLimiter r req \<noteq> Some (Some (LimiterAt a), k)"
  shows "s' a = s a"
proof -
  obtain lm key' where g: "GetLimiter r req = Some (lm, key')"
    using assms(1) by (auto simp: reg_Allow_def split: option.splits)
  show ?thesis
  proof (cases lm)
    case None
    with assms(1) g show ?thesis by (simp add: reg_Allow_def)
  next
    case (Some l)
    with assms g show ?thesis
      by (cases l) (auto simp: reg_Allow_def Let_def split: option.splits prod.splits)
  qed
qed

lemma reg_Allow_at:
  assumes "GetLimiter r req = Some (Some (LimiterAt a), key)" and "s a = Some (PlainLimiter rl)"
  shows "reg_Allow now r req s =
    Some ((fst (rl_Allow now rl), key), s(a \<mapsto> PlainLimiter (snd (rl_Allow now rl))))"
  using assms by (simp add: reg_Allow_def Let_def split_beta)

text \<open>\<open>a\<close> is the limiter of \<open>key\<close> alone.\<close>

definition owns :: "RateLimiterRegistry \<Rightarrow> string \<Rightarrow> nat \<Rightarrow> bool" where
  "owns r key a \<longleftrightarrow> reg_limiters r key = Some (Some (LimiterAt a)) \<and> reg_fallback r \<noteq> Some (LimiterAt a)
     \<and> (\<forall>k. k \<noteq> key \<longrightarrow> reg_limiters r k \<noteq> Some (Some (LimiterAt a)))"

lemma GetLimiter_other:
  "owns r key a \<Longrightarrow> reg_keyFunc r = Some kf \<Longrightarrow> kf req \<noteq> Some key \<Longrightarrow>
   GetLimiter r req \<noteq> Some (Some (LimiterAt a), k)"
  by (auto simp: owns_def GetLimiter_def split: option.splits if_splits)

lemma reg_run_project:
  assumes "owns r key a" and "reg_keyFunc r = Some kf"
    and "reg_run r calls s = Some (oks, s')" and "s a = Some (PlainLimiter rl)"
  shows "answers_for (\<lambda>req. kf req = Some key) calls oks =
      fst (run_limiter rl_Allow (map fst (filter (\<lambda>(now, req). kf req = Some key) calls)) rl)"
  using assms(3,4)
proof (induction calls arbitrary: s oks rl)
  case (Cons call calls)
  obtain now req where call: "call = (now, req)" by force
  with Cons.prems(1) obtain ok k s1 oks' where
    one: "reg_Allow now r req s = Some ((ok, k), s1)" and
    rest: "reg_run r calls s1 = Some (oks', s')" and oks: "oks = ok # oks'"
    by (auto split: option.splits)
  show ?case
  proof (cases "kf req = Some key")
    case True
    then have "GetLimiter r req = Some (Some (LimiterAt a), key)"
      using assms(1,2) by (simp add: GetLimiter_def owns_def)
    from reg_Allow_at [where s = s, OF this Cons.prems(2), of now] one
    have "ok = fst (rl_Allow now rl)" "s1 a = Some (PlainLimiter (snd (rl_Allow now rl)))" by auto
    with Cons.IH [OF rest] True call oks show ?thesis by (simp add: Let_def split_beta)
  next
    case False
    then have "s1 a = s a"
      using reg_Allow_frame [OF one] GetLimiter_other [OF assms(1,2)] by blast
    with Cons.IH [OF rest] Cons.prems(2) False call oks show ?thesis by simp
  qed
qed auto

subsection \<open>Properties\<close>

text \<open>
  C27. Keys are isolated: in any run of requests the answers to the requests of a registered key
  are those its own limiter would give to them alone, whatever requests of other keys come in
  between, as long as the limiter is registered under no other key and is not the fallback.
\<close>

theorem registry_isolates_keys:
  assumes "owns r key a" and "reg_keyFunc r = Some kf" and "s a = Some (PlainLimiter rl)"
    and "reg_run r calls s = Some (oks, s')"
  shows "answers_for (\<lambda>req. kf req = Some key) calls oks =
      fst (run_limiter rl_Allow (map fst (filter (\<lambda>(now, req). kf req = Some key) calls)) rl)"
  by (rule reg_run_project [OF assms(1,2,4,3)])

definition get_request :: "string \<Rightarrow> string \<Rightarrow> request" where
  "get_request host path = \<lparr>rq_Method = ''GET'',
     rq_URL = Some \<lparr>url_text = ''http://'' @ host @ path, url_Host = host, url_Path = path\<rparr>,
     rq_Host = [], rq_Header = Map.empty, rq_Body = NilBody, rq_GetBody = None, rq_Context = None\<rparr>"

definition example_registry :: RateLimiterRegistry where
  "example_registry =
     RegisterLimiter ''host:a'' (Some (LimiterAt 0))
       (RegisterLimiter ''host:b'' (Some (LimiterAt 1))
         (NewRateLimiterRegistry (Some DefaultHostKeyFunc) None))"

definition example_calls :: "(int \<times> request) list" where
  "example_calls = [(0, get_request ''b'' []), (0, get_request ''a'' []), (0, get_request ''b'' [])]"

lemma registry_isolates_keys_witness:
  "\<exists>oks s'. reg_run example_registry example_calls
       [0 \<mapsto> PlainLimiter (NewRateLimiter 0 1 10), 1 \<mapsto> PlainLimiter (NewRateLimiter 0 1 10)] = Some (oks, s')
     \<and> oks = [True, True, False]
     \<and> answers_for (\<lambda>req. DefaultHostKeyFunc req = Some ''host:a'') example_calls oks = [True]"
proof -
  let ?s = "[0 \<mapsto> PlainLimiter (NewRateLimiter 0 1 10), 1 \<mapsto> PlainLimiter (NewRateLimiter 0 1 10)]"
  have allow: "rl_Allow 0 (NewRateLimiter 0 1 10) = (True, (NewRateLimiter 0 1 10)\<lparr>rl_tokens := 0\<rparr>)"
    "rl_Allow 0 ((NewRateLimiter 0 1 10)\<lparr>rl_tokens := 0\<rparr>) = (False, (NewRateLimiter 0 1 10)\<lparr>rl_tokens := 0\<rparr>)"
    by (simp_all add: rl_Allow_def rl_refill_defs rl_consumeToken_def NewRateLimiter_def
        sub64_def div64_def i64_def signed_divide_int_def Let_def)
  define kf where "kf = DefaultHostKeyFunc"
  have kf: "kf (get_request ''a'' []) = Some ''host:a''" "kf (get_request ''b'' []) = Some ''host:b''"
    by (simp_all add: kf_def DefaultHostKeyFunc_def get_request_def)
  have own: "owns example_registry ''host:a'' 0"
    by (auto simp: owns_def example_registry_def RegisterLimiter_def NewRateLimiterRegistry_def)
  have key: "reg_keyFunc example_registry = Some kf"
    by (simp add: kf_def example_registry_def RegisterLimiter_def NewRateLimiterRegistry_def)
  have "\<exists>s'. reg_run example_registry example_calls ?s = Some ([True, True, False], s')"
    using kf by (simp add: example_calls_def reg_Allow_def GetLimiter_def example_registry_def
        RegisterLimiter_def NewRateLimiterRegistry_def kf_def [symmetric] allow Let_def)
  then obtain s' where run: "reg_run example_registry example_calls ?s = Some ([True, True, False], s')" by blast
  have "filter (\<lambda>(now, req). kf req = Some ''host:a'') example_calls = [(0, get_request ''a'' [])]"
    using kf by (simp add: example_calls_def)
  with registry_isolates_keys [OF own key _ run, of "NewRateLimiter 0 1 10"] run
  show ?thesis by (simp add: allow Let_def kf_def)
qed

text \<open>
  What an unregistered key meets: without a fallback it is not limited at all; with a nil
  pointer as the fallback, which is what a nil \<open>*RateLimiter\<close> becomes when it is passed as a
  \<open>Limiter\<close>, the request panics, although the registry tests the fallback against nil.
\<close>

theorem unregistered_key:
  assumes "reg_keyFunc r = Some kf" and "kf req = Some key" and "reg_limiters r key = None"
  shows "reg_Allow now r req s =
    (case reg_fallback r of
       None \<Rightarrow> Some ((True, key), s)
     | Some NilLimiter \<Rightarrow> None
     | Some (LimiterAt a) \<Rightarrow>
         map_option (\<lambda>l. ((fst (object_Allow now l), ''default''), s(a \<mapsto> snd (object_Allow now l)))) (s a))"
  using assms
  by (auto simp: reg_Allow_def GetLimiter_def Let_def split_beta split: option.splits Limiter.splits)

lemma unregistered_key_witness:
  "reg_Allow 0 (RegisterLimiter ''host:a'' (Some (LimiterAt 0))
      (NewRateLimiterRegistry (Some DefaultHostKeyFunc) (Some NilLimiter))) (get_request ''b'' []) Map.empty = None"
  using unregistered_key [of "RegisterLimiter ''host:a'' (Some (LimiterAt 0))
      (NewRateLimiterRegistry (Some DefaultHostKeyFunc) (Some NilLimiter))"
      DefaultHostKeyFunc "get_request ''b'' []" "''host:b''" 0 Map.empty]
  by (simp add: RegisterLimiter_def NewRateLimiterRegistry_def DefaultHostKeyFunc_def get_request_def)

end
