(* ===== verification/Coalescing.thy ===== *)
theory Coalescing
  imports Prelude
begin

text \<open>
  What request de-duplication (\<open>deduplication.go\<close>), the group of \<open>internal/singleflight\<close> and the
  client's own single-flight map share: calls of one key that arrive while one is under way join
  it. The first caller owns the entry and completes it, the others wait for its result, and some
  time after its completion the entry is forgotten. \<open>current\<close> is the entry a key is joined at,
  \<open>outcome\<close> what an entry has been completed with.
\<close>

locale coalescer =
  fixes join :: "string \<Rightarrow> 's \<Rightarrow> (nat \<times> bool) \<times> 's"
    and complete :: "'t \<Rightarrow> string \<Rightarrow> nat \<Rightarrow> 'r \<Rightarrow> 's \<Rightarrow> 's"
    and forget :: "string \<Rightarrow> nat \<Rightarrow> 's \<Rightarrow> 's"
    and valid :: "'s \<Rightarrow> bool"
    and current :: "'s \<Rightarrow> string \<Rightarrow> nat option"
    and outcome :: "'s \<Rightarrow> nat \<Rightarrow> 'r option"
  assumes join_valid: "valid s \<Longrightarrow> valid (snd (join k s))"
    and complete_valid: "valid s \<Longrightarrow> valid (complete t k a r s)"
    and forget_valid: "valid s \<Longrightarrow> valid (forget k a s)"
    and join_current: "valid s \<Longrightarrow> current s k = Some a \<Longrightarrow>
        fst (join k s) = (a, False) \<and> current (snd (join k s)) = current s \<and> outcome (snd (join k s)) = outcome s"
    and join_new: "valid s \<Longrightarrow> current s k = None \<Longrightarrow>
        (\<exists>a. fst (join k s) = (a, True) \<and> outcome (snd (join k s)) = (outcome s)(a := None)
           \<and> current (snd (join k s)) = (current s)(k \<mapsto> a) \<and> (\<forall>k'. current s k' \<noteq> Some a))"
    and complete_current: "valid s \<Longrightarrow> current (complete t k a r s) = current s"
    and complete_outcome: "valid s \<Longrightarrow> current s k = Some a \<Longrightarrow> outcome s a = None \<Longrightarrow>
        outcome (complete t k a r s) = (outcome s)(a \<mapsto> r)"
    and forget_current: "valid s \<Longrightarrow> current s k = Some a \<Longrightarrow> current (forget k a s) = (current s)(k := None)"
    and forget_outcome: "valid s \<Longrightarrow> outcome (forget k a s) = outcome s"
    and one_key: "valid s \<Longrightarrow> current s k = Some a \<Longrightarrow> current s k' = Some a \<Longrightarrow> k = k'"
begin

text \<open>
  What other callers can do meanwhile: begin a call of any key, and complete or forget an entry
  at which its key is joined; \<open>quiet\<close> is any change that neither function sees. \<open>t\<close> is the moment of
  a completion.
\<close>

inductive others :: "nat \<Rightarrow> 's \<Rightarrow> 's \<Rightarrow> bool" for a where
  none: "others a s s"
| joins: "others a s s' \<Longrightarrow> others a s (snd (join k s'))"
| completes: "others a s s' \<Longrightarrow> b \<noteq> a \<Longrightarrow> current s' k = Some b \<Longrightarrow> outcome s' b = None \<Longrightarrow> others a s (complete t k b r s')"
| forgets: "others a s s' \<Longrightarrow> b \<noteq> a \<Longrightarrow> current s' k = Some b \<Longrightarrow> others a s (forget k b s')"
| quiet: "others a s s' \<Longrightarrow> valid s'' \<Longrightarrow> current s'' = current s' \<Longrightarrow> outcome s'' = outcome s' \<Longrightarrow> others a s s''"

lemma others_keep:
  assumes "others a s s'" and "valid s" and "current s k = Some a"
  shows "valid s' \<and> current s' k = Some a \<and> outcome s' a = outcome s a"
  using assms
proof (induction rule: others.induct)
  case (joins s s' k')
  then have v: "valid s'" "current s' k = Some a" "outcome s' a = outcome s a" by auto
  show ?case
  proof (cases "current s' k'")
    case None
    then have "k' \<noteq> k" using v by auto
    with join_new [OF v(1) None] v join_valid [OF v(1), of k'] show ?thesis by auto
  qed (use join_current [OF v(1), of k'] v join_valid [OF v(1), of k'] in auto)
next
  case (completes s s' b k' t r)
  then have v: "valid s'" "current s' k = Some a" "outcome s' a = outcome s a" by auto
  with completes.hyps complete_outcome [OF v(1) completes.hyps(3,4), of t r]
    complete_current [OF v(1), of t k' b r] complete_valid [OF v(1), of t k' b r]
  show ?case by simp
next
  case (forgets s s' b k')
  then have v: "valid s'" "current s' k = Some a" "outcome s' a = outcome s a" by auto
  moreover have "k' \<noteq> k" using v forgets.hyps by auto
  ultimately show ?case
    using forget_current [OF v(1) forgets.hyps(3)] forget_outcome [OF v(1), of k' b] forget_valid [OF v(1), of k' b]
    by simp
qed simp_all

text \<open>
  The promise: from the moment its owner has joined until it is forgotten, every call of the key
  joins the same entry as a waiter, which has no outcome until the owner completes it and the
  owner's outcome from then on.
\<close>

lemma one_owner:
  assumes "valid s" and "fst (join k s) = (a, True)"
    and "others a (snd (join k s)) s1" and "others a (complete t k a r s1) s2"
  shows "fst (join k s1) = (a, False)" and "outcome s1 a = None"
    and "fst (join k s2) = (a, False)" and "outcome s2 a = Some r"
proof -
  have "current s k = None"
  proof (rule ccontr)
    assume "current s k \<noteq> None"
    then obtain b where "current s k = Some b" by blast
    with join_current [OF assms(1) this] assms(2) show False by simp
  qed
  from join_new [OF assms(1) this] assms(2)
  have new: "current (snd (join k s)) k = Some a" "outcome (snd (join k s)) a = None" by auto
  from others_keep [OF assms(3) join_valid [OF assms(1)] new(1)] new(2)
  have one: "valid s1" "current s1 k = Some a" "outcome s1 a = None" by auto
  then show "fst (join k s1) = (a, False)" "outcome s1 a = None" by (simp_all add: join_current)
  have "current (complete t k a r s1) k = Some a" "outcome (complete t k a r s1) a = Some r"
    using one by (simp_all add: complete_current complete_outcome)
  from others_keep [OF assms(4) complete_valid [OF one(1)] this(1)] this(2)
  have "valid s2" "current s2 k = Some a" "outcome s2 a = Some r" by auto
  then show "fst (join k s2) = (a, False)" "outcome s2 a = Some r" by (simp_all add: join_current)
qed

end

end
