(* ===== verification/Deduplication.thy ===== *)
theory Deduplication
  imports Coalescing ClientErrors CacheOptimized
begin

text \<open>
  Request de-duplication (\<open>deduplication.go\<close>). Entries are shared objects at addresses; the
  response in one is a pointer, of type \<open>'p\<close>, so that the callers that share an entry share the
  response. \<open>dt_timers\<close> are the deletions that \<open>time.AfterFunc\<close> has scheduled: the moment and
  the key. A result \<open>None\<close> of \<open>Complete\<close> is a panic: a closed channel is closed again. Each
  operation is one critical section of the tracker's mutex.
\<close>

subsection \<open>State\<close>

record 'p DeduplicationEntry =
  de_response :: "'p option"
  de_err :: "go_error option"
  de_done :: bool
  de_waiters :: int

record 'p DeduplicationTracker =
  dt_entries :: "string \<rightharpoonup> nat"
  dt_heap :: "nat \<Rightarrow> 'p DeduplicationEntry"
  dt_fresh :: nat
  dt_timers :: "(int \<times> string) list"

definition NewDeduplicationTracker :: "'p DeduplicationTracker" where
  "NewDeduplicationTracker = \<lparr>dt_entries = Map.empty,
     dt_heap = \<lambda>_. \<lparr>de_response = None, de_err = None, de_done = False, de_waiters = 0\<rparr>,
     dt_fresh = 0, dt_timers = []\<rparr>"

subsection \<open>Operations\<close>

definition GetOrCreateEntry :: "string \<Rightarrow> 'p DeduplicationTracker \<Rightarrow> (nat \<times> bool) \<times> 'p DeduplicationTracker" where
  "GetOrCreateEntry key dt =
     (case dt_entries dt key of
        Some a \<Rightarrow>
          (let e = dt_heap dt a
           in ((a, False), dt\<lparr>dt_heap := (dt_heap dt)(a := e\<lparr>de_waiters := add64 (de_waiters e) 1\<rparr>)\<rparr>))
      | None \<Rightarrow>
          (let a = dt_fresh dt
           in ((a, True), dt\<lparr>dt_heap := (dt_heap dt)(a := \<lparr>de_response = None, de_err = None, de_done = False, de_waiters = 1\<rparr>),
                dt_fresh := a + 1, dt_entries := (dt_entries dt)(key \<mapsto> a)\<rparr>)))"

definition Complete :: "int \<Rightarrow> string \<Rightarrow> 'p option \<Rightarrow> go_error option \<Rightarrow>
    'p DeduplicationTracker \<Rightarrow> 'p DeduplicationTracker option" where
  "Complete now key resp err dt =
     (case dt_entries dt key of
        None \<Rightarrow> Some dt
      | Some a \<Rightarrow>
          (let e = dt_heap dt a
           in if de_done e then None
              else Some (dt\<lparr>dt_heap := (dt_heap dt)(a := e\<lparr>de_response := resp, de_err := err, de_done := True\<rparr>),
                           dt_timers := dt_timers dt @ [(now + 100 * Millisecond, key)]\<rparr>)))"

text \<open>What the function given to \<open>time.AfterFunc\<close> does, and the timers that are due at \<open>now\<close>.\<close>

definition dt_delete :: "string \<Rightarrow> 'p DeduplicationTracker \<Rightarrow> 'p DeduplicationTracker" where
  "dt_delete key dt = dt\<lparr>dt_entries := (dt_entries dt)(key := None)\<rparr>"

definition dt_fire :: "int \<Rightarrow> 'p DeduplicationTracker \<Rightarrow> 'p DeduplicationTracker" where
  "dt_fire now dt =
     (let due = filter (\<lambda>(t, _). t \<le> now) (dt_timers dt);
          dt = dt\<lparr>dt_timers := filter (\<lambda>(t, _). \<not> t \<le> now) (dt_timers dt)\<rparr>
      in fold (\<lambda>(_, key). dt_delete key) due dt)"

text \<open>
  The results \<open>Wait\<close> may return with, where \<open>ctx\<close> is the error of the caller's context if that is
  done: none while it blocks, and either of two if both cases of the \<open>select\<close> are ready.
\<close>

definition Wait :: "'p DeduplicationEntry \<Rightarrow> go_error option \<Rightarrow> ('p option \<times> go_error option) list" where
  "Wait entry ctx =
     (if de_done entry then [(de_response entry, de_err entry)] else []) @
     (case ctx of Some e \<Rightarrow> [(None, Some e)] | None \<Rightarrow> [])"

subsection \<open>Keys and condition\<close>

definition hex_digit :: "nat \<Rightarrow> char" where
  "hex_digit d = char_of (if d < 10 then 48 + d else 87 + d)"

fun hex_text :: "nat \<Rightarrow> string" where
  "hex_text n = (if n < 16 then [hex_digit n] else hex_text (n div 16) @ [hex_digit (n mod 16)])"

declare hex_text.simps [simp del]

text \<open>The text a body yields to \<open>io.Copy\<close>, up to an error.\<close>

fun body_text :: "body \<Rightarrow> string" where
  "body_text NilBody = []" | "body_text (Reader s _) = s"

text \<open>
  \<open>sha256\<close> is the digest of \<open>crypto/sha256\<close>. The parts are hashed one after the other without
  a separator. \<open>None\<close> is a panic: the request has no URL.
\<close>

definition DefaultDeduplicationKeyFunc :: "(string \<Rightarrow> string) \<Rightarrow> request \<Rightarrow> string option" where
  "DefaultDeduplicationKeyFunc sha256 req =
     (case rq_URL req of
        None \<Rightarrow> None
      | Some u \<Rightarrow>
          (let bodyHash =
             (if rq_Body req \<noteq> NilBody \<and> rq_Method req \<in> {''POST'', ''PUT'', ''PATCH''}
              then sha256 (case rq_GetBody req of Some b \<Rightarrow> body_text b | None \<Rightarrow> [])
              else [])
           in Some (hex_text (unat (fnv64a (rq_Method req @ url_text u @ bodyHash))))))"

definition DefaultDeduplicationCondition :: "request \<Rightarrow> bool" where
  "DefaultDeduplicationCondition req \<longleftrightarrow> rq_Method req \<in> {''GET'', ''HEAD'', ''OPTIONS''}"

subsection \<open>The tracker is a coalescer\<close>

definition dt_valid :: "'p DeduplicationTracker \<Rightarrow> bool" where
  "dt_valid dt \<longleftrightarrow> (\<forall>k a. dt_entries dt k = Some a \<longrightarrow> a < dt_fresh dt) \<and>
     (\<forall>k k' a. dt_entries dt k = Some a \<longrightarrow> dt_entries dt k' = Some a \<longrightarrow> k = k')"

definition dt_outcome :: "'p DeduplicationTracker \<Rightarrow> nat \<Rightarrow> ('p option \<times> go_error option) option" where
  "dt_outcome dt a = (if de_done (dt_heap dt a) then Some (de_response (dt_heap dt a), de_err (dt_heap dt a)) else None)"

definition dt_complete :: "int \<Rightarrow> string \<Rightarrow> nat \<Rightarrow> 'p option \<times> go_error option \<Rightarrow>
    'p DeduplicationTracker \<Rightarrow> 'p DeduplicationTracker" where
  "dt_complete now key a r dt = (case Complete now key (fst r) (snd r) dt of None \<Rightarrow> dt | Some dt' \<Rightarrow> dt')"

interpretation dedup: coalescer GetOrCreateEntry dt_complete "\<lambda>key _. dt_delete key"
  dt_valid dt_entries dt_outcome
proof unfold_locales
  fix dt :: "'p DeduplicationTracker" and k k' a r now
  assume v: "dt_valid dt"
  show "dt_valid (snd (GetOrCreateEntry k dt))"
    using v by (fastforce simp: dt_valid_def GetOrCreateEntry_def Let_def less_Suc_eq split: option.splits)
  show "dt_valid (dt_complete now k a r dt)" "dt_valid (dt_delete k dt)"
    using v by (auto simp: dt_valid_def dt_complete_def Complete_def dt_delete_def Let_def split: option.splits)
  show "dt_entries (dt_complete now k a r dt) = dt_entries dt"
    by (auto simp: dt_complete_def Complete_def Let_def split: option.splits)
  show "dt_outcome (dt_delete k dt) = dt_outcome dt" by (auto simp: dt_outcome_def dt_delete_def)
  {
    assume c: "dt_entries dt k = Some a"
    then show "fst (GetOrCreateEntry k dt) = (a, False) \<and> dt_entries (snd (GetOrCreateEntry k dt)) = dt_entries dt
        \<and> dt_outcome (snd (GetOrCreateEntry k dt)) = dt_outcome dt"
      by (auto simp: GetOrCreateEntry_def dt_outcome_def Let_def)
    show "dt_entries (dt_delete k dt) = (dt_entries dt)(k := None)" by (simp add: dt_delete_def)
    show "dt_entries dt k' = Some a \<Longrightarrow> k = k'" using c v unfolding dt_valid_def by blast
    show "dt_outcome dt a = None \<Longrightarrow> dt_outcome (dt_complete now k a r dt) = (dt_outcome dt)(a \<mapsto> r)"
      using c by (auto simp: dt_complete_def Complete_def dt_outcome_def Let_def split: if_splits)
  }
  assume "dt_entries dt k = None"
  then show "\<exists>a. fst (GetOrCreateEntry k dt) = (a, True) \<and> dt_outcome (snd (GetOrCreateEntry k dt)) = (dt_outcome dt)(a := None)
      \<and> dt_entries (snd (GetOrCreateEntry k dt)) = (dt_entries dt)(k \<mapsto> a) \<and> (\<forall>k'. dt_entries dt k' \<noteq> Some a)"
    using v by (intro exI [of _ "dt_fresh dt"]) (auto simp: GetOrCreateEntry_def dt_outcome_def dt_valid_def Let_def)
qed

subsection \<open>Events\<close>

datatype 'p dt_event = Join string | Done int string "'p option" "go_error option" | Fire int

fun dt_step :: "'p dt_event \<Rightarrow> 'p DeduplicationTracker \<Rightarrow> 'p DeduplicationTracker option" where
  "dt_step (Join key) dt = Some (snd (GetOrCreateEntry key dt))"
| "dt_step (Done now key resp err) dt = Complete now key resp err dt"
| "dt_step (Fire now) dt = Some (dt_fire now dt)"

fun dt_run :: "'p dt_event list \<Rightarrow> 'p DeduplicationTracker \<Rightarrow> 'p DeduplicationTracker option" where
  "dt_run [] dt = Some dt"
| "dt_run (e # es) dt = (case dt_step e dt of None \<Rightarrow> None | Some dt' \<Rightarrow> dt_run es dt')"

text \<open>A timer is pending for each completed entry and for no other, so none hits a later entry of its key.\<close>

definition dt_inv :: "'p DeduplicationTracker \<Rightarrow> bool" where
  "dt_inv dt \<longleftrightarrow> dt_valid dt \<and> distinct (map snd (dt_timers dt)) \<and>
     (\<forall>k. k \<in> snd ` set (dt_timers dt) \<longleftrightarrow> (\<exists>a. dt_entries dt k = Some a \<and> de_done (dt_heap dt a)))"

lemma fold_delete_entries:
  "dt_entries (fold (\<lambda>(_, key). dt_delete key) due dt) k = (if k \<in> snd ` set due then None else dt_entries dt k)"
  "dt_heap (fold (\<lambda>(_, key). dt_delete key) due dt) = dt_heap dt"
  "dt_timers (fold (\<lambda>(_, key). dt_delete key) due dt) = dt_timers dt"
  "dt_fresh (fold (\<lambda>(_, key). dt_delete key) due dt) = dt_fresh dt"
  by (induction due arbitrary: dt) (auto simp: dt_delete_def)

lemma dt_fire_parts:
  "dt_entries (dt_fire now dt) k = (if \<exists>t\<le>now. (t, k) \<in> set (dt_timers dt) then None else dt_entries dt k)"
  "dt_heap (dt_fire now dt) = dt_heap dt" "dt_fresh (dt_fire now dt) = dt_fresh dt"
  "dt_timers (dt_fire now dt) = filter (\<lambda>(t, _). \<not> t \<le> now) (dt_timers dt)"
  by (force simp: dt_fire_def Let_def fold_delete_entries)+

lemma dt_fire_valid: "dt_valid dt \<Longrightarrow> dt_valid (dt_fire now dt)"
  by (auto simp: dt_valid_def dt_fire_parts split: if_splits)

lemma dt_inv_new: "dt_inv NewDeduplicationTracker"
  by (simp add: dt_inv_def dt_valid_def NewDeduplicationTracker_def)

lemma dt_inv_fire:
  assumes "dt_inv dt"
  shows "dt_inv (dt_fire now dt)"
proof -
  have d: "distinct (map snd (dt_timers dt))" using assms by (simp add: dt_inv_def)
  have one: "t = t'" if "(t, k) \<in> set (dt_timers dt)" "(t', k) \<in> set (dt_timers dt)" for t t' k
  proof -
    have "inj_on snd (set (dt_timers dt))" using d by (simp add: distinct_map)
    from inj_onD [OF this _ that] show ?thesis by simp
  qed
  have "k \<in> snd ` set (dt_timers (dt_fire now dt)) \<longleftrightarrow>
      (\<exists>a. dt_entries (dt_fire now dt) k = Some a \<and> de_done (dt_heap (dt_fire now dt) a))" for k
  proof (cases "\<exists>t\<le>now. (t, k) \<in> set (dt_timers dt)")
    case True
    then have "(t', k) \<notin> set (dt_timers (dt_fire now dt))" for t'
      using one by (auto simp: dt_fire_parts)
    with True show ?thesis by (force simp: dt_fire_parts)
  next
    case False
    then have "k \<in> snd ` set (dt_timers (dt_fire now dt)) \<longleftrightarrow> k \<in> snd ` set (dt_timers dt)"
      by (force simp: dt_fire_parts)
    moreover have "dt_entries (dt_fire now dt) k = dt_entries dt k" using False unfolding dt_fire_parts by (intro if_not_P)
    ultimately show ?thesis using assms by (simp add: dt_inv_def dt_fire_parts(2))
  qed
  moreover have "distinct (map snd (dt_timers (dt_fire now dt)))"
    using d by (simp add: dt_fire_parts distinct_map_filter)
  ultimately show ?thesis using assms dt_fire_valid by (auto simp: dt_inv_def)
qed

lemma dt_inv_step:
  assumes "dt_inv dt" and "dt_step e dt = Some dt'"
  shows "dt_inv dt'"
proof (cases e)
  case (Join key)
  show ?thesis
  proof (cases "dt_entries dt key")
    case None
    then have "key \<notin> snd ` set (dt_timers dt)" using assms(1) by (simp add: dt_inv_def)
    moreover have dt': "dt' = snd (GetOrCreateEntry key dt)" using assms(2) Join by simp
    moreover have "dt_valid dt'" using assms(1) dedup.join_valid unfolding dt' dt_inv_def by blast
    moreover have "a \<noteq> dt_fresh dt" if "dt_entries dt k = Some a" for k a
      using assms(1) that by (auto simp: dt_inv_def dt_valid_def)
    ultimately show ?thesis
      using assms(1) None by (auto simp: dt_inv_def GetOrCreateEntry_def Let_def)
  next
    case (Some a)
    then have dt': "dt' = dt\<lparr>dt_heap := (dt_heap dt)(a := (dt_heap dt a)\<lparr>de_waiters := add64 (de_waiters (dt_heap dt a)) 1\<rparr>)\<rparr>"
      using assms(2) Join by (simp add: GetOrCreateEntry_def Let_def)
    then have "de_done (dt_heap dt' b) = de_done (dt_heap dt b)" for b by simp
    moreover have "dt_entries dt' = dt_entries dt" "dt_timers dt' = dt_timers dt" "dt_valid dt' = dt_valid dt"
      by (simp_all add: dt' dt_valid_def)
    ultimately show ?thesis using assms(1) by (simp add: dt_inv_def)
  qed
next
  case (Done now key resp err)
  show ?thesis
  proof (cases "dt_entries dt key")
    case None
    with assms Done show ?thesis by (simp add: Complete_def)
  next
    case (Some a)
    with assms Done have nd: "\<not> de_done (dt_heap dt a)" and
      dt': "dt' = dt\<lparr>dt_heap := (dt_heap dt)(a := (dt_heap dt a)\<lparr>de_response := resp, de_err := err, de_done := True\<rparr>),
        dt_timers := dt_timers dt @ [(now + 100 * Millisecond, key)]\<rparr>"
      by (auto simp: Complete_def Let_def split: if_splits)
    have inj: "k = key" if "dt_entries dt k = Some a" for k
      using assms(1) Some that by (auto simp: dt_inv_def dt_valid_def)
    have fresh: "key \<notin> snd ` set (dt_timers dt)" using assms(1) Some nd by (simp add: dt_inv_def)
    have v: "dt_valid dt'" using assms(1) dt' by (simp add: dt_inv_def dt_valid_def)
    have old: "k \<in> snd ` set (dt_timers dt) \<longleftrightarrow> (\<exists>b. dt_entries dt k = Some b \<and> de_done (dt_heap dt b))" for k
      using assms(1) by (simp add: dt_inv_def)
    have "k \<in> snd ` set (dt_timers dt') \<longleftrightarrow> (\<exists>b. dt_entries dt' k = Some b \<and> de_done (dt_heap dt' b))" for k
    proof (cases "k = key")
      case True
      then show ?thesis using Some by (simp add: dt')
    next
      case False
      have "de_done (dt_heap dt' b) = de_done (dt_heap dt b)" if "dt_entries dt k = Some b" for b
        using inj that False by (auto simp: dt')
      moreover have "k \<in> snd ` set (dt_timers dt') \<longleftrightarrow> k \<in> snd ` set (dt_timers dt)" using False by (simp add: dt')
      moreover have "dt_entries dt' k = dt_entries dt k" by (simp add: dt')
      ultimately show ?thesis using old [of k] by metis
    qed
    moreover have "distinct (map snd (dt_timers dt'))" using assms(1) fresh by (simp add: dt' dt_inv_def)
    ultimately show ?thesis using v unfolding dt_inv_def by blast
  qed
next
  case (Fire now)
  with assms dt_inv_fire show ?thesis by auto
qed

lemma dt_inv_run: "dt_inv dt \<Longrightarrow> dt_run es dt = Some dt' \<Longrightarrow> dt_inv dt'"
proof (induction es arbitrary: dt)
  case (Cons e es)
  then show ?case using dt_inv_step [of dt e] by (auto split: option.splits)
qed simp

text \<open>An event that neither completes the key nor is late enough to forget it leaves its entry alone.\<close>

fun keeps_key :: "string \<Rightarrow> int option \<Rightarrow> 'p dt_event \<Rightarrow> bool" where
  "keeps_key k deadline (Join _) = True"
| "keeps_key k deadline (Done _ key _ _) = (key \<noteq> k)"
| "keeps_key k deadline (Fire now) = (case deadline of None \<Rightarrow> True | Some t \<Rightarrow> now < t)"

definition due_after :: "string \<Rightarrow> int option \<Rightarrow> 'p DeduplicationTracker \<Rightarrow> bool" where
  "due_after k deadline dt \<longleftrightarrow>
     (case deadline of None \<Rightarrow> k \<notin> snd ` set (dt_timers dt) | Some t \<Rightarrow> \<forall>t'. (t', k) \<in> set (dt_timers dt) \<longrightarrow> t \<le> t')"

lemma dt_step_keeps:
  assumes "dt_valid dt" and "dt_entries dt k = Some a" and "dt_step e dt = Some dt'"
    and "keeps_key k deadline e" and "due_after k deadline dt"
  shows "dt_entries dt' k = Some a \<and> dt_outcome dt' a = dt_outcome dt a \<and> dt_valid dt' \<and> due_after k deadline dt'"
proof (cases e)
  case (Join key)
  have "dedup.others a dt (snd (GetOrCreateEntry key dt))" by (rule dedup.others.joins [OF dedup.others.none])
  moreover have "dt_timers (snd (GetOrCreateEntry key dt)) = dt_timers dt"
    by (simp add: GetOrCreateEntry_def Let_def split: option.splits)
  then have "due_after k deadline (snd (GetOrCreateEntry key dt)) = due_after k deadline dt"
    by (simp only: due_after_def)
  ultimately show ?thesis
    using dedup.others_keep [of a dt _ k] assms Join by simp
next
  case (Done now key resp err)
  show ?thesis
  proof (cases "dt_entries dt key")
    case None
    with assms Done show ?thesis by (simp add: Complete_def)
  next
    case (Some b)
    with assms Done have nd: "\<not> de_done (dt_heap dt b)" and c: "dt' = dt_complete now key b (resp, err) dt"
      by (auto simp: Complete_def dt_complete_def Let_def split: if_splits)
    have "b \<noteq> a" using assms(1,2,4) Some Done by (auto simp: dt_valid_def)
    then have "dedup.others a dt dt'"
      unfolding c using Some nd by (intro dedup.others.completes [OF dedup.others.none]) (simp_all add: dt_outcome_def)
    moreover have "due_after k deadline dt'"
      using assms(4,5) Done Some nd
      by (auto simp: c dt_complete_def Complete_def due_after_def Let_def split: option.splits)
    ultimately show ?thesis using dedup.others_keep assms(1,2) by blast
  qed
next
  case (Fire now)
  then have "\<not> (\<exists>t\<le>now. (t, k) \<in> set (dt_timers dt))"
    using assms(4,5) by (force simp: due_after_def split: option.splits)
  with assms Fire show ?thesis
    by (force simp: dt_fire_parts dt_outcome_def dt_fire_valid due_after_def split: option.splits)
qed

lemma dt_run_keeps:
  "dt_valid dt \<Longrightarrow> dt_entries dt k = Some a \<Longrightarrow> dt_run es dt = Some dt' \<Longrightarrow> \<forall>e \<in> set es. keeps_key k deadline e \<Longrightarrow>
   due_after k deadline dt \<Longrightarrow>
   dt_entries dt' k = Some a \<and> dt_outcome dt' a = dt_outcome dt a \<and> dt_valid dt' \<and> due_after k deadline dt'"
proof (induction es arbitrary: dt)
  case (Cons e es)
  then obtain dt1 where s: "dt_step e dt = Some dt1" "dt_run es dt1 = Some dt'" by (auto split: option.splits)
  from dt_step_keeps [OF Cons.prems(1,2) s(1), of deadline] Cons.prems(4,5)
  have "dt_entries dt1 k = Some a" "dt_outcome dt1 a = dt_outcome dt a" "dt_valid dt1" "due_after k deadline dt1" by auto
  with Cons.IH [of dt1] s(2) Cons.prems(4) show ?case by auto
qed simp

subsection \<open>Properties\<close>

text \<open>
  C18. Callers of one key share one call. Once a caller has become the owner, whatever other
  callers and timers do, every further caller joins its entry and waits, for as long as the
  owner does not complete it (for ever, if it never does); completing it does not panic; and
  from then on, until 100 ms later, every caller that waits or joins gets exactly the owner's
  response and error.
\<close>

theorem dedup_shares_one_call:
  assumes "dt_run es0 NewDeduplicationTracker = Some dt" and "GetOrCreateEntry k dt = ((a, True), dt1)"
    and "dt_run es1 dt1 = Some dt2" and "\<forall>e \<in> set es1. keeps_key k None e"
  shows "fst (GetOrCreateEntry k dt2) = (a, False) \<and> Wait (dt_heap dt2 a) None = []
    \<and> (\<exists>dt3. Complete now k resp err dt2 = Some dt3
        \<and> (\<forall>es2 dt4. dt_run es2 dt3 = Some dt4 \<and> (\<forall>e \<in> set es2. keeps_key k (Some (now + 100 * Millisecond)) e) \<longrightarrow>
            fst (GetOrCreateEntry k dt4) = (a, False) \<and> Wait (dt_heap dt4 a) None = [(resp, err)]))"
proof -
  have join: "fst (GetOrCreateEntry k dt') = (a, False)" if "dt_entries dt' k = Some a" for dt' :: "'a DeduplicationTracker"
    using that by (simp add: GetOrCreateEntry_def Let_def)
  have wait: "Wait (dt_heap dt' a) None = (case dt_outcome dt' a of None \<Rightarrow> [] | Some r \<Rightarrow> [r])" for dt' :: "'a DeduplicationTracker"
    by (simp add: Wait_def dt_outcome_def)
  have inv: "dt_inv dt" by (rule dt_inv_run [OF dt_inv_new assms(1)])
  have none: "dt_entries dt k = None"
    using assms(2) by (auto simp: GetOrCreateEntry_def Let_def split: option.splits)
  then have one: "dt_entries dt1 k = Some a" "dt_outcome dt1 a = None" "dt_timers dt1 = dt_timers dt"
    using assms(2) by (auto simp: GetOrCreateEntry_def dt_outcome_def Let_def)
  have v1: "dt_valid dt1" using inv assms(2) dedup.join_valid [of dt k] by (simp add: dt_inv_def)
  have "due_after k None dt1" using inv none one(3) by (simp add: due_after_def dt_inv_def)
  from dt_run_keeps [OF v1 one(1) assms(3,4) this]
  have two: "dt_entries dt2 k = Some a" "dt_outcome dt2 a = None" "dt_valid dt2" "due_after k None dt2"
    using one(2) by auto
  then have nd: "\<not> de_done (dt_heap dt2 a)" by (auto simp: dt_outcome_def split: if_splits)
  define dt3 where "dt3 = dt2\<lparr>dt_heap := (dt_heap dt2)(a := (dt_heap dt2 a)\<lparr>de_response := resp, de_err := err, de_done := True\<rparr>),
      dt_timers := dt_timers dt2 @ [(now + 100 * Millisecond, k)]\<rparr>"
  have c: "Complete now k resp err dt2 = Some dt3" using two nd by (simp add: Complete_def dt3_def Let_def)
  have three: "dt_entries dt3 k = Some a" "dt_outcome dt3 a = Some (resp, err)" "dt_valid dt3"
    "due_after k (Some (now + 100 * Millisecond)) dt3"
    using two by (auto simp: dt3_def dt_outcome_def dt_valid_def due_after_def rev_image_eqI)
  have "fst (GetOrCreateEntry k dt4) = (a, False) \<and> Wait (dt_heap dt4 a) None = [(resp, err)]"
    if "dt_run es2 dt3 = Some dt4" "\<forall>e \<in> set es2. keeps_key k (Some (now + 100 * Millisecond)) e" for es2 dt4
    using dt_run_keeps [OF three(3,1) that three(4)] three(2) join wait by simp
  with c two join wait show ?thesis by auto
qed

lemma dedup_shares_one_call_witness:
  "\<exists>dt3. Complete 5 ''k'' (Some (7 :: nat)) None (snd (GetOrCreateEntry ''k'' (snd (GetOrCreateEntry ''k'' NewDeduplicationTracker)))) = Some dt3
    \<and> Wait (dt_heap dt3 0) None = [(Some 7, None)]"
proof -
  let ?dt = "NewDeduplicationTracker :: nat DeduplicationTracker"
  have run: "dt_run [] ?dt = Some ?dt" by simp
  have own: "GetOrCreateEntry ''k'' ?dt = ((0, True), snd (GetOrCreateEntry ''k'' ?dt))"
    by (simp add: GetOrCreateEntry_def NewDeduplicationTracker_def Let_def)
  have join: "dt_run [Join ''k''] (snd (GetOrCreateEntry ''k'' ?dt)) =
      Some (snd (GetOrCreateEntry ''k'' (snd (GetOrCreateEntry ''k'' ?dt))))" by simp
  from dedup_shares_one_call [OF run own join, of 5 "Some 7" None] obtain dt3 where
    c: "Complete 5 ''k'' (Some (7 :: nat)) None (snd (GetOrCreateEntry ''k'' (snd (GetOrCreateEntry ''k'' ?dt)))) = Some dt3"
    and w: "\<And>es2 dt4. dt_run es2 dt3 = Some dt4 \<Longrightarrow> \<forall>e \<in> set es2. keeps_key ''k'' (Some (5 + 100 * Millisecond)) e \<Longrightarrow>
      Wait (dt_heap dt4 0) None = [(Some 7, None)]" by auto
  from w [of "[]" dt3] c show ?thesis by auto
qed

end
