(* ===== verification/SingleFlight.thy ===== *)
theory SingleFlight
  imports Coalescing ClientErrors
begin

text \<open>
  Single flight: the group of \<open>internal/singleflight\<close> and the map the client falls back to
  (\<open>singleFlightDo\<close> in \<open>client.go\<close>). A call is an object at an address; \<open>cleanups\<close> are the
  deletions a goroutine will make after its sleep of 100 ms. The critical sections are
  \<open>begin\<close> (look the key up or register a call), \<open>finish\<close> and the deletion; the whole \<open>Do\<close> is given
  for a caller that nobody else interferes with, where waiting for a call that is not done is the
  result \<open>None\<close>. \<open>'w\<close> is the state that the given function changes.
\<close>

subsection \<open>The group\<close>

definition ErrInProgress :: go_error where
  "ErrInProgress = ErrorString 4 ''singleflight: call already in progress''"

record 'v sf_call =
  call_val :: "'v option"
  call_err :: "go_error option"
  call_done :: bool

record 'v Group =
  grp_m :: "string \<rightharpoonup> nat"
  grp_calls :: "nat \<Rightarrow> 'v sf_call"
  grp_fresh :: nat
  grp_cleanups :: "(int \<times> string \<times> nat) list"

definition NewGroup :: "'v Group" where
  "NewGroup = \<lparr>grp_m = Map.empty, grp_calls = \<lambda>_. \<lparr>call_val = None, call_err = None, call_done = False\<rparr>,
     grp_fresh = 0, grp_cleanups = []\<rparr>"

definition grp_begin :: "string \<Rightarrow> 'v Group \<Rightarrow> (nat \<times> bool) \<times> 'v Group" where
  "grp_begin key g =
     (case grp_m g key of
        Some c \<Rightarrow> ((c, False), g)
      | None \<Rightarrow>
          (let c = grp_fresh g
           in ((c, True), g\<lparr>grp_calls := (grp_calls g)(c := \<lparr>call_val = None, call_err = None, call_done = False\<rparr>),
                grp_fresh := c + 1, grp_m := (grp_m g)(key \<mapsto> c)\<rparr>)))"

definition grp_finish :: "int \<Rightarrow> string \<Rightarrow> nat \<Rightarrow> 'v option \<times> go_error option \<Rightarrow> 'v Group \<Rightarrow> 'v Group" where
  "grp_finish now key c r g =
     g\<lparr>grp_calls := (grp_calls g)(c := \<lparr>call_val = fst r, call_err = snd r, call_done = True\<rparr>),
       grp_cleanups := grp_cleanups g @ [(now + 100 * Millisecond, key, c)]\<rparr>"

definition grp_cleanup :: "string \<Rightarrow> nat \<Rightarrow> 'v Group \<Rightarrow> 'v Group" where
  "grp_cleanup key c g = (if grp_m g key = Some c then g\<lparr>grp_m := (grp_m g)(key := None)\<rparr> else g)"

text \<open>The sleeping goroutines that are due at \<open>now\<close>.\<close>

definition grp_fire :: "int \<Rightarrow> 'v Group \<Rightarrow> 'v Group" where
  "grp_fire now g =
     (let due = filter (\<lambda>(t, _). t \<le> now) (grp_cleanups g);
          g = g\<lparr>grp_cleanups := filter (\<lambda>(t, _). \<not> t \<le> now) (grp_cleanups g)\<rparr>
      in fold (\<lambda>(_, key, c). grp_cleanup key c) due g)"

definition ForgetKey :: "string \<Rightarrow> 'v Group \<Rightarrow> 'v Group" where
  "ForgetKey key g = g\<lparr>grp_m := (grp_m g)(key := None)\<rparr>"

definition grp_wait :: "nat \<Rightarrow> 'v Group \<Rightarrow> ('v option \<times> go_error option) option" where
  "grp_wait c g =
     (if call_done (grp_calls g c) then Some (call_val (grp_calls g c), call_err (grp_calls g c)) else None)"

text \<open>\<open>now\<close> is read when the function has returned.\<close>

definition grp_Do :: "string \<Rightarrow> ('w \<Rightarrow> ('v option \<times> go_error option) \<times> 'w) \<Rightarrow> ('w \<Rightarrow> int) \<Rightarrow> 'v Group \<times> 'w \<Rightarrow>
    (('v option \<times> go_error option) \<times> 'v Group \<times> 'w) option" where
  "grp_Do key fn now s =
     (case s of (g, w) \<Rightarrow>
        (case grp_begin key g of
           ((c, False), g) \<Rightarrow> map_option (\<lambda>r. (r, g, w)) (grp_wait c g)
         | ((c, True), g) \<Rightarrow> (let (r, w) = fn w in Some (r, grp_finish (now w) key c r g, w))))"

definition grp_TryDo :: "string \<Rightarrow> ('w \<Rightarrow> ('v option \<times> go_error option) \<times> 'w) \<Rightarrow> ('w \<Rightarrow> int) \<Rightarrow> 'v Group \<times> 'w \<Rightarrow>
    ('v option \<times> go_error option \<times> bool) \<times> 'v Group \<times> 'w" where
  "grp_TryDo key fn now s =
     (case s of (g, w) \<Rightarrow>
        (case grp_begin key g of
           ((c, False), g) \<Rightarrow> ((None, Some ErrInProgress, False), g, w)
         | ((c, True), g) \<Rightarrow>
             (let (r, w) = fn w in ((fst r, snd r, True), grp_finish (now w) key c r g, w))))"

subsection \<open>The client's own map\<close>

record 'p singleFlightEntry =
  sfe_resp :: "'p option"
  sfe_err :: "go_error option"
  sfe_done :: bool

record 'p single_flight =
  sf_entries :: "string \<rightharpoonup> nat"
  sf_heap :: "nat \<Rightarrow> 'p singleFlightEntry"
  sf_fresh :: nat
  sf_cleanups :: "(int \<times> string) list"

definition new_single_flight :: "'p single_flight" where
  "new_single_flight = \<lparr>sf_entries = Map.empty,
     sf_heap = \<lambda>_. \<lparr>sfe_resp = None, sfe_err = None, sfe_done = False\<rparr>, sf_fresh = 0, sf_cleanups = []\<rparr>"

definition sf_begin :: "string \<Rightarrow> 'p single_flight \<Rightarrow> (nat \<times> bool) \<times> 'p single_flight" where
  "sf_begin key s =
     (case sf_entries s key of
        Some c \<Rightarrow> ((c, False), s)
      | None \<Rightarrow>
          (let c = sf_fresh s
           in ((c, True), s\<lparr>sf_heap := (sf_heap s)(c := \<lparr>sfe_resp = None, sfe_err = None, sfe_done = False\<rparr>),
                sf_fresh := c + 1, sf_entries := (sf_entries s)(key \<mapsto> c)\<rparr>)))"

definition sf_finish :: "int \<Rightarrow> string \<Rightarrow> nat \<Rightarrow> 'p option \<times> go_error option \<Rightarrow> 'p single_flight \<Rightarrow> 'p single_flight" where
  "sf_finish now key c r s =
     s\<lparr>sf_heap := (sf_heap s)(c := \<lparr>sfe_resp = fst r, sfe_err = snd r, sfe_done = True\<rparr>),
       sf_cleanups := sf_cleanups s @ [(now + 100 * Millisecond, key)]\<rparr>"

definition sf_delete :: "string \<Rightarrow> 'p single_flight \<Rightarrow> 'p single_flight" where
  "sf_delete key s = s\<lparr>sf_entries := (sf_entries s)(key := None)\<rparr>"

definition sf_fire :: "int \<Rightarrow> 'p single_flight \<Rightarrow> 'p single_flight" where
  "sf_fire now s =
     (let due = filter (\<lambda>(t, _). t \<le> now) (sf_cleanups s);
          s = s\<lparr>sf_cleanups := filter (\<lambda>(t, _). \<not> t \<le> now) (sf_cleanups s)\<rparr>
      in fold (\<lambda>(_, key). sf_delete key) due s)"

definition sf_wait :: "nat \<Rightarrow> 'p single_flight \<Rightarrow> ('p option \<times> go_error option) option" where
  "sf_wait c s =
     (if sfe_done (sf_heap s c) then Some (sfe_resp (sf_heap s c), sfe_err (sf_heap s c)) else None)"

subsection \<open>Both are coalescers\<close>

definition grp_valid :: "'v Group \<Rightarrow> bool" where
  "grp_valid g \<longleftrightarrow> (\<forall>k c. grp_m g k = Some c \<longrightarrow> c < grp_fresh g) \<and>
     (\<forall>k k' c. grp_m g k = Some c \<longrightarrow> grp_m g k' = Some c \<longrightarrow> k = k')"

interpretation group: coalescer grp_begin grp_finish grp_cleanup grp_valid grp_m "\<lambda>g c. grp_wait c g"
proof unfold_locales
  fix g :: "'v Group" and k k' c r now
  assume v: "grp_valid g"
  show "grp_valid (snd (grp_begin k g))"
    using v by (fastforce simp: grp_valid_def grp_begin_def Let_def less_Suc_eq split: option.splits)
  show "grp_valid (grp_finish now k c r g)" "grp_valid (grp_cleanup k c g)"
    using v by (auto simp: grp_valid_def grp_finish_def grp_cleanup_def)
  show "grp_m (grp_finish now k c r g) = grp_m g" by (simp add: grp_finish_def)
  show "(\<lambda>c'. grp_wait c' (grp_cleanup k c g)) = (\<lambda>c'. grp_wait c' g)"
    by (auto simp: grp_wait_def grp_cleanup_def)
  {
    assume c: "grp_m g k = Some c"
    then show "fst (grp_begin k g) = (c, False) \<and> grp_m (snd (grp_begin k g)) = grp_m g
        \<and> (\<lambda>c'. grp_wait c' (snd (grp_begin k g))) = (\<lambda>c'. grp_wait c' g)"
      by (simp add: grp_begin_def)
    show "grp_m (grp_cleanup k c g) = (grp_m g)(k := None)" using c by (simp add: grp_cleanup_def)
    show "grp_m g k' = Some c \<Longrightarrow> k = k'" using c v unfolding grp_valid_def by blast
    show "(\<lambda>c'. grp_wait c' (grp_finish now k c r g)) = (\<lambda>c'. grp_wait c' g)(c \<mapsto> r)"
      by (auto simp: grp_wait_def grp_finish_def)
  }
  assume "grp_m g k = None"
  then show "\<exists>a. fst (grp_begin k g) = (a, True)
      \<and> (\<lambda>c'. grp_wait c' (snd (grp_begin k g))) = (\<lambda>c'. grp_wait c' g)(a := None)
      \<and> grp_m (snd (grp_begin k g)) = (grp_m g)(k \<mapsto> a) \<and> (\<forall>k'. grp_m g k' \<noteq> Some a)"
    using v by (intro exI [of _ "grp_fresh g"]) (auto simp: grp_begin_def grp_wait_def grp_valid_def Let_def)
qed

definition sf_valid :: "'p single_flight \<Rightarrow> bool" where
  "sf_valid s \<longleftrightarrow> (\<forall>k c. sf_entries s k = Some c \<longrightarrow> c < sf_fresh s) \<and>
     (\<forall>k k' c. sf_entries s k = Some c \<longrightarrow> sf_entries s k' = Some c \<longrightarrow> k = k')"

interpretation legacy: coalescer sf_begin sf_finish "\<lambda>key _. sf_delete key" sf_valid sf_entries "\<lambda>s c. sf_wait c s"
proof unfold_locales
  fix s :: "'p single_flight" and k k' c r now
  assume v: "sf_valid s"
  show "sf_valid (snd (sf_begin k s))"
    using v by (fastforce simp: sf_valid_def sf_begin_def Let_def less_Suc_eq split: option.splits)
  show "sf_valid (sf_finish now k c r s)" "sf_valid (sf_delete k s)"
    using v by (auto simp: sf_valid_def sf_finish_def sf_delete_def)
  show "sf_entries (sf_finish now k c r s) = sf_entries s" by (simp add: sf_finish_def)
  show "(\<lambda>c'. sf_wait c' (sf_delete k s)) = (\<lambda>c'. sf_wait c' s)"
    by (auto simp: sf_wait_def sf_delete_def)
  {
    assume c: "sf_entries s k = Some c"
    then show "fst (sf_begin k s) = (c, False) \<and> sf_entries (snd (sf_begin k s)) = sf_entries s
        \<and> (\<lambda>c'. sf_wait c' (snd (sf_begin k s))) = (\<lambda>c'. sf_wait c' s)"
      by (simp add: sf_begin_def)
    show "sf_entries (sf_delete k s) = (sf_entries s)(k := None)" by (simp add: sf_delete_def)
    show "sf_entries s k' = Some c \<Longrightarrow> k = k'" using c v unfolding sf_valid_def by blast
    show "(\<lambda>c'. sf_wait c' (sf_finish now k c r s)) = (\<lambda>c'. sf_wait c' s)(c \<mapsto> r)"
      by (auto simp: sf_wait_def sf_finish_def)
  }
  assume "sf_entries s k = None"
  then show "\<exists>a. fst (sf_begin k s) = (a, True)
      \<and> (\<lambda>c'. sf_wait c' (snd (sf_begin k s))) = (\<lambda>c'. sf_wait c' s)(a := None)
      \<and> sf_entries (snd (sf_begin k s)) = (sf_entries s)(k \<mapsto> a) \<and> (\<forall>k'. sf_entries s k' \<noteq> Some a)"
    using v by (intro exI [of _ "sf_fresh s"]) (auto simp: sf_begin_def sf_wait_def sf_valid_def Let_def)
qed

lemma NewGroup_valid: "grp_valid NewGroup" and new_single_flight_valid: "sf_valid new_single_flight"
  by (simp_all add: grp_valid_def NewGroup_def sf_valid_def new_single_flight_def)

subsection \<open>Properties\<close>



text \<open>
  Forgetting a key is safe for what follows: after \<open>ForgetKey\<close> a new call of the key can
  start while the forgotten one still runs, and when that one finishes and its cleanup comes
  due, the new call stays registered, because the cleanup compares the call before it deletes.
\<close>

theorem forgotten_call_spares_new_one:
  assumes "grp_valid g" and "grp_m g k = Some c" and "grp_begin k (ForgetKey k g) = ((d, own), g')"
  shows "own \<and> d \<noteq> c \<and> fst (grp_begin k (grp_cleanup k c (grp_finish now k c r g'))) = (d, False)
    \<and> grp_wait d (grp_cleanup k c (grp_finish now k c r g')) = None"
proof -
  have "d = grp_fresh g" "own" "grp_m g' = (grp_m g)(k \<mapsto> d)" "\<not> call_done (grp_calls g' d)"
    using assms(3) by (auto simp: grp_begin_def ForgetKey_def Let_def)
  moreover have "c \<noteq> grp_fresh g" using assms(1,2) by (auto simp: grp_valid_def)
  ultimately show ?thesis by (simp add: grp_cleanup_def grp_finish_def grp_begin_def grp_wait_def)
qed

lemma forgotten_call_spares_new_one_witness:
  "fst (grp_begin ''k'' (grp_cleanup ''k'' 0 (grp_finish 3 ''k'' 0 (Some (7 :: nat), None)
      (snd (grp_begin ''k'' (ForgetKey ''k'' (snd (grp_begin ''k'' NewGroup)))))))) = (1, False)"
proof -
  let ?g = "snd (grp_begin ''k'' (NewGroup :: nat Group))"
  have g: "grp_valid ?g" by (rule group.join_valid [OF NewGroup_valid])
  have m: "grp_m ?g ''k'' = Some 0" by (simp add: grp_begin_def NewGroup_def Let_def)
  have b: "grp_begin ''k'' (ForgetKey ''k'' ?g) = ((1, True), snd (grp_begin ''k'' (ForgetKey ''k'' ?g)))"
    by (simp add: grp_begin_def NewGroup_def ForgetKey_def Let_def)
  from forgotten_call_spares_new_one [OF g m b] show ?thesis by blast
qed

end
