(* ===== verification/ClientConfig.thy ===== *)
theory ClientConfig
  imports Logging Metrics RetryPolicy RetryBudget RateLimiterRegistry CacheProvider CacheOptimized Deduplication
    SingleFlight
begin

text \<open>
  The client's state and how it is configured (\<open>client.go\<close>, \<open>options.go\<close>, \<open>types.go\<close>): the fields
  of \<open>Client\<close>, every option as an update of them, \<open>New\<close>, and the validation.

  What the client shares or touches outside its own fields is the record \<open>world\<close>: the limiters
  and caches behind pointers, the calls made on the metrics library and on the logger, and the
  rest of the world \<open>'x\<close>, which the transport, the middleware and the clock live in. The library
  functions the client calls are the fields of \<open>env\<close>. A result \<open>None\<close> of type \<open>option\<close> is a panic.
\<close>

subsection \<open>The world and the environment\<close>

type_synonym go_result = "response option \<times> go_error option"

text \<open>
  A round trip gives the response and the error, the request as its reading left it (the body is
  a stream), and the changed world.
\<close>

type_synonym 'x round_trip = "request \<Rightarrow> 'x \<Rightarrow> (go_result \<times> request \<times> 'x) option"

type_synonym 'x Middleware = "request \<Rightarrow> 'x round_trip \<Rightarrow> 'x \<Rightarrow> (go_result \<times> request \<times> 'x) option"

datatype cache_object = InMemory InMemoryCache | Optimized OptimizedCache

record 'x world =
  w_limiters :: limiters
  w_caches :: "nat \<rightharpoonup> cache_object"
  w_fresh :: nat
  w_prom :: "prom_call list"
  w_log :: "(log_level \<times> string \<times> log_arg list) list"
  w_out :: 'x

text \<open>
  \<open>e_now\<close> reads the clock, \<open>e_rand\<close> is \<open>rand.Float64\<close>, \<open>e_impl\<close> the platform's conversion of a float
  that fits no \<open>int64\<close>, \<open>e_ctx\<close> the error of the request's context once that is done, \<open>e_pick\<close> the
  choice of a \<open>select\<close> with several ready cases, \<open>e_order\<close> the order in which a \<open>range\<close> visits a
  map's keys, \<open>e_do\<close> the \<open>Do\<close> of a plain \<open>http.Client\<close> with the given timeout, \<open>e_new_request\<close>
  \<open>http.NewRequestWithContext\<close>.
\<close>

record 'x env =
  e_now :: "'x \<Rightarrow> int \<times> 'x"
  e_sleep :: "int \<Rightarrow> 'x \<Rightarrow> 'x"
  e_rand :: "'x \<Rightarrow> float64 \<times> 'x"
  e_impl :: "float64 \<Rightarrow> int"
  e_parse_time :: "string \<Rightarrow> int option"
  e_formats :: time_formats
  e_sha256 :: "string \<Rightarrow> string"
  e_ctx :: "request \<Rightarrow> 'x \<Rightarrow> go_error option"
  e_pick :: "'x \<Rightarrow> nat"
  e_order :: "(string \<rightharpoonup> Limiter option) \<Rightarrow> 'x \<Rightarrow> string list"
  e_register :: "prom_vec \<Rightarrow> 'x \<Rightarrow> 'x option"
  e_is_registry :: "'x \<Rightarrow> bool"
  e_do :: "int \<Rightarrow> 'x round_trip"
  e_new_request :: "string \<Rightarrow> string \<Rightarrow> body \<Rightarrow> go_error + request"

definition clock :: "'x env \<Rightarrow> 'x world \<Rightarrow> int \<times> 'x world" where
  "clock e w = (let (t, x) = e_now e (w_out w) in (t, w\<lparr>w_out := x\<rparr>))"

subsection \<open>The client\<close>

record 'x http_client =
  hc_Timeout :: int
  hc_do :: "int \<Rightarrow> 'x round_trip"

record 'x DebugConfig =
  dc_Enabled :: bool
  dc_LogRequests :: bool
  dc_LogRetries :: bool
  dc_LogCache :: bool
  dc_LogRateLimit :: bool
  dc_LogCircuit :: bool
  dc_RequestIDGen :: "('x \<Rightarrow> string \<times> 'x) option"

definition generateRequestID :: "'x env \<Rightarrow> 'x \<Rightarrow> string \<times> 'x" where
  "generateRequestID e x = (let (t, x) = e_now e x in (''req_'' @ itoa (i64 t), x))"

definition DefaultDebugConfig :: "'x env \<Rightarrow> 'x DebugConfig" where
  "DefaultDebugConfig e =
     \<lparr>dc_Enabled = False, dc_LogRequests = True, dc_LogRetries = True, dc_LogCache = False,
      dc_LogRateLimit = False, dc_LogCircuit = True, dc_RequestIDGen = Some (generateRequestID e)\<rparr>"

datatype logger = SimpleLogger | OtherLogger

text \<open>A retry policy of the package or of the caller's own.\<close>

datatype retry_policy =
  DefaultPolicy DefaultRetryPolicy
| OtherPolicy "response option \<Rightarrow> go_error option \<Rightarrow> int \<Rightarrow> int \<times> bool"

text \<open>Providers hold the address of their cache.\<close>

datatype cache_provider =
  DefaultCacheProvider nat int
| HTTPSemanticsCacheProvider nat int int
| OptimizedCacheProvider nat int int

definition NewDefaultCacheProvider :: "nat \<Rightarrow> int \<Rightarrow> cache_provider" where
  "NewDefaultCacheProvider cache_at ttl = DefaultCacheProvider cache_at ttl"

definition NewHTTPSemanticsCacheProvider :: "nat \<Rightarrow> int \<Rightarrow> int \<Rightarrow> cache_provider" where
  "NewHTTPSemanticsCacheProvider cache_at defaultTTL mode = HTTPSemanticsCacheProvider cache_at defaultTTL mode"

definition NewOptimizedCacheProvider :: "nat \<Rightarrow> int \<Rightarrow> int \<Rightarrow> cache_provider" where
  "NewOptimizedCacheProvider cache_at defaultTTL mode = OptimizedCacheProvider cache_at defaultTTL mode"

text \<open>\<open>None\<close> in a field of function or pointer type is nil; \<open>c_rateLimiter\<close> and \<open>c_cache\<close> are addresses.\<close>

record 'x Client =
  c_httpClient :: "'x http_client option"
  c_maxRetries :: int
  c_initialBackoff :: int
  c_maxBackoff :: int
  c_backoffMultiplier :: float64
  c_jitter :: float64
  c_backoffStrategy :: int
  c_backoffCalculator :: "Calculator option"
  c_timeout :: int
  c_retryCondition :: "(response option \<Rightarrow> go_error option \<Rightarrow> bool option) option"
  c_retryPolicy :: "retry_policy option"
  c_retryBudget :: "RetryBudget option"
  c_circuitBreaker :: CircuitBreaker
  c_middleware :: "'x Middleware option list"
  c_rateLimiter :: "nat option"
  c_limiterRegistry :: "RateLimiterRegistry option"
  c_limiterKeyFunc :: "KeyFunc option"
  c_cache :: "nat option"
  c_cacheTTL :: int
  c_cacheKeyFunc :: "(request \<Rightarrow> string) option"
  c_cacheCondition :: "(request \<Rightarrow> bool) option"
  c_cacheProvider :: "cache_provider option"
  c_cacheMode :: int
  c_singleFlight :: "response single_flight"
  c_singleFlightGroup :: "response Group"
  c_singleFlightEnabled :: bool
  c_metrics :: "MetricsCollector option"
  c_debug :: "'x DebugConfig option"
  c_logger :: "logger option"
  c_deduplication :: "response DeduplicationTracker option"
  c_dedupKeyFunc :: "(request \<Rightarrow> string option) option"
  c_dedupCondition :: "(request \<Rightarrow> bool) option"
  c_validationError :: "go_error option"

type_synonym 'x state = "'x Client \<times> 'x world"

type_synonym 'x Option = "'x env \<Rightarrow> 'x state \<Rightarrow> 'x state option"

subsection \<open>Options\<close>

definition configure :: "('x Client \<Rightarrow> 'x Client) \<Rightarrow> 'x Option" where
  "configure f e = (\<lambda>(c, w). Some (f c, w))"

definition WithMaxRetries :: "int \<Rightarrow> 'x Option" where
  "WithMaxRetries n = configure (\<lambda>c. c\<lparr>c_maxRetries := n\<rparr>)"

definition WithInitialBackoff :: "int \<Rightarrow> 'x Option" where
  "WithInitialBackoff d = configure (\<lambda>c. c\<lparr>c_initialBackoff := d\<rparr>)"

definition WithMaxBackoff :: "int \<Rightarrow> 'x Option" where
  "WithMaxBackoff d = configure (\<lambda>c. c\<lparr>c_maxBackoff := d\<rparr>)"

definition WithBackoffMultiplier :: "float64 \<Rightarrow> 'x Option" where
  "WithBackoffMultiplier f = configure (\<lambda>c. c\<lparr>c_backoffMultiplier := f\<rparr>)"

definition WithJitter :: "float64 \<Rightarrow> 'x Option" where
  "WithJitter f = configure (\<lambda>c.
     let f = (if f < 0 then 0 else f);
         f = (if 1 < f then 1 else f)
     in c\<lparr>c_jitter := f\<rparr>)"

definition WithBackoffStrategy :: "int \<Rightarrow> 'x Option" where
  "WithBackoffStrategy strat = configure (\<lambda>c. c\<lparr>c_backoffStrategy := strat\<rparr>)"

definition WithRateLimiter :: "int \<Rightarrow> int \<Rightarrow> 'x Option" where
  "WithRateLimiter maxTokens refillRate e = (\<lambda>(c, w).
     let (now, w) = clock e w;
         a = w_fresh w;
         w = w\<lparr>w_fresh := a + 1,
               w_limiters := (w_limiters w)(a \<mapsto> PlainLimiter (NewRateLimiter (i64 now) maxTokens refillRate))\<rparr>
     in Some (c\<lparr>c_rateLimiter := Some a\<rparr>, w))"

text \<open>The pointer \<open>c.rateLimiter\<close> as a \<open>Limiter\<close>: the interface is not nil where the pointer is.\<close>

definition rateLimiter_as_Limiter :: "'x Client \<Rightarrow> Limiter option" where
  "rateLimiter_as_Limiter c = Some (case c_rateLimiter c of None \<Rightarrow> NilLimiter | Some a \<Rightarrow> LimiterAt a)"

definition WithLimiterFor :: "string \<Rightarrow> Limiter option \<Rightarrow> 'x Option" where
  "WithLimiterFor key l = configure (\<lambda>c.
     let r = (case c_limiterRegistry c of
                None \<Rightarrow> NewRateLimiterRegistry (c_limiterKeyFunc c) (rateLimiter_as_Limiter c)
              | Some r \<Rightarrow> r)
     in c\<lparr>c_limiterRegistry := Some (RegisterLimiter key l r)\<rparr>)"

definition WithLimiterKeyFunc :: "KeyFunc option \<Rightarrow> 'x Option" where
  "WithLimiterKeyFunc keyFunc = configure (\<lambda>c.
     let c = c\<lparr>c_limiterKeyFunc := keyFunc\<rparr>
     in if c_limiterRegistry c \<noteq> None
        then c\<lparr>c_limiterRegistry := Some (NewRateLimiterRegistry keyFunc (rateLimiter_as_Limiter c))\<rparr>
        else c)"

definition WithCache :: "int \<Rightarrow> 'x Option" where
  "WithCache ttl e = (\<lambda>(c, w).
     let a = w_fresh w;
         w = w\<lparr>w_fresh := a + 1, w_caches := (w_caches w)(a \<mapsto> InMemory NewInMemoryCache)\<rparr>
     in Some (c\<lparr>c_cache := Some a, c_cacheTTL := ttl\<rparr>, w))"

definition WithCustomCache :: "nat option \<Rightarrow> int \<Rightarrow> 'x Option" where
  "WithCustomCache store ttl = configure (\<lambda>c. c\<lparr>c_cache := store, c_cacheTTL := ttl\<rparr>)"

definition WithCacheKeyFunc :: "(request \<Rightarrow> string) option \<Rightarrow> 'x Option" where
  "WithCacheKeyFunc fn = configure (\<lambda>c. c\<lparr>c_cacheKeyFunc := fn\<rparr>)"

definition WithCacheCondition :: "(request \<Rightarrow> bool) option \<Rightarrow> 'x Option" where
  "WithCacheCondition fn = configure (\<lambda>c. c\<lparr>c_cacheCondition := fn\<rparr>)"

definition WithCacheProvider :: "cache_provider option \<Rightarrow> 'x Option" where
  "WithCacheProvider provider = configure (\<lambda>c. c\<lparr>c_cacheProvider := provider\<rparr>)"

definition WithCacheMode :: "int \<Rightarrow> 'x Option" where
  "WithCacheMode mode = configure (\<lambda>c. c\<lparr>c_cacheMode := mode\<rparr>)"

definition WithTimeout :: "int \<Rightarrow> 'x Option" where
  "WithTimeout d = configure (\<lambda>c.
     let c = c\<lparr>c_timeout := d\<rparr>
     in case c_httpClient c of
          None \<Rightarrow> c
        | Some h \<Rightarrow> c\<lparr>c_httpClient := Some (h\<lparr>hc_Timeout := d\<rparr>)\<rparr>)"

definition WithRetryCondition :: "(response option \<Rightarrow> go_error option \<Rightarrow> bool option) option \<Rightarrow> 'x Option" where
  "WithRetryCondition fn = configure (\<lambda>c. c\<lparr>c_retryCondition := fn\<rparr>)"

definition WithRetryPolicy :: "retry_policy option \<Rightarrow> 'x Option" where
  "WithRetryPolicy policy = configure (\<lambda>c. c\<lparr>c_retryPolicy := policy\<rparr>)"

definition WithRetryBudget :: "int \<Rightarrow> int \<Rightarrow> 'x Option" where
  "WithRetryBudget maxRetries perWindow e = (\<lambda>(c, w).
     let (now, w) = clock e w
     in Some (c\<lparr>c_retryBudget := Some (NewRetryBudget (i64 now) maxRetries perWindow)\<rparr>, w))"

definition WithCircuitBreaker :: "CircuitBreakerConfig \<Rightarrow> 'x Option" where
  "WithCircuitBreaker config = configure (\<lambda>c. c\<lparr>c_circuitBreaker := NewCircuitBreaker config\<rparr>)"

definition WithMiddleware :: "'x Middleware option list \<Rightarrow> 'x Option" where
  "WithMiddleware ms = configure (\<lambda>c. c\<lparr>c_middleware := c_middleware c @ ms\<rparr>)"

definition WithHTTPClient :: "'x http_client option \<Rightarrow> 'x Option" where
  "WithHTTPClient client e = (\<lambda>(c, w).
     if c_timeout c \<noteq> 0 then
       (case client of
          None \<Rightarrow> None
        | Some h \<Rightarrow> Some (c\<lparr>c_httpClient := Some (h\<lparr>hc_Timeout := c_timeout c\<rparr>)\<rparr>, w))
     else Some (c\<lparr>c_httpClient := client\<rparr>, w))"

text \<open>The environment's registry is the default one of the library.\<close>

definition NewMetricsCollector :: "'x env \<Rightarrow> 'x \<Rightarrow> (MetricsCollector \<times> 'x) option" where
  "NewMetricsCollector e = NewMetricsCollectorWithRegistry (e_register e) (e_is_registry e)"

definition WithMetrics :: "'x Option" where
  "WithMetrics e = (\<lambda>(c, w).
     case NewMetricsCollector e (w_out w) of
       None \<Rightarrow> None
     | Some (mc, x) \<Rightarrow> Some (c\<lparr>c_metrics := Some mc\<rparr>, w\<lparr>w_out := x\<rparr>))"

definition WithMetricsCollector :: "MetricsCollector option \<Rightarrow> 'x Option" where
  "WithMetricsCollector collector = configure (\<lambda>c. c\<lparr>c_metrics := collector\<rparr>)"

text \<open>The debug configuration an option switches on: the client's, or the default one.\<close>

definition debug_or_default :: "'x env \<Rightarrow> 'x Client \<Rightarrow> 'x DebugConfig" where
  "debug_or_default e c = (case c_debug c of None \<Rightarrow> DefaultDebugConfig e | Some d \<Rightarrow> d)"

definition WithDebug :: "'x Option" where
  "WithDebug e = configure (\<lambda>c. c\<lparr>c_debug := Some ((debug_or_default e c)\<lparr>dc_Enabled := True\<rparr>)\<rparr>) e"

definition WithDebugConfig :: "'x DebugConfig option \<Rightarrow> 'x Option" where
  "WithDebugConfig config = configure (\<lambda>c. c\<lparr>c_debug := config\<rparr>)"

definition WithLogger :: "logger option \<Rightarrow> 'x Option" where
  "WithLogger l = configure (\<lambda>c. c\<lparr>c_logger := l\<rparr>)"

definition WithSimpleLogger :: "'x Option" where
  "WithSimpleLogger e = configure (\<lambda>c.
     c\<lparr>c_debug := Some ((debug_or_default e c)\<lparr>dc_Enabled := True\<rparr>), c_logger := Some SimpleLogger\<rparr>) e"

definition WithRequestIDGenerator :: "('x \<Rightarrow> string \<times> 'x) option \<Rightarrow> 'x Option" where
  "WithRequestIDGenerator gen e = configure (\<lambda>c.
     c\<lparr>c_debug := Some ((debug_or_default e c)\<lparr>dc_RequestIDGen := gen\<rparr>)\<rparr>) e"

definition WithDeduplication :: "'x Option" where
  "WithDeduplication = configure (\<lambda>c. c\<lparr>c_deduplication := Some NewDeduplicationTracker\<rparr>)"

definition WithDeduplicationKeyFunc :: "(request \<Rightarrow> string option) option \<Rightarrow> 'x Option" where
  "WithDeduplicationKeyFunc fn = configure (\<lambda>c. c\<lparr>c_dedupKeyFunc := fn\<rparr>)"

definition WithDeduplicationCondition :: "(request \<Rightarrow> bool) option \<Rightarrow> 'x Option" where
  "WithDeduplicationCondition fn = configure (\<lambda>c. c\<lparr>c_dedupCondition := fn\<rparr>)"

definition WithSingleFlightEnabled :: "bool \<Rightarrow> 'x Option" where
  "WithSingleFlightEnabled enabled = configure (\<lambda>c. c\<lparr>c_singleFlightEnabled := enabled\<rparr>)"

subsection \<open>Validation\<close>

definition validateRetryConfig :: "'x Client \<Rightarrow> string list" where
  "validateRetryConfig c =
     (if c_maxRetries c < 0 then [''maxRetries must be non-negative''] else []) @
     (if c_initialBackoff c \<le> 0 then [''initialBackoff must be positive''] else []) @
     (if c_maxBackoff c < c_initialBackoff c
      then [''maxBackoff must be greater than or equal to initialBackoff''] else []) @
     (if c_backoffMultiplier c \<le> 0 then [''backoffMultiplier must be positive''] else []) @
     (if c_jitter c < 0 \<or> 1 < c_jitter c
      then [''jitter must be between 0 and 1 (will be clamped automatically)''] else []) @
     (if c_timeout c \<le> 0 then [''timeout must be positive''] else [])"

text \<open>The limiter behind the client's pointer.\<close>

definition the_rateLimiter :: "'x Client \<Rightarrow> 'x world \<Rightarrow> RateLimiter option" where
  "the_rateLimiter c w =
     (case c_rateLimiter c of
        None \<Rightarrow> None
      | Some a \<Rightarrow> (case w_limiters w a of Some (PlainLimiter rl) \<Rightarrow> Some rl | _ \<Rightarrow> None))"

definition validateRateLimiterConfig :: "'x Client \<Rightarrow> 'x world \<Rightarrow> string list" where
  "validateRateLimiterConfig c w =
     (case the_rateLimiter c w of
        None \<Rightarrow> []
      | Some rl \<Rightarrow>
          (if rl_maxTokens rl \<le> 0 then [''rateLimiter maxTokens must be positive''] else []) @
          (if rl_refillRate rl \<le> 0 then [''rateLimiter refillRate must be positive''] else [])) @
     (if c_limiterRegistry c \<noteq> None then
        (if c_limiterKeyFunc c = None
         then [''limiterKeyFunc must be set when limiterRegistry is enabled''] else [])
      else [])"

definition validateCacheConfig :: "'x Client \<Rightarrow> string list" where
  "validateCacheConfig c =
     (if c_cache c \<noteq> None \<and> c_cacheTTL c \<le> 0
      then [''cacheTTL must be positive when cache is enabled''] else [])"

definition validateCircuitBreakerConfig :: "'x Client \<Rightarrow> string list" where
  "validateCircuitBreakerConfig c =
     (let config = cb_config (c_circuitBreaker c)
      in (if FailureThreshold config \<le> 0 then [''circuitBreaker FailureThreshold must be positive''] else []) @
         (if RecoveryTimeout config \<le> 0 then [''circuitBreaker RecoveryTimeout must be positive''] else []) @
         (if SuccessThreshold config \<le> 0 then [''circuitBreaker SuccessThreshold must be positive''] else []))"

definition validateDebugConfig :: "'x Client \<Rightarrow> string list" where
  "validateDebugConfig c =
     (case c_debug c of
        None \<Rightarrow> []
      | Some d \<Rightarrow>
          if dc_Enabled d then
            (if dc_RequestIDGen d = None
             then [''debug RequestIDGen must be set when debug is enabled''] else []) @
            (if c_logger c = None then [''logger must be set when debug is enabled''] else [])
          else [])"

definition validateDeduplicationConfig :: "'x Client \<Rightarrow> string list" where
  "validateDeduplicationConfig c =
     (if c_deduplication c \<noteq> None then
        (if c_dedupKeyFunc c = None
         then [''deduplication key function must be set when deduplication is enabled''] else []) @
        (if c_dedupCondition c = None
         then [''deduplication condition must be set when deduplication is enabled''] else [])
      else [])"

definition validateMiddlewareConfig :: "'x Client \<Rightarrow> string list" where
  "validateMiddlewareConfig c =
     concat (map (\<lambda>(i, mw). if mw = None then [''middleware['' @ itoa i @ ''] cannot be nil''] else [])
       (zip [0..int (length (c_middleware c)) - 1] (c_middleware c)))"

definition validateHTTPClientConfig :: "'x Client \<Rightarrow> string list" where
  "validateHTTPClientConfig c = (if c_httpClient c = None then [''HTTP client cannot be nil''] else [])"

definition validateOptionCombinations :: "'x Client \<Rightarrow> string list" where
  "validateOptionCombinations c = []"

definition validateExtremeValues :: "'x Client \<Rightarrow> 'x world \<Rightarrow> string list" where
  "validateExtremeValues c w =
     (if c_maxRetries c > 100 then [''maxRetries > 100 may cause excessive resource usage''] else []) @
     (if c_initialBackoff c > 10 * Minute then [''initialBackoff > 10m may cause very long delays''] else []) @
     (if c_maxBackoff c > 1 * Hour then [''maxBackoff > 1h may cause extremely long delays''] else []) @
     (if c_timeout c > 10 * Minute then [''timeout > 10m may cause requests to hang for too long''] else []) @
     (case the_rateLimiter c w of
        None \<Rightarrow> []
      | Some rl \<Rightarrow>
          (if rl_maxTokens rl > 1000000 then [''rateLimiter maxTokens > 1M may cause memory issues''] else []) @
          (if rl_refillRate rl < Millisecond
           then [''rateLimiter refillRate < 1ms may cause excessive CPU usage''] else [])) @
     (if c_cache c \<noteq> None \<and> c_cacheTTL c > 24 * Hour
      then [''cacheTTL > 24h may cause stale data issues''] else [])"

definition validateRetryPolicyConfig :: "'x Client \<Rightarrow> string list" where
  "validateRetryPolicyConfig c = []"

definition validateRetryBudgetConfig :: "'x Client \<Rightarrow> string list" where
  "validateRetryBudgetConfig c =
     (case c_retryBudget c of
        None \<Rightarrow> []
      | Some rb \<Rightarrow>
          (if rb_maxRetries rb \<le> 0 then [''retryBudget maxRetries must be positive''] else []) @
          (if rb_perWindow rb \<le> 0 then [''retryBudget perWindow must be positive''] else []) @
          (if rb_maxRetries rb > 1000
           then [''retryBudget maxRetries > 1000 may cause excessive resource usage''] else []) @
          (if rb_perWindow rb < Second
           then [''retryBudget perWindow < 1s may cause excessive retry limiting''] else []))"

definition validateBackoffStrategyConfig :: "'x Client \<Rightarrow> string list" where
  "validateBackoffStrategyConfig c =
     (if c_backoffStrategy c = ExponentialJitter \<or> c_backoffStrategy c = DecorrelatedJitter then []
      else [''invalid backoffStrategy: '' @ itoa (c_backoffStrategy c)])"

definition validation_messages :: "'x Client \<Rightarrow> 'x world \<Rightarrow> string list" where
  "validation_messages c w =
     validateRetryConfig c @ validateRetryPolicyConfig c @ validateRetryBudgetConfig c @
     validateBackoffStrategyConfig c @ validateRateLimiterConfig c w @ validateCacheConfig c @
     validateCircuitBreakerConfig c @ validateDebugConfig c @ validateDeduplicationConfig c @
     validateMiddlewareConfig c @ validateHTTPClientConfig c @ validateOptionCombinations c @
     validateExtremeValues c w"

text \<open>The texts as \<open>%v\<close> prints a slice; the cause is the value of an \<open>Errorf\<close> without \<open>%w\<close>.\<close>

fun joined :: "string list \<Rightarrow> string" where
  "joined [] = []" | "joined [x] = x" | "joined (x # xs) = x @ '' '' @ joined xs"

definition ValidateConfiguration :: "'x Client \<Rightarrow> 'x world \<Rightarrow> go_error option" where
  "ValidateConfiguration c w =
     (let errors = validation_messages c w
      in if length errors > 0
         then Some (ClientError ErrorTypeValidation ''configuration validation failed''
                (Some (ErrorString 5 (''configuration validation failed: ['' @ joined errors @ '']'')))
                [] [] [] 0 0 zero_time 0 0 [])
         else None)"

definition MustValidateConfiguration :: "'x Client \<Rightarrow> 'x world \<Rightarrow> go_error option" where
  "MustValidateConfiguration c w = ValidateConfiguration c w"

text \<open>\<open>None\<close>: it panics.\<close>

definition ValidateConfigurationStrict :: "'x Client \<Rightarrow> 'x world \<Rightarrow> unit option" where
  "ValidateConfigurationStrict c w = (if ValidateConfiguration c w \<noteq> None then None else Some ())"

definition IsValid :: "'x Client \<Rightarrow> bool" where
  "IsValid c \<longleftrightarrow> c_validationError c = None"

definition ValidationError :: "'x Client \<Rightarrow> go_error option" where
  "ValidationError c = c_validationError c"

subsection \<open>Construction\<close>

definition updateBackoffCalculator :: "'x Client \<Rightarrow> 'x Client" where
  "updateBackoffCalculator c =
     (if c_backoffStrategy c = ExponentialJitter
      then c\<lparr>c_backoffCalculator := Some GetExponentialJitterCalculator\<rparr>
      else if c_backoffStrategy c = DecorrelatedJitter
      then c\<lparr>c_backoffCalculator := Some GetDecorrelatedJitterCalculator\<rparr>
      else c\<lparr>c_backoffCalculator := Some GetExponentialJitterCalculator\<rparr>)"

fun DefaultRetryCondition :: "response option \<Rightarrow> go_error option \<Rightarrow> bool option" where
  "DefaultRetryCondition resp (Some err) = Some True"
| "DefaultRetryCondition (Some resp) None = Some (rs_StatusCode resp \<ge> 500)"
| "DefaultRetryCondition None None = None"

definition default_client :: "'x env \<Rightarrow> 'x Client" where
  "default_client e =
     \<lparr>c_httpClient = Some \<lparr>hc_Timeout = 30 * Second, hc_do = e_do e\<rparr>,
      c_maxRetries = 3, c_initialBackoff = 100 * Millisecond, c_maxBackoff = 10 * Second,
      c_backoffMultiplier = Fin 2, c_jitter = flt (1 / 10), c_backoffStrategy = ExponentialJitter,
      c_backoffCalculator = Some GetExponentialJitterCalculator, c_timeout = 30 * Second,
      c_retryCondition = Some DefaultRetryCondition, c_retryPolicy = None, c_retryBudget = None,
      c_circuitBreaker = NewCircuitBreaker \<lparr>FailureThreshold = 0, RecoveryTimeout = 0, SuccessThreshold = 0\<rparr>,
      c_middleware = [], c_rateLimiter = None, c_limiterRegistry = None, c_limiterKeyFunc = None,
      c_cache = None, c_cacheTTL = 5 * Minute, c_cacheKeyFunc = Some DefaultCacheKeyFunc,
      c_cacheCondition = Some DefaultCacheCondition, c_cacheProvider = None, c_cacheMode = TTLOnly,
      c_singleFlight = new_single_flight, c_singleFlightGroup = NewGroup, c_singleFlightEnabled = False,
      c_metrics = None, c_debug = Some (DefaultDebugConfig e), c_logger = None, c_deduplication = None,
      c_dedupKeyFunc = Some (DefaultDeduplicationKeyFunc (e_sha256 e)),
      c_dedupCondition = Some DefaultDeduplicationCondition, c_validationError = None\<rparr>"

fun apply_options :: "'x Option list \<Rightarrow> 'x env \<Rightarrow> 'x state \<Rightarrow> 'x state option" where
  "apply_options [] e s = Some s"
| "apply_options (opt # opts) e s = (case opt e s of None \<Rightarrow> None | Some s \<Rightarrow> apply_options opts e s)"

definition New :: "'x Option list \<Rightarrow> 'x env \<Rightarrow> 'x world \<Rightarrow> 'x state option" where
  "New options e w =
     (case apply_options options e (default_client e, w) of
        None \<Rightarrow> None
      | Some (c, w) \<Rightarrow>
          (let c = updateBackoffCalculator c
           in case ValidateConfiguration c w of
                None \<Rightarrow> Some (c, w)
              | Some err \<Rightarrow> Some (c\<lparr>c_validationError := Some err\<rparr>, w)))"

end
