(* ===== verification/ClientRetry.thy ===== *)
theory ClientRetry
  imports ClientConfig "HOL-Library.Monad_Syntax"
begin

text \<open>
  The retry loop (\<open>doWithRetry\<close>, \<open>executeMiddleware\<close> and the delays, \<open>client.go\<close>). \<open>try_once\<close> is one
  round of \<open>doWithRetry\<close> up to its recursive call; \<open>doWithRetry\<close> makes at most as many rounds as
  its fuel says and is \<open>Unfinished\<close> when that is used up. The clock is read once for every
  operation that may need it, and a random number is drawn for every delay.
\<close>

subsection \<open>Middleware\<close>

definition transport :: "'x Client \<Rightarrow> 'x round_trip" where
  "transport c = (case c_httpClient c of None \<Rightarrow> (\<lambda>req x. None) | Some h \<Rightarrow> hc_do h (hc_Timeout h))"

definition wrap :: "'x Middleware option \<Rightarrow> 'x round_trip \<Rightarrow> 'x round_trip" where
  "wrap mw nxt = (\<lambda>req x. case mw of None \<Rightarrow> None | Some m \<Rightarrow> m req nxt x)"

text \<open>\<open>RoundTripperFunc\<close>: a function as a round tripper.\<close>

definition RoundTrip :: "'x round_trip \<Rightarrow> 'x round_trip" where
  "RoundTrip f = (\<lambda>req. f req)"

lemma RoundTrip_is [simp]: "RoundTrip f = f"
  by (simp add: RoundTrip_def)

text \<open>The loop runs from the last middleware to the first.\<close>

definition executeMiddleware :: "'x Client \<Rightarrow> 'x round_trip" where
  "executeMiddleware c =
     (if length (c_middleware c) = 0 then transport c
      else RoundTrip (fold wrap (rev (c_middleware c)) (RoundTrip (transport c))))"

subsection \<open>Delays\<close>

definition c_calculateExponentialBackoff :: "(float64 \<Rightarrow> int) \<Rightarrow> float64 \<Rightarrow> 'x Client \<Rightarrow> int \<Rightarrow> int" where
  "c_calculateExponentialBackoff impl rand c attempt =
     (let attempt = (if attempt < 0 then 0 else attempt);
          attempt = (if attempt > 30 then 30 else attempt);
          backoff = f_to_int64 impl (f_of_int (c_initialBackoff c) * pow (c_backoffMultiplier c) attempt);
          backoff = (if backoff < 0 \<or> backoff > c_maxBackoff c then c_maxBackoff c else backoff);
          jitter = c_jitter c;
          jitter = (if jitter < 0 then 0 else jitter);
          jitter = (if 1 < jitter then 1 else jitter)
      in if 0 < jitter then
           (let jitterAmount = f_to_int64 impl (f_of_int backoff * jitter * rand)
            in if add64 backoff jitterAmount > c_maxBackoff c then c_maxBackoff c
               else add64 backoff jitterAmount)
         else backoff)"

definition c_calculateDecorrelatedBackoff :: "(float64 \<Rightarrow> int) \<Rightarrow> float64 \<Rightarrow> 'x Client \<Rightarrow> int \<Rightarrow> int" where
  "c_calculateDecorrelatedBackoff impl rand c attempt =
     (if attempt \<le> 0 then c_initialBackoff c
      else (let attempt = (if attempt > 10 then 10 else attempt);
                base = f_of_int (c_initialBackoff c);
                factor = pow (Fin 3) attempt;
                upper = base * factor;
                maxBackoffFloat = f_of_int (c_maxBackoff c);
                upper = (if maxBackoffFloat < upper \<or> upper < 0 then maxBackoffFloat else upper);
                upper = (if upper < base then base else upper);
                delay = base + rand * (upper - base);
                result = f_to_int64 impl delay
            in if result < 0 \<or> result > c_maxBackoff c then c_maxBackoff c else result))"

definition c_calculateBackoff :: "(float64 \<Rightarrow> int) \<Rightarrow> float64 \<Rightarrow> 'x Client \<Rightarrow> int \<Rightarrow> int" where
  "c_calculateBackoff impl rand c attempt =
     (case c_backoffCalculator c of
        None \<Rightarrow>
          if c_backoffStrategy c = ExponentialJitter then c_calculateExponentialBackoff impl rand c attempt
          else if c_backoffStrategy c = DecorrelatedJitter then c_calculateDecorrelatedBackoff impl rand c attempt
          else c_calculateExponentialBackoff impl rand c attempt
      | Some calc \<Rightarrow>
          Calculator_Calculate calc impl rand attempt (c_initialBackoff c) (c_maxBackoff c)
            (c_backoffMultiplier c) (c_jitter c))"

subsection \<open>Effects\<close>

definition on_prom :: "(prom_call list \<Rightarrow> prom_call list) \<Rightarrow> 'x world \<Rightarrow> 'x world" where
  "on_prom f w = w\<lparr>w_prom := f (w_prom w)\<rparr>"

text \<open>
  A call of the logger: the level, the message, and the arguments, which come as names and values;
  \<open>flag\<close> is the switch of the debug configuration it asks for.
\<close>

fun named :: "(string \<times> log_arg) list \<Rightarrow> log_arg list" where
  "named [] = []"
| "named ((key, v) # kvs) = StringArg key # v # named kvs"

definition log_line ::
  "('x DebugConfig \<Rightarrow> bool) \<Rightarrow> log_level \<Rightarrow> string \<Rightarrow> (string \<times> log_arg) list \<Rightarrow> 'x Client \<Rightarrow> 'x world \<Rightarrow> 'x world"
where
  "log_line flag level msg args c w =
     (case c_debug c of
        None \<Rightarrow> w
      | Some d \<Rightarrow> if dc_Enabled d \<and> flag d \<and> c_logger c \<noteq> None
                  then w\<lparr>w_log := w_log w @ [(level, msg, named args)]\<rparr> else w)"

text \<open>How the loop fails: no response, and an error that wraps the cause.\<close>

definition fail_with ::
  "'x env \<Rightarrow> string \<Rightarrow> string \<Rightarrow> go_error \<Rightarrow> string \<Rightarrow> request \<Rightarrow> int \<Rightarrow> int \<Rightarrow> 'x state \<Rightarrow> (go_result \<times> 'x state) option" where
  "fail_with e typ msg cause requestID req attempt startTime = (\<lambda>(c, w).
     let (since, w) = clock e w; (now, w) = clock e w
     in map_option (\<lambda>err. ((None, Some err), c, w))
          (createClientError (c_maxRetries c) now typ msg (Some cause) requestID req attempt
            (time_sub since startTime)))"

subsection \<open>One round\<close>

text \<open>The limiter part: whether the call is allowed and the key it is booked on.\<close>

definition ask_limiter :: "'x env \<Rightarrow> request \<Rightarrow> 'x state \<Rightarrow> ((bool \<times> string) \<times> 'x state) option" where
  "ask_limiter e req = (\<lambda>(c, w).
     let (now, w) = clock e w
     in case c_limiterRegistry c of
          Some r \<Rightarrow>
            map_option (\<lambda>(ans, s). (ans, c, w\<lparr>w_limiters := s\<rparr>)) (reg_Allow (i64 now) r req (w_limiters w))
        | None \<Rightarrow>
            (case c_rateLimiter c of
               Some a \<Rightarrow>
                 map_option (\<lambda>(ok, s). ((ok, ''default''), c, w\<lparr>w_limiters := s\<rparr>))
                   (Limiter_Allow (i64 now) (LimiterAt a) (w_limiters w))
             | None \<Rightarrow> Some ((True, ''none''), c, w)))"

text \<open>The token gauges: those of the registry's plain limiters, then that of the client's own.\<close>

fun registry_tokens ::
  "MetricsCollector option \<Rightarrow> RateLimiterRegistry \<Rightarrow> string list \<Rightarrow> 'x world \<Rightarrow> 'x world option" where
  "registry_tokens mc r [] w = Some w"
| "registry_tokens mc r (key # keys) w =
     (case reg_limiters r key of
        Some (Some NilLimiter) \<Rightarrow> None
      | Some (Some (LimiterAt a)) \<Rightarrow>
          (case w_limiters w a of
             Some (PlainLimiter rl) \<Rightarrow>
               registry_tokens mc r keys (on_prom (RecordRateLimiterTokens mc key (rl_tokens rl)) w)
           | _ \<Rightarrow> registry_tokens mc r keys w)
      | _ \<Rightarrow> registry_tokens mc r keys w)"

definition own_tokens :: "'x Client \<Rightarrow> 'x world \<Rightarrow> 'x world" where
  "own_tokens c w =
     (case the_rateLimiter c w of
        None \<Rightarrow> w
      | Some rl \<Rightarrow> on_prom (RecordRateLimiterTokens (c_metrics c) ''default'' (rl_tokens rl)) w)"

definition record_tokens :: "'x env \<Rightarrow> 'x state \<Rightarrow> 'x state option" where
  "record_tokens e = (\<lambda>(c, w).
     case c_limiterRegistry c of
       Some r \<Rightarrow>
         if c_metrics c \<noteq> None then
           map_option (\<lambda>w. (c, own_tokens c w))
             (registry_tokens (c_metrics c) r (e_order e (reg_limiters r) (w_out w)) w)
         else Some (c, w)
     | None \<Rightarrow>
         if c_rateLimiter c \<noteq> None \<and> c_metrics c \<noteq> None then Some (c, own_tokens c w) else Some (c, w))"

definition ask_breaker :: "'x env \<Rightarrow> 'x state \<Rightarrow> bool \<times> 'x state" where
  "ask_breaker e = (\<lambda>(c, w).
     let (now, w) = clock e w; (ok, cb) = cb_Allow (i64 now) (c_circuitBreaker c)
     in (ok, c\<lparr>c_circuitBreaker := cb\<rparr>, w))"

text \<open>What the outcome means to the breaker and the error counters; \<open>endpoint\<close> is that of the request before it was sent.\<close>

definition failed :: "go_result \<Rightarrow> bool" where
  "failed res \<longleftrightarrow> snd res \<noteq> None \<or> (case fst res of None \<Rightarrow> False | Some r \<Rightarrow> rs_StatusCode r \<ge> 500)"

definition outcome_arg :: "go_result \<Rightarrow> string \<times> log_arg" where
  "outcome_arg res =
     (case snd res of
        Some err \<Rightarrow> (''error'', StringArg (Error err))
      | None \<Rightarrow> (''statusCode'', IntArg (case fst res of None \<Rightarrow> 0 | Some r \<Rightarrow> rs_StatusCode r)))"

definition record_outcome :: "'x env \<Rightarrow> request \<Rightarrow> string \<Rightarrow> string \<Rightarrow> go_result \<Rightarrow> 'x state \<Rightarrow> 'x state" where
  "record_outcome e req endpoint requestID res = (\<lambda>(c, w).
     let m = c_metrics c
     in if failed res then
          (let (now, w) = clock e w;
               cb = cb_RecordFailure (i64 now) (c_circuitBreaker c);
               w = on_prom (RecordCircuitBreakerState m ''default'' (cb_state cb)) w;
               w = log_line dc_LogCircuit Warn ''Circuit breaker failure recorded''
                     [(''requestID'', StringArg requestID), outcome_arg res] c w;
               w = on_prom (RecordError m (if snd res \<noteq> None then ''Network'' else ''Server'') (rq_Method req) endpoint) w
           in (c\<lparr>c_circuitBreaker := cb\<rparr>, w))
        else
          (let cb = cb_RecordSuccess (c_circuitBreaker c);
               w = on_prom (RecordCircuitBreakerState m ''default'' (cb_state cb)) w
           in (c\<lparr>c_circuitBreaker := cb\<rparr>, w)))"

text \<open>Whether to retry and after which delay.\<close>

definition decide_retry :: "'x env \<Rightarrow> go_result \<Rightarrow> int \<Rightarrow> 'x state \<Rightarrow> ((int \<times> bool) \<times> 'x state) option" where
  "decide_retry e res attempt = (\<lambda>(c, w).
     let (now, w) = clock e w; (rand, x) = e_rand e (w_out w); w = w\<lparr>w_out := x\<rparr>
     in map_option (\<lambda>d. (d, c, w))
          (case c_retryPolicy c of
             Some (DefaultPolicy p) \<Rightarrow>
               ShouldRetry (e_parse_time e) (e_impl e) now rand p (fst res) (snd res) attempt
           | Some (OtherPolicy f) \<Rightarrow> Some (f (fst res) (snd res) attempt)
           | None \<Rightarrow>
               if attempt < c_maxRetries c then
                 (case c_retryCondition c of
                    None \<Rightarrow> None
                  | Some cond \<Rightarrow>
                      map_option (\<lambda>again. if again then (c_calculateBackoff (e_impl e) rand c attempt, True)
                                          else (0, False))
                        (cond (fst res) (snd res)))
               else Some (0, False)))"

definition ask_budget :: "'x env \<Rightarrow> 'x state \<Rightarrow> bool \<times> 'x state" where
  "ask_budget e = (\<lambda>(c, w).
     case c_retryBudget c of
       None \<Rightarrow> (True, c, w)
     | Some rb \<Rightarrow> (let (now, w) = clock e w; (ok, rb) = rb_Allow (i64 now) rb
                   in (ok, c\<lparr>c_retryBudget := Some rb\<rparr>, w)))"

datatype verdict = Return go_result | Again

text \<open>The end of a round: the retry or what is returned.\<close>

definition conclude ::
  "'x env \<Rightarrow> request \<Rightarrow> string \<Rightarrow> int \<Rightarrow> string \<Rightarrow> int \<Rightarrow> go_result \<Rightarrow> 'x state \<Rightarrow> (verdict \<times> 'x state) option" where
  "conclude e req endpoint attempt requestID startTime res s =
     do {
        ((delay, shouldRetry), s) \<leftarrow> decide_retry e res attempt s;
        if shouldRetry then
          (case ask_budget e s of
             (False, c, w) \<Rightarrow>
               (let w = on_prom (RecordRetryBudgetExceeded (c_metrics c) endpoint) w;
                    w = log_line dc_LogRetries Warn ''Retry budget exceeded''
                          [(''requestID'', StringArg requestID), (''endpoint'', StringArg endpoint)] c w
                in map_option (apfst Return)
                     (fail_with e ErrorTypeRetryBudgetExceeded ''retry budget exceeded'' ErrRetryBudgetExceeded
                       requestID req attempt startTime (c, w)))
           | (True, c, w) \<Rightarrow>
               (let w = log_line dc_LogRetries Info ''Scheduling retry''
                          [(''requestID'', StringArg requestID), (''attempt'', IntArg (add64 attempt 1)),
                           (''backoff'', DurationArg delay), (''endpoint'', StringArg endpoint)] c w
                in Some (Again, c, w\<lparr>w_out := e_sleep e delay (w_out w)\<rparr>)))
        else
          (case snd res of
             Some err \<Rightarrow>
               map_option (apfst Return)
                 (fail_with e ErrorTypeNetwork ''network request failed'' err requestID req attempt startTime s)
           | None \<Rightarrow> Some (Return res, s))
      }"

definition try_once ::
  "'x env \<Rightarrow> request \<Rightarrow> int \<Rightarrow> string \<Rightarrow> int \<Rightarrow> 'x state \<Rightarrow> (verdict \<times> request \<times> 'x state) option" where
  "try_once e req attempt requestID startTime s =
     (let endpoint = getEndpointFromRequest req in do {
        ((allowed, limiterKey), s) \<leftarrow> ask_limiter e req s;
        if \<not> allowed then
          (case s of (c, w) \<Rightarrow>
             (let w = log_line dc_LogRateLimit Warn ''Rate limit exceeded''
                        [(''requestID'', StringArg requestID), (''endpoint'', StringArg endpoint),
                         (''limiterKey'', StringArg limiterKey)] c w;
                  w = on_prom (RecordError (c_metrics c) ''RateLimit'' (rq_Method req) endpoint) w;
                  w = on_prom (RecordRateLimiterExceeded (c_metrics c) limiterKey) w
              in map_option (\<lambda>(res, s). (Return res, req, s))
                   (fail_with e ErrorTypeRateLimit ''rate limit exceeded'' ErrRateLimited
                     requestID req attempt startTime (c, w))))
        else do {
          s \<leftarrow> record_tokens e s;
          (case ask_breaker e s of
             (False, c, w) \<Rightarrow>
               (let w = log_line dc_LogCircuit Warn ''Circuit breaker open''
                          [(''requestID'', StringArg requestID), (''endpoint'', StringArg endpoint),
                           (''state'', Int64Arg (cb_state (c_circuitBreaker c)))] c w;
                    w = on_prom (RecordError (c_metrics c) ''CircuitBreaker'' (rq_Method req) endpoint) w
                in map_option (\<lambda>(res, s). (Return res, req, s))
                     (fail_with e ErrorTypeCircuitOpen ''circuit breaker is open'' ErrCircuitOpen
                       requestID req attempt startTime (c, w)))
           | (True, c, w) \<Rightarrow>
               (let w = (if attempt > 0 then
                           on_prom (RecordRetry (c_metrics c) (rq_Method req) endpoint attempt)
                             (log_line dc_LogRetries Info ''Retry attempt''
                               [(''requestID'', StringArg requestID), (''attempt'', IntArg attempt),
                                (''maxRetries'', IntArg (c_maxRetries c)), (''endpoint'', StringArg endpoint)] c w)
                         else w)
                in do {
                  (res, req, x) \<leftarrow> executeMiddleware c req (w_out w);
                  let s = record_outcome e req endpoint requestID res (c, w\<lparr>w_out := x\<rparr>);
                  map_option (\<lambda>(v, s). (v, req, s)) (conclude e req endpoint attempt requestID startTime res s)
                }))
        }
      })"

subsection \<open>The loop\<close>

text \<open>\<open>Blocked\<close> is the answer of a caller that waits for another one; the loop itself never waits.\<close>

datatype answer = Answered go_result | Unfinished | Blocked

fun doWithRetry ::
  "'x env \<Rightarrow> nat \<Rightarrow> request \<Rightarrow> int \<Rightarrow> string \<Rightarrow> int \<Rightarrow> 'x state \<Rightarrow> (answer \<times> request \<times> 'x state) option" where
  "doWithRetry e 0 req attempt requestID startTime s = Some (Unfinished, req, s)"
| "doWithRetry e (Suc n) req attempt requestID startTime s = do {
     (v, req, s) \<leftarrow> try_once e req attempt requestID startTime s;
     (case v of
        Return res \<Rightarrow> Some (Answered res, req, s)
      | Again \<Rightarrow> doWithRetry e n req (add64 attempt 1) requestID startTime s)
   }"

subsection \<open>What a round leaves alone\<close>

text \<open>
  \<open>counted\<close> is any count of the outside world; a call of the clock, the random generator or the
  sleep leaves it as it is. Between two states framed by \<open>k\<close>, the client has changed in its breaker
  and its budget only, the caches not at all, no gauge of requests in flight has moved, and the
  count has grown by at most \<open>k\<close>.
\<close>

definition quiet :: "'x env \<Rightarrow> ('x \<Rightarrow> nat) \<Rightarrow> bool" where
  "quiet e counted \<longleftrightarrow> (\<forall>x. counted (snd (e_now e x)) = counted x \<and> counted (snd (e_rand e x)) = counted x
     \<and> (\<forall>d. counted (e_sleep e d x) = counted x))"

definition known_metrics :: "'x Client \<Rightarrow> bool" where
  "known_metrics c \<longleftrightarrow> c_metrics c = None \<or> c_metrics c = Some klayengo_vectors"

definition frame :: "('x \<Rightarrow> nat) \<Rightarrow> nat \<Rightarrow> 'x state \<Rightarrow> 'x state \<Rightarrow> bool" where
  "frame counted k s s' \<longleftrightarrow>
     (\<exists>cb rb. fst s' = (fst s)\<lparr>c_circuitBreaker := cb, c_retryBudget := rb\<rparr>) \<and>
     w_caches (snd s') = w_caches (snd s) \<and> w_fresh (snd s') = w_fresh (snd s) \<and>
     (known_metrics (fst s) \<longrightarrow> (\<forall>m p. in_flight m p (w_prom (snd s')) = in_flight m p (w_prom (snd s)))) \<and>
     counted (w_out (snd s')) \<le> counted (w_out (snd s)) + k"

lemma frame_client: "frame counted k s s' \<Longrightarrow> \<exists>cb rb. fst s' = (fst s)\<lparr>c_circuitBreaker := cb, c_retryBudget := rb\<rparr>"
  by (simp add: frame_def)

lemma frame_same:
  assumes "frame counted k (c, w) (c', w')"
  shows "c_maxRetries c' = c_maxRetries c" "c_retryPolicy c' = c_retryPolicy c"
    "c_middleware c' = c_middleware c" "c_httpClient c' = c_httpClient c" "c_metrics c' = c_metrics c"
    "known_metrics c' = known_metrics c"
  using frame_client [OF assms] by (auto simp: known_metrics_def)

lemma frame_refl [simp, intro]: "frame counted k s s"
proof -
  have "fst s = (fst s)\<lparr>c_circuitBreaker := c_circuitBreaker (fst s), c_retryBudget := c_retryBudget (fst s)\<rparr>"
    by simp
  then show ?thesis unfolding frame_def by (intro conjI) (blast, simp_all)
qed

lemma frame_trans:
  assumes "frame counted k s s'" and "frame counted l s' s''"
  shows "frame counted (k + l) s s''"
proof -
  obtain cb rb cb' rb' where c: "fst s' = (fst s)\<lparr>c_circuitBreaker := cb, c_retryBudget := rb\<rparr>"
    "fst s'' = (fst s')\<lparr>c_circuitBreaker := cb', c_retryBudget := rb'\<rparr>"
    using assms frame_client by metis
  then have "fst s'' = (fst s)\<lparr>c_circuitBreaker := cb', c_retryBudget := rb'\<rparr>" by simp
  moreover have "known_metrics (fst s') = known_metrics (fst s)" by (simp add: c known_metrics_def)
  ultimately show ?thesis using assms unfolding frame_def by auto
qed

lemma frame_weaken: "frame counted k s s' \<Longrightarrow> k \<le> l \<Longrightarrow> frame counted l s s'"
  by (auto simp: frame_def)

text \<open>Changes of the world one at a time.\<close>

lemma frame_world:
  assumes "w_caches w' = w_caches w" and "w_fresh w' = w_fresh w"
    and "known_metrics c \<Longrightarrow> (\<And>m p. in_flight m p (w_prom w') = in_flight m p (w_prom w))"
    and "counted (w_out w') \<le> counted (w_out w) + k"
  shows "frame counted k (c, w) (c\<lparr>c_circuitBreaker := cb, c_retryBudget := rb\<rparr>, w')"
  using assms by (auto simp: frame_def)

lemma frame_world_only:
  assumes "w_caches w' = w_caches w" and "w_fresh w' = w_fresh w"
    and "known_metrics c \<Longrightarrow> (\<And>m p. in_flight m p (w_prom w') = in_flight m p (w_prom w))"
    and "counted (w_out w') \<le> counted (w_out w) + k"
  shows "frame counted k (c, w) (c, w')"
proof -
  have "frame counted k (c, w) (c\<lparr>c_circuitBreaker := c_circuitBreaker c, c_retryBudget := c_retryBudget c\<rparr>, w')"
    by (rule frame_world) (use assms in auto)
  then show ?thesis by simp
qed

lemma frame_world_breaker:
  assumes "w_caches w' = w_caches w" and "w_fresh w' = w_fresh w"
    and "known_metrics c \<Longrightarrow> (\<And>m p. in_flight m p (w_prom w') = in_flight m p (w_prom w))"
    and "counted (w_out w') \<le> counted (w_out w) + k"
  shows "frame counted k (c, w) (c\<lparr>c_circuitBreaker := cb\<rparr>, w')"
proof -
  have "frame counted k (c, w) (c\<lparr>c_circuitBreaker := cb, c_retryBudget := c_retryBudget c\<rparr>, w')"
    by (rule frame_world) (use assms in auto)
  then show ?thesis by simp
qed

lemma clock_frame: "quiet e counted \<Longrightarrow> clock e w = (t, w') \<Longrightarrow> frame counted 0 (c, w) (c, w')"
  by (auto simp: clock_def Let_def quiet_def split: prod.splits intro!: frame_world_only)
    (metis order_refl snd_conv)

lemma log_line_frame [intro]: "frame counted 0 (c, w) (c, log_line flag level msg rid c' w)"
  by (rule frame_world_only) (auto simp: log_line_def split: option.splits)

definition harmless :: "(prom_call list \<Rightarrow> prom_call list) \<Rightarrow> 'x Client \<Rightarrow> bool" where
  "harmless f c \<longleftrightarrow> (known_metrics c \<longrightarrow> (\<forall>m p calls. in_flight m p (f calls) = in_flight m p calls))"

lemma on_prom_frame: "harmless f c \<Longrightarrow> frame counted 0 (c, w) (c, on_prom f w)"
  by (rule frame_world_only) (auto simp: on_prom_def harmless_def)

lemma harmless_records [simp, intro]:
  "harmless (RecordError (c_metrics c) t m p) c"
  "harmless (RecordRateLimiterExceeded (c_metrics c) k) c"
  "harmless (RecordRateLimiterTokens (c_metrics c) k n) c"
  "harmless (RecordCircuitBreakerState (c_metrics c) k st) c"
  "harmless (RecordRetry (c_metrics c) m p a) c"
  "harmless (RecordRetryBudgetExceeded (c_metrics c) p) c"
  "harmless (RecordRequest (c_metrics c) m p sc d) c"
  "harmless (RecordCacheHit (c_metrics c) m p) c"
  "harmless (RecordCacheMiss (c_metrics c) m p) c"
  "harmless (RecordCacheSize (c_metrics c) k n) c"
  "harmless (RecordDeduplicationHit (c_metrics c) m p) c"
  by (auto simp: harmless_def known_metrics_def record_defs klayengo_vectors_def Let_def in_flight_def)

text \<open>The parts of a round.\<close>

lemma clock_out: "quiet e counted \<Longrightarrow> clock e w = (t, w') \<Longrightarrow>
    w_caches w' = w_caches w \<and> w_fresh w' = w_fresh w \<and> w_prom w' = w_prom w \<and> counted (w_out w') = counted (w_out w)"
  by (auto simp: clock_def quiet_def split: prod.splits) (metis snd_conv)

lemma ask_limiter_frame:
  assumes "quiet e counted" and "ask_limiter e req s = Some (r, s')"
  shows "frame counted 0 s s'"
proof (cases s)
  case (Pair c w)
  obtain t w1 where "clock e w = (t, w1)" by (cases "clock e w")
  with assms(2) obtain l where "s' = (c, w1) \<or> s' = (c, w1\<lparr>w_limiters := l\<rparr>)"
    by (auto simp: ask_limiter_def Pair split: option.splits)
  with clock_out [OF assms(1) \<open>clock e w = (t, w1)\<close>] show ?thesis
    by (auto simp: Pair intro!: frame_world_only)
qed

lemma registry_tokens_frame:
  "registry_tokens (c_metrics c) r keys w = Some w' \<Longrightarrow> frame counted 0 (c, w) (c, w')"
proof (induction keys arbitrary: w)
  case Nil
  then show ?case by simp
next
  case (Cons key keys)
  show ?case
  proof (cases "registry_tokens (c_metrics c) r keys w = Some w'")
    case True
    then show ?thesis by (rule Cons.IH)
  next
    case False
    with Cons.prems obtain rl :: RateLimiter where
      "registry_tokens (c_metrics c) r keys (on_prom (RecordRateLimiterTokens (c_metrics c) key (rl_tokens rl)) w) = Some w'"
      by (auto split: option.splits Limiter.splits limiter_object.splits)
    from frame_trans [OF on_prom_frame Cons.IH [OF this]] show ?thesis by simp
  qed
qed

lemma own_tokens_frame: "frame counted 0 (c, w) (c, own_tokens c w)"
  by (auto simp: own_tokens_def intro: on_prom_frame split: option.splits)

lemma record_tokens_frame:
  assumes "record_tokens e s = Some s'"
  shows "frame counted 0 s s'"
proof (cases s)
  case (Pair c w)
  show ?thesis
  proof (cases "\<exists>r. c_limiterRegistry c = Some r \<and> c_metrics c \<noteq> None")
    case True
    with assms obtain r w1 where "registry_tokens (c_metrics c) r (e_order e (reg_limiters r) (w_out w)) w = Some w1"
      and "s' = (c, own_tokens c w1)"
      by (auto simp: record_tokens_def Pair)
    with frame_trans [OF registry_tokens_frame own_tokens_frame] show ?thesis by (force simp: Pair)
  next
    case False
    then have "s' = (c, w) \<or> s' = (c, own_tokens c w)"
      using assms by (auto simp: record_tokens_def Pair split: option.splits if_splits)
    then show ?thesis by (auto simp: Pair own_tokens_frame)
  qed
qed

lemma ask_breaker_frame:
  assumes "quiet e counted" and "ask_breaker e s = (ok, s')"
  shows "frame counted 0 s s'"
proof (cases s)
  case (Pair c w)
  obtain t w1 where "clock e w = (t, w1)" by (cases "clock e w")
  with assms(2) obtain cb where "s' = (c\<lparr>c_circuitBreaker := cb\<rparr>, w1)"
    by (auto simp: ask_breaker_def Pair split: prod.splits)
  with clock_out [OF assms(1) \<open>clock e w = (t, w1)\<close>] show ?thesis
    by (simp add: Pair frame_world_breaker)
qed

lemma frame_breaker: "frame counted 0 (c, w) (c\<lparr>c_circuitBreaker := cb\<rparr>, w)"
  by (rule frame_world_breaker) simp_all

lemma record_outcome_frame:
  assumes "quiet e counted"
  shows "frame counted 0 s (record_outcome e req ep rid res s)"
proof (cases s)
  case (Pair c w)
  note steps = frame_trans [OF clock_frame [OF assms] frame_trans [OF on_prom_frame frame_trans [OF log_line_frame
    frame_trans [OF on_prom_frame frame_breaker]]]]
  show ?thesis
  proof (cases "failed res")
    case True
    obtain t w1 where "clock e w = (t, w1)" by (cases "clock e w")
    from steps [OF this harmless_records(4) harmless_records(1)] True show ?thesis
      by (simp add: Pair record_outcome_def \<open>clock e w = (t, w1)\<close> Let_def)
  next
    case False
    with frame_trans [OF on_prom_frame [OF harmless_records(4)] frame_breaker] show ?thesis
      by (simp add: Pair record_outcome_def Let_def)
  qed
qed

lemma decide_retry_frame:
  assumes "quiet e counted" and "decide_retry e res attempt s = Some (d, s')"
  shows "frame counted 0 s s'"
proof (cases s)
  case (Pair c w)
  obtain t w1 where w1: "clock e w = (t, w1)" by (cases "clock e w")
  with assms(2) have "s' = (c, w1\<lparr>w_out := snd (e_rand e (w_out w1))\<rparr>)"
    by (auto simp: decide_retry_def Pair Let_def split: prod.splits)
  moreover have "counted (snd (e_rand e (w_out w1))) = counted (w_out w1)"
    using assms(1) by (simp add: quiet_def)
  ultimately show ?thesis
    using clock_out [OF assms(1) w1] by (auto simp: Pair intro!: frame_world_only)
qed

lemma ask_budget_frame:
  assumes "quiet e counted" and "ask_budget e s = (ok, s')"
  shows "frame counted 0 s s'"
proof (cases s)
  case (Pair c w)
  obtain t w1 where w1: "clock e w = (t, w1)" by (cases "clock e w")
  show ?thesis
  proof (cases "c_retryBudget c")
    case None
    with assms(2) show ?thesis by (simp add: Pair ask_budget_def)
  next
    case (Some rb)
    with assms(2) w1 obtain rb' where "s' = (c\<lparr>c_retryBudget := Some rb'\<rparr>, w1)"
      by (auto simp: ask_budget_def Pair split: prod.splits)
    with clock_out [OF assms(1) w1] frame_world [where w = w and w' = w1 and c = c and cb = "c_circuitBreaker c" and rb = "Some rb'"]
    show ?thesis by (simp add: Pair)
  qed
qed

lemma fail_with_frame:
  assumes "quiet e counted" and "fail_with e typ msg cause rid req attempt st s = Some (res, s')"
  shows "frame counted 0 s s'"
proof (cases s)
  case (Pair c w)
  obtain t w1 where w1: "clock e w = (t, w1)" by (cases "clock e w")
  obtain t' w2 where w2: "clock e w1 = (t', w2)" by (cases "clock e w1")
  from assms(2) w1 w2 have "s' = (c, w2)" by (auto simp: fail_with_def Pair)
  with frame_trans [OF clock_frame [OF assms(1) w1] clock_frame [OF assms(1) w2]] show ?thesis
    by (simp add: Pair)
qed

subsection \<open>A round as a whole\<close>

lemma record_outcome_client:
  "c_retryPolicy (fst (record_outcome e req ep rid res s)) = c_retryPolicy (fst s)"
  "c_maxRetries (fst (record_outcome e req ep rid res s)) = c_maxRetries (fst s)"
  by (cases s; simp add: record_outcome_def Let_def split: prod.split)+

text \<open>The number of retries that the policy, or the client's own condition, never goes beyond.\<close>

definition retry_limit :: "'x Client \<Rightarrow> int option" where
  "retry_limit c =
     (case c_retryPolicy c of
        None \<Rightarrow> Some (c_maxRetries c)
      | Some (DefaultPolicy p) \<Rightarrow> Some (drp_maxRetries p)
      | Some (OtherPolicy f) \<Rightarrow> None)"

lemma decide_retry_limit:
  assumes "decide_retry e res attempt s = Some ((delay, True), s')" and "retry_limit (fst s) = Some M"
  shows "attempt < M"
proof (cases s)
  case (Pair c w)
  with assms show ?thesis
    by (auto simp: decide_retry_def retry_limit_def ShouldRetry_def Let_def
        split: prod.splits option.splits retry_policy.splits if_splits)
qed

text \<open>The two ways a round can go.\<close>

lemma conclude_cases:
  assumes "quiet e counted" and "conclude e req ep attempt rid st res s = Some (v, s')"
  obtains (fail) ty msg cause s1 r where
    "frame counted 0 s s1" "fail_with e ty msg cause rid req attempt st s1 = Some (r, s')" "v = Return r"
    "ty = ErrorTypeRetryBudgetExceeded \<and> cause = ErrRetryBudgetExceeded \<or>
     ty = ErrorTypeNetwork \<and> snd res = Some cause"
  | (return_it) "frame counted 0 s s'" "v = Return res" "snd res = None"
  | (again) delay s1 where "frame counted 0 s s'" "v = Again" "decide_retry e res attempt s = Some ((delay, True), s1)"
proof -
  from assms(2) obtain delay again s1 where d: "decide_retry e res attempt s = Some ((delay, again), s1)"
    by (cases "decide_retry e res attempt s") (auto simp: conclude_def Let_def)
  note f1 = decide_retry_frame [OF assms(1) d]
  show ?thesis
  proof (cases again)
    case False
    then show ?thesis
    proof (cases "snd res")
      case None
      with assms(2) d False have "v = Return res" "s' = s1" by (auto simp: conclude_def Let_def)
      with f1 None show ?thesis by (auto intro: return_it)
    next
      case (Some err)
      with assms(2) d False obtain r where
        "fail_with e ErrorTypeNetwork ''network request failed'' err rid req attempt st s1 = Some (r, s')" "v = Return r"
        by (auto simp: conclude_def Let_def)
      with f1 Some show ?thesis by (auto intro: fail)
    qed
  next
    case True
    obtain ok c w where b: "ask_budget e s1 = (ok, c, w)" by (cases "ask_budget e s1") auto
    note f2 = frame_trans [OF f1 ask_budget_frame [OF assms(1) b]]
    show ?thesis
    proof (cases ok)
      case False
      let ?w = "log_line dc_LogRetries Warn ''Retry budget exceeded'' [(''requestID'', StringArg rid), (''endpoint'', StringArg ep)] c
        (on_prom (RecordRetryBudgetExceeded (c_metrics c) ep) w)"
      from assms(2) d True b False obtain r where
        "fail_with e ErrorTypeRetryBudgetExceeded ''retry budget exceeded'' ErrRetryBudgetExceeded rid req attempt st (c, ?w)
           = Some (r, s')" "v = Return r"
        by (auto simp: conclude_def Let_def)
      moreover have "frame counted 0 s (c, ?w)"
        using frame_trans [OF f2 frame_trans [OF on_prom_frame [OF harmless_records(6)] log_line_frame]] by simp
      ultimately show ?thesis by (auto intro: fail)
    next
      case yes: True
      let ?w = "log_line dc_LogRetries Info ''Scheduling retry''
        [(''requestID'', StringArg rid), (''attempt'', IntArg (add64 attempt 1)), (''backoff'', DurationArg delay),
         (''endpoint'', StringArg ep)] c w"
      from assms(2) d True b yes have v: "v = Again" "s' = (c, ?w\<lparr>w_out := e_sleep e delay (w_out ?w)\<rparr>)"
        by (auto simp: conclude_def Let_def)
      have "frame counted 0 (c, ?w) s'"
        using assms(1) by (auto simp: v quiet_def intro!: frame_world_only)
      from frame_trans [OF f2 frame_trans [OF log_line_frame this]] d True v(1) show ?thesis
        by (auto intro: again)
    qed
  qed
qed

lemma executeMiddleware_frame:
  "frame counted k s s' \<Longrightarrow> executeMiddleware (fst s') = executeMiddleware (fst s)"
  using frame_same [of counted k "fst s" "snd s" "fst s'" "snd s'"]
  by (simp add: executeMiddleware_def transport_def)

lemma try_once_cases:
  assumes "quiet e counted" and "try_once e req attempt rid st s = Some (v, req', s')"
  obtains (refused) ty msg cause s1 r where
    "frame counted 0 s s1" "fail_with e ty msg cause rid req attempt st s1 = Some (r, s')" "v = Return r" "req' = req"
    "ty = ErrorTypeRateLimit \<and> cause = ErrRateLimited \<or> ty = ErrorTypeCircuitOpen \<and> cause = ErrCircuitOpen"
  | (done_it) c1 w1 res x ep where
    "frame counted 0 s (c1, w1)" "executeMiddleware (fst s) req (w_out w1) = Some (res, req', x)"
    "conclude e req' ep attempt rid st res (record_outcome e req' ep rid res (c1, w1\<lparr>w_out := x\<rparr>)) = Some (v, s')"
proof -
  from assms(2) obtain allowed key c1 w1 where l: "ask_limiter e req s = Some ((allowed, key), c1, w1)"
    by (cases "ask_limiter e req s") (auto simp: try_once_def Let_def)
  note f1 = ask_limiter_frame [OF assms(1) l]
  show ?thesis
  proof (cases allowed)
    case False
    let ?w = "on_prom (RecordRateLimiterExceeded (c_metrics c1) key)
      (on_prom (RecordError (c_metrics c1) ''RateLimit'' (rq_Method req) (getEndpointFromRequest req))
        (log_line dc_LogRateLimit Warn ''Rate limit exceeded''
          [(''requestID'', StringArg rid), (''endpoint'', StringArg (getEndpointFromRequest req)),
           (''limiterKey'', StringArg key)] c1 w1))"
    from assms(2) l False obtain r where
      "fail_with e ErrorTypeRateLimit ''rate limit exceeded'' ErrRateLimited rid req attempt st (c1, ?w) = Some (r, s')"
      "v = Return r" "req' = req"
      by (auto simp: try_once_def Let_def)
    moreover have "frame counted 0 s (c1, ?w)"
      using frame_trans [OF f1 frame_trans [OF log_line_frame frame_trans [OF on_prom_frame [OF harmless_records(1)]
        on_prom_frame [OF harmless_records(2)]]]] by simp
    ultimately show ?thesis by (auto intro: refused)
  next
    case True
    from assms(2) l True obtain s2 where t: "record_tokens e (c1, w1) = Some s2"
      by (cases "record_tokens e (c1, w1)") (auto simp: try_once_def Let_def)
    obtain ok c w where b: "ask_breaker e s2 = (ok, c, w)" by (cases "ask_breaker e s2") auto
    have f2: "frame counted 0 s (c, w)"
      using frame_trans [OF f1 frame_trans [OF record_tokens_frame [OF t] ask_breaker_frame [OF assms(1) b]]] by simp
    show ?thesis
    proof (cases ok)
      case False
      let ?w = "on_prom (RecordError (c_metrics c) ''CircuitBreaker'' (rq_Method req) (getEndpointFromRequest req))
        (log_line dc_LogCircuit Warn ''Circuit breaker open''
          [(''requestID'', StringArg rid), (''endpoint'', StringArg (getEndpointFromRequest req)),
           (''state'', Int64Arg (cb_state (c_circuitBreaker c)))] c w)"
      from assms(2) l True t b False obtain r where
        "fail_with e ErrorTypeCircuitOpen ''circuit breaker is open'' ErrCircuitOpen rid req attempt st (c, ?w) = Some (r, s')"
        "v = Return r" "req' = req"
        by (auto simp: try_once_def Let_def)
      moreover have "frame counted 0 s (c, ?w)"
        using frame_trans [OF f2 frame_trans [OF log_line_frame on_prom_frame [OF harmless_records(1)]]] by simp
      ultimately show ?thesis by (auto intro: refused)
    next
      case yes: True
      let ?w = "if attempt > 0 then on_prom (RecordRetry (c_metrics c) (rq_Method req) (getEndpointFromRequest req) attempt)
        (log_line dc_LogRetries Info ''Retry attempt''
          [(''requestID'', StringArg rid), (''attempt'', IntArg attempt), (''maxRetries'', IntArg (c_maxRetries c)),
           (''endpoint'', StringArg (getEndpointFromRequest req))] c w) else w"
      have f3: "frame counted 0 s (c, ?w)"
        using f2 frame_trans [OF f2 frame_trans [OF log_line_frame on_prom_frame [OF harmless_records(5)]]] by simp
      from assms(2) l True t b yes obtain res x where
        "executeMiddleware c req (w_out ?w) = Some (res, req', x)"
        "conclude e req' (getEndpointFromRequest req) attempt rid st res
          (record_outcome e req' (getEndpointFromRequest req) rid res (c, ?w\<lparr>w_out := x\<rparr>)) = Some (v, s')"
        by (cases "executeMiddleware c req (w_out ?w)") (auto simp: try_once_def Let_def)
      with executeMiddleware_frame [OF f3] f3 show ?thesis by (auto intro: done_it)
    qed
  qed
qed

end
