(* ===== verification/Client.thy ===== *)
theory Client
  imports ClientRetry
begin

text \<open>
  The client itself (\<open>client.go\<close>): \<open>Do\<close> with its deduplication, cache lookup, single flight and
  bookkeeping around the retry loop, the revalidation of cached entries, and \<open>Get\<close> and \<open>Post\<close>.
  \<open>Do\<close> is run for one caller while nobody else moves; a wait for another caller is the answer
  \<open>Blocked\<close>. Timers that are due are fired between calls. \<open>n\<close> is the fuel of the retry loop.
\<close>

subsection \<open>Caches and providers behind pointers\<close>

definition with_cache ::
  "nat \<Rightarrow> (cache_object \<Rightarrow> ('a \<times> cache_object) option) \<Rightarrow> 'x world \<Rightarrow> ('a \<times> 'x world) option" where
  "with_cache a f w = do {
     obj \<leftarrow> w_caches w a;
     (r, obj) \<leftarrow> f obj;
     Some (r, w\<lparr>w_caches := (w_caches w)(a \<mapsto> obj)\<rparr>)
   }"

fun obj_Get :: "int \<Rightarrow> string \<Rightarrow> cache_object \<Rightarrow> CacheEntry option \<times> cache_object" where
  "obj_Get now key (InMemory c) = apsnd InMemory (imc_Get now key c)"
| "obj_Get now key (Optimized c) = apsnd Optimized (oc_Get (i64 now) key c)"

fun obj_Set :: "(float64 \<Rightarrow> int) \<Rightarrow> int \<Rightarrow> string \<Rightarrow> CacheEntry \<Rightarrow> int \<Rightarrow> cache_object \<Rightarrow> cache_object" where
  "obj_Set impl now key entry ttl (InMemory c) = InMemory (imc_Set now key entry ttl c)"
| "obj_Set impl now key entry ttl (Optimized c) = Optimized (oc_Set impl now key entry ttl c)"

fun obj_Delete :: "string \<Rightarrow> cache_object \<Rightarrow> cache_object" where
  "obj_Delete key (InMemory c) = InMemory (imc_Delete key c)"
| "obj_Delete key (Optimized c) = Optimized (oc_Delete key c)"

text \<open>The optimized cache hands out copies, so that marking one does not reach it.\<close>

fun obj_mark :: "string \<Rightarrow> cache_object \<Rightarrow> cache_object" where
  "obj_mark key (InMemory c) = InMemory (imc_mark key c)"
| "obj_mark key (Optimized c) = Optimized c"

fun provider_Get :: "'x env \<Rightarrow> cache_provider \<Rightarrow> string \<Rightarrow> 'x world \<Rightarrow> (response option \<times> 'x world) option" where
  "provider_Get e (DefaultCacheProvider a ttl) key w =
     (let (now, w) = clock e w in with_cache a (\<lambda>obj. Some (dcp_Get obj_Get now key obj)) w)"
| "provider_Get e (HTTPSemanticsCacheProvider a ttl mode) key w =
     (let (now1, w) = clock e w; (now2, w) = clock e w
      in with_cache a (\<lambda>obj. Some (hcp_Get obj_Get obj_Delete obj_mark mode now1 now2 key obj)) w)"
| "provider_Get e (OptimizedCacheProvider a ttl mode) key w =
     (let (now, w) = clock e w
      in with_cache a (\<lambda>obj. case obj of
             Optimized c \<Rightarrow> Some (apsnd Optimized (ocp_Get (i64 now) key c)) | InMemory _ \<Rightarrow> None) w)"

fun provider_Set ::
  "'x env \<Rightarrow> cache_provider \<Rightarrow> string \<Rightarrow> response \<Rightarrow> int \<Rightarrow> 'x world \<Rightarrow> (response \<times> 'x world) option" where
  "provider_Set e (DefaultCacheProvider a default_ttl) key resp ttl w =
     (let (now, w) = clock e w
      in with_cache a (\<lambda>obj. Some (dcp_Set (obj_Set (e_impl e)) default_ttl now key resp ttl obj)) w)"
| "provider_Set e (HTTPSemanticsCacheProvider a default_ttl mode) key resp ttl w =
     (let (now1, w) = clock e w; (now2, w) = clock e w; (now3, w) = clock e w; (now4, w) = clock e w
      in with_cache a (\<lambda>obj. Some (hcp_Set (e_formats e) (obj_Set (e_impl e)) default_ttl now1 now2 now3 now4
           key resp ttl obj)) w)"
| "provider_Set e (OptimizedCacheProvider a default_ttl mode) key resp ttl w =
     (let (now, w) = clock e w
      in with_cache a (\<lambda>obj. case obj of
             Optimized c \<Rightarrow> Some (resp, Optimized (ocp_Set (e_impl e) default_ttl now key resp ttl c))
           | InMemory _ \<Rightarrow> None) w)"

fun provider_Invalidate :: "cache_provider \<Rightarrow> string \<Rightarrow> 'x world \<Rightarrow> 'x world option" where
  "provider_Invalidate (DefaultCacheProvider a ttl) key w =
     map_option snd (with_cache a (\<lambda>obj. Some ((), dcp_Invalidate obj_Delete key obj)) w)"
| "provider_Invalidate (HTTPSemanticsCacheProvider a ttl mode) key w =
     map_option snd (with_cache a (\<lambda>obj. Some ((), hcp_Invalidate obj_Delete key obj)) w)"
| "provider_Invalidate (OptimizedCacheProvider a ttl mode) key w =
     map_option snd (with_cache a (\<lambda>obj. case obj of
         Optimized c \<Rightarrow> Some ((), Optimized (ocp_Invalidate key c)) | InMemory _ \<Rightarrow> None) w)"

subsection \<open>Single flight\<close>

type_synonym 'x call = "'x state \<Rightarrow> (answer \<times> request \<times> 'x state) option"

text \<open>
  \<open>singleFlightDo\<close> with the group if that is enabled, else with the client's own map. A function
  that does not return leaves its call registered.
\<close>

definition singleFlightDo :: "'x env \<Rightarrow> request \<Rightarrow> string \<Rightarrow> 'x call \<Rightarrow> 'x call" where
  "singleFlightDo e req key fn = (\<lambda>(c, w).
     if c_singleFlightEnabled c then
       (case grp_begin key (c_singleFlightGroup c) of
          ((a, False), g) \<Rightarrow>
            Some (case grp_wait a g of None \<Rightarrow> Blocked | Some r \<Rightarrow> Answered r, req, c\<lparr>c_singleFlightGroup := g\<rparr>, w)
        | ((a, True), g) \<Rightarrow> do {
            (ans, req, c, w) \<leftarrow> fn (c\<lparr>c_singleFlightGroup := g\<rparr>, w);
            (case ans of
               Answered r \<Rightarrow>
                 (let (now, w) = clock e w
                  in Some (ans, req, c\<lparr>c_singleFlightGroup := grp_finish now key a r (c_singleFlightGroup c)\<rparr>, w))
             | _ \<Rightarrow> Some (ans, req, c, w))
          })
     else
       (case sf_begin key (c_singleFlight c) of
          ((a, False), f) \<Rightarrow>
            Some (case sf_wait a f of None \<Rightarrow> Blocked | Some r \<Rightarrow> Answered r, req, c\<lparr>c_singleFlight := f\<rparr>, w)
        | ((a, True), f) \<Rightarrow> do {
            (ans, req, c, w) \<leftarrow> fn (c\<lparr>c_singleFlight := f\<rparr>, w);
            (case ans of
               Answered r \<Rightarrow>
                 (let (now, w) = clock e w
                  in Some (ans, req, c\<lparr>c_singleFlight := sf_finish now key a r (c_singleFlight c)\<rparr>, w))
             | _ \<Rightarrow> Some (ans, req, c, w))
          }))"

subsection \<open>Revalidation\<close>

text \<open>The clone shares the body of the request, so that this one has been read too.\<close>

definition performConditionalRequest :: "'x env \<Rightarrow> nat \<Rightarrow> request \<Rightarrow> CacheEntry \<Rightarrow> 'x call" where
  "performConditionalRequest e n req entry = (\<lambda>(c, w).
     let conditionalReq = addConditionalHeaders (e_formats e) req entry; (now, w) = clock e w
     in do {
          (ans, conditionalReq, s) \<leftarrow> doWithRetry e n conditionalReq 0 [] now (c, w);
          Some (ans, req\<lparr>rq_Body := rq_Body conditionalReq\<rparr>, s)
        })"

text \<open>Storing a response with the provider, if there is one; the body of the response is read.\<close>

definition store_with_provider ::
  "'x env \<Rightarrow> string \<Rightarrow> response option \<Rightarrow> int \<Rightarrow> 'x state \<Rightarrow> (response option \<times> 'x state) option" where
  "store_with_provider e key resp ttl = (\<lambda>(c, w).
     case c_cacheProvider c of
       None \<Rightarrow> Some (resp, c, w)
     | Some p \<Rightarrow> do {
         resp \<leftarrow> resp;
         (resp, w) \<leftarrow> provider_Set e p key resp ttl w;
         Some (Some resp, c, w)
       })"

text \<open>The goroutine that stale-while-revalidate would start.\<close>

definition background_revalidation :: "'x env \<Rightarrow> nat \<Rightarrow> request \<Rightarrow> CacheEntry \<Rightarrow> string \<Rightarrow> 'x call" where
  "background_revalidation e n req entry cacheKey =
     singleFlightDo e req (''revalidate:'' @ cacheKey) (\<lambda>s. do {
       (ans, req, s) \<leftarrow> performConditionalRequest e n req entry s;
       (case ans of
          Answered (resp, None) \<Rightarrow> do {
            (resp, s) \<leftarrow> store_with_provider e cacheKey resp 0 s;
            Some (Answered (resp, None), req, s)
          }
        | _ \<Rightarrow> Some (ans, req, s))
     })"

text \<open>The boolean says whether that goroutine is started.\<close>

definition handleHTTPSemanticsCacheHit ::
  "'x env \<Rightarrow> nat \<Rightarrow> request \<Rightarrow> CacheEntry \<Rightarrow> string \<Rightarrow> 'x state \<Rightarrow> ((answer \<times> bool) \<times> request \<times> 'x state) option" where
  "handleHTTPSemanticsCacheHit e n req entry cacheKey = (\<lambda>(c, w).
     let cacheControl = parseCacheControl (header_get (ent_Header entry) ''Cache-Control'');
         cached = Answered (Some (createResponseFromCache entry), None);
         (now, w) = clock e w
     in if shouldRevalidate now entry (Some cacheControl) then
          if c_cacheMode c = SWR \<and> ent_IsStale entry then Some ((cached, True), req, c, w)
          else do {
            (ans, req, s) \<leftarrow> performConditionalRequest e n req entry (c, w);
            (case ans of
               Answered (resp, Some err) \<Rightarrow> Some ((Answered (None, Some err), False), req, s)
             | Answered (resp, None) \<Rightarrow> do {
                 resp \<leftarrow> resp;
                 if isNotModified resp then Some ((cached, False), req, s)
                 else do {
                   (resp, s) \<leftarrow> store_with_provider e cacheKey (Some resp) 0 s;
                   Some ((Answered (resp, None), False), req, s)
                 }
               }
             | _ \<Rightarrow> Some ((ans, False), req, s))
          }
        else Some ((cached, False), req, c, w))"

subsection \<open>The parts of Do\<close>

definition new_request_id :: "'x state \<Rightarrow> string \<times> 'x state" where
  "new_request_id = (\<lambda>(c, w).
     case c_debug c of
       None \<Rightarrow> ([], c, w)
     | Some d \<Rightarrow>
         (case dc_RequestIDGen d of
            None \<Rightarrow> ([], c, w)
          | Some gen \<Rightarrow> if dc_Enabled d
                        then (let (rid, x) = gen (w_out w) in (rid, c, w\<lparr>w_out := x\<rparr>))
                        else ([], c, w)))"

text \<open>The first log line prints the URL, which panics on a request without one.\<close>

definition log_start :: "request \<Rightarrow> string \<Rightarrow> 'x Client \<Rightarrow> 'x world \<Rightarrow> 'x world option" where
  "log_start req requestID c w =
     (let w' = log_line dc_LogRequests Debug ''Starting request''
                 [(''requestID'', StringArg requestID), (''method'', StringArg (rq_Method req)),
                  (''url'', StringArg (case rq_URL req of None \<Rightarrow> [] | Some u \<Rightarrow> url_text u)),
                  (''endpoint'', StringArg (getEndpointFromRequest req))] c w
      in if w_log w' \<noteq> w_log w \<and> rq_URL req = None then None else Some w')"

text \<open>
  Deduplication: the answer of a caller that is not the owner, or the key it owns (\<open>None\<close> where
  deduplication is off).
\<close>

definition join_dedup ::
  "'x env \<Rightarrow> request \<Rightarrow> int \<Rightarrow> string \<Rightarrow> 'x state \<Rightarrow> ((answer + string option) \<times> 'x state) option" where
  "join_dedup e req start requestID = (\<lambda>(c, w).
     case c_deduplication c of
       None \<Rightarrow> Some (Inr None, c, w)
     | Some dt \<Rightarrow> do {
         cond \<leftarrow> c_dedupCondition c;
         if \<not> cond req then Some (Inr None, c, w)
         else do {
           keyFunc \<leftarrow> c_dedupKeyFunc c;
           dedupKey \<leftarrow> keyFunc req;
           (let ((a, isDedupOwner), dt) = GetOrCreateEntry dedupKey dt;
                c = c\<lparr>c_deduplication := Some dt\<rparr>;
                endpoint = getEndpointFromRequest req
            in if \<not> isDedupOwner then
                 (case Wait (dt_heap dt a) (e_ctx e req (w_out w)) of
                    [] \<Rightarrow> Some (Inl Blocked, c, w)
                  | results \<Rightarrow>
                      (let res = results ! (e_pick e (w_out w) mod length results);
                           (since, w) = clock e w;
                           statusCode = (case fst res of None \<Rightarrow> 0 | Some resp \<Rightarrow> rs_StatusCode resp);
                           w = on_prom (RecordRequest (c_metrics c) (rq_Method req) endpoint statusCode (time_sub since start)) w;
                           w = on_prom (RecordDeduplicationHit (c_metrics c) (rq_Method req) endpoint) w;
                           w = log_line (\<lambda>_. True) Debug ''Deduplication hit''
                             [(''requestID'', StringArg requestID), (''dedupKey'', StringArg dedupKey)] c w
                       in Some (Inl (Answered res), c, w)))
               else
                 Some (Inr (Some dedupKey), c,
                   log_line (\<lambda>_. True) Debug ''Deduplication miss - proceeding with request''
                     [(''requestID'', StringArg requestID), (''dedupKey'', StringArg dedupKey)] c w))
         }
       })"

text \<open>What a cache hit records.\<close>

definition record_hit ::
  "'x env \<Rightarrow> request \<Rightarrow> int \<Rightarrow> string \<Rightarrow> (string \<times> log_arg) list \<Rightarrow> int \<Rightarrow> 'x Client \<Rightarrow> 'x world \<Rightarrow> 'x world" where
  "record_hit e req start msg args statusCode c w =
     (let endpoint = getEndpointFromRequest req;
          w = log_line dc_LogCache Debug msg args c w;
          w = on_prom (RecordCacheHit (c_metrics c) (rq_Method req) endpoint) w;
          (since, w) = clock e w;
          w = on_prom (RecordRequestEnd (c_metrics c) (rq_Method req) endpoint) w
      in on_prom (RecordRequest (c_metrics c) (rq_Method req) endpoint statusCode (time_sub since start)) w)"

text \<open>The cache: an answer, or whether the response is to be cached.\<close>

definition lookup_cache ::
  "'x env \<Rightarrow> nat \<Rightarrow> request \<Rightarrow> int \<Rightarrow> string \<Rightarrow> 'x state \<Rightarrow> ((answer + bool) \<times> request \<times> 'x state) option" where
  "lookup_cache e n req start requestID = (\<lambda>(c, w).
     if c_cache c = None \<and> c_cacheProvider c = None then Some (Inr False, req, c, w)
     else do {
       cond \<leftarrow> c_cacheCondition c;
       if \<not> cond req then Some (Inr False, req, c, w)
       else do {
         keyFunc \<leftarrow> c_cacheKeyFunc c;
         (let cacheKey = keyFunc req;
              provider = (if c_cacheMode c = HTTPSemantics \<or> c_cacheMode c = SWR then c_cacheProvider c else None);
              miss = (\<lambda>w. let w = on_prom (RecordCacheMiss (c_metrics c) (rq_Method req) (getEndpointFromRequest req)) w
                          in Some (Inr True, req, c, log_line dc_LogCache Debug ''Cache miss''
                            [(''requestID'', StringArg requestID), (''cacheKey'', StringArg cacheKey)] c w))
          in case provider of
               Some p \<Rightarrow> do {
                 (found, w) \<leftarrow> provider_Get e p cacheKey w;
                 (case found of
                    Some resp \<Rightarrow>
                      Some (Inl (Answered (Some resp, None)), req, c,
                        record_hit e req start ''Cache provider hit''
                          [(''requestID'', StringArg requestID), (''cacheKey'', StringArg cacheKey),
                           (''mode'', CacheModeArg (c_cacheMode c))] (rs_StatusCode resp) c w)
                  | None \<Rightarrow> miss w)
               }
             | None \<Rightarrow>
                 (case c_cache c of
                    None \<Rightarrow> miss w
                  | Some a \<Rightarrow>
                      (let (now, w) = clock e w in do {
                         (found, w) \<leftarrow> with_cache a (\<lambda>obj. Some (obj_Get now cacheKey obj)) w;
                         (case found of
                            Some entry \<Rightarrow>
                              if c_cacheMode c = HTTPSemantics then
                                map_option (\<lambda>((ans, _), req, s). (Inl ans, req, s))
                                  (handleHTTPSemanticsCacheHit e n req entry cacheKey (c, w))
                              else
                                Some (Inl (Answered (Some (createResponseFromCache entry), None)), req, c,
                                  record_hit e req start ''Cache hit''
                                    [(''requestID'', StringArg requestID), (''cacheKey'', StringArg cacheKey)]
                                    (ent_StatusCode entry) c w)
                          | None \<Rightarrow> miss w)
                       })))
       }
     })"

text \<open>
  The request proper: under single flight where the mode has HTTP semantics, which also stores the
  response, else the retry loop alone. The boolean is \<open>skipCaching\<close>.
\<close>

definition flight_body :: "'x env \<Rightarrow> nat \<Rightarrow> request \<Rightarrow> int \<Rightarrow> string \<Rightarrow> string \<Rightarrow> 'x call" where
  "flight_body e n req start requestID cacheKey = (\<lambda>s. do {
     (ans, req, c, w) \<leftarrow> doWithRetry e n req 0 requestID start s;
     (case ans of
        Answered (resp, None) \<Rightarrow> do {
          httpResp \<leftarrow> resp;
          if rs_StatusCode httpResp < 400 \<and> c_cacheProvider c \<noteq> None then do {
            (resp, c, w) \<leftarrow> store_with_provider e cacheKey resp (getCacheTTLForRequest (c_cacheTTL c) req) (c, w);
            Some (Answered (resp, None), req, c,
              log_line dc_LogCache Debug ''Response cached via provider''
                [(''requestID'', StringArg requestID), (''cacheKey'', StringArg cacheKey),
                 (''mode'', CacheModeArg (c_cacheMode c))] c w)
          }
          else Some (ans, req, c, w)
        }
      | _ \<Rightarrow> Some (ans, req, c, w))
   })"

definition fetch ::
  "'x env \<Rightarrow> nat \<Rightarrow> request \<Rightarrow> int \<Rightarrow> string \<Rightarrow> bool \<Rightarrow> 'x state \<Rightarrow> (bool \<times> answer \<times> request \<times> 'x state) option" where
  "fetch e n req start requestID cacheEnabled = (\<lambda>(c, w).
     if cacheEnabled \<and> (c_cacheMode c = HTTPSemantics \<or> c_cacheMode c = SWR) then do {
       keyFunc \<leftarrow> c_cacheKeyFunc c;
       map_option (Pair True)
         (singleFlightDo e req (keyFunc req) (flight_body e n req start requestID (keyFunc req)) (c, w))
     }
     else map_option (Pair False) (doWithRetry e n req 0 requestID start (c, w)))"

text \<open>Storing the response after the request: with the provider or in the cache.\<close>

definition store_response ::
  "'x env \<Rightarrow> request \<Rightarrow> string \<Rightarrow> response \<Rightarrow> 'x state \<Rightarrow> (response \<times> 'x state) option" where
  "store_response e req requestID resp = (\<lambda>(c, w). do {
     keyFunc \<leftarrow> c_cacheKeyFunc c;
     (let cacheKey = keyFunc req; ttl = getCacheTTLForRequest (c_cacheTTL c) req
      in case c_cacheProvider c of
           Some p \<Rightarrow> do {
             (resp, w) \<leftarrow> provider_Set e p cacheKey resp ttl w;
             Some (resp, c, log_line dc_LogCache Debug ''Response cached via provider''
               [(''requestID'', StringArg requestID), (''cacheKey'', StringArg cacheKey),
                (''mode'', CacheModeArg (c_cacheMode c))] c w)
           }
         | None \<Rightarrow>
             (case c_cache c of
                None \<Rightarrow> Some (resp, c, w)
              | Some a \<Rightarrow> do {
                  (entry, resp) \<leftarrow> createCacheEntry resp;
                  entry \<leftarrow> entry;
                  (let (now, w) = clock e w in do {
                     (obj, w) \<leftarrow> with_cache a
                       (\<lambda>obj. let obj = obj_Set (e_impl e) now cacheKey entry ttl obj in Some (obj, obj)) w;
                     (let w = (case obj of
                                 InMemory m \<Rightarrow> on_prom (RecordCacheSize (c_metrics c) ''default'' (int (imc_totalSize m))) w
                               | Optimized _ \<Rightarrow> w)
                      in Some (resp, c, log_line dc_LogCache Debug ''Response cached''
                           [(''requestID'', StringArg requestID), (''cacheKey'', StringArg cacheKey),
                            (''ttl'', DurationArg ttl)] c w))
                   })
                }))
   })"

definition complete_dedup ::
  "'x env \<Rightarrow> request \<Rightarrow> bool \<Rightarrow> go_result \<Rightarrow> 'x state \<Rightarrow> 'x state option" where
  "complete_dedup e req owner res = (\<lambda>(c, w).
     case c_deduplication c of
       None \<Rightarrow> Some (c, w)
     | Some dt \<Rightarrow>
         if owner then do {
           keyFunc \<leftarrow> c_dedupKeyFunc c;
           dedupKey \<leftarrow> keyFunc req;
           (let (now, w) = clock e w in do {
              dt \<leftarrow> Complete now dedupKey (fst res) (snd res) dt;
              Some (c\<lparr>c_deduplication := Some dt\<rparr>, w)
            })
         }
         else Some (c, w))"

text \<open>What is left to do once the request has an answer; \<open>endpoint\<close> was taken from the request as it came.\<close>

definition finish_request ::
  "'x env \<Rightarrow> request \<Rightarrow> string \<Rightarrow> int \<Rightarrow> string \<Rightarrow> bool \<Rightarrow> bool \<Rightarrow> go_result \<Rightarrow> 'x state \<Rightarrow> (go_result \<times> 'x state) option" where
  "finish_request e req endpoint start requestID store owner res = (\<lambda>(c, w).
     let w = on_prom (RecordRequestEnd (c_metrics c) (rq_Method req) endpoint) w;
         (since, w) = clock e w;
         statusCode = (case fst res of None \<Rightarrow> 0 | Some resp \<Rightarrow> rs_StatusCode resp);
         w = on_prom (RecordRequest (c_metrics c) (rq_Method req) endpoint statusCode (time_sub since start)) w
     in do {
          (res, s) \<leftarrow>
            (if store \<and> snd res = None then do {
               resp \<leftarrow> fst res;
               if rs_StatusCode resp < 400
               then map_option (\<lambda>(resp, s). ((Some resp, None), s)) (store_response e req requestID resp (c, w))
               else Some (res, c, w)
             }
             else Some (res, c, w));
          s \<leftarrow> complete_dedup e req owner res s;
          Some (res, s)
        })"

subsection \<open>Do\<close>

text \<open>The call once its start is recorded.\<close>

definition serve :: "'x env \<Rightarrow> nat \<Rightarrow> request \<Rightarrow> string \<Rightarrow> int \<Rightarrow> string \<Rightarrow> 'x call" where
  "serve e n req endpoint start requestID s = do {
     (joined, s) \<leftarrow> join_dedup e req start requestID s;
     (case joined of
        Inl ans \<Rightarrow> Some (ans, req, s)
      | Inr owned \<Rightarrow> do {
          (found, req, s) \<leftarrow> lookup_cache e n req start requestID s;
          (case found of
             Inl ans \<Rightarrow> Some (ans, req, s)
           | Inr cacheEnabled \<Rightarrow> do {
               (skipCaching, ans, req, s) \<leftarrow> fetch e n req start requestID cacheEnabled s;
               (case ans of
                  Answered res \<Rightarrow> do {
                    (res, s) \<leftarrow> finish_request e req endpoint start requestID (cacheEnabled \<and> \<not> skipCaching)
                                 (owned \<noteq> None) res s;
                    Some (Answered res, req, s)
                  }
                | _ \<Rightarrow> Some (ans, req, s))
             })
        })
   }"

definition Do :: "'x env \<Rightarrow> nat \<Rightarrow> request \<Rightarrow> 'x call" where
  "Do e n req = (\<lambda>(c, w).
     let (start, w) = clock e w;
         (requestID, c, w) = new_request_id (c, w)
     in do {
          w \<leftarrow> log_start req requestID c w;
          (let endpoint = getEndpointFromRequest req;
               w = on_prom (RecordRequestStart (c_metrics c) (rq_Method req) endpoint) w
           in serve e n req endpoint start requestID (c, w))
        })"

text \<open>\<open>Get\<close> and \<open>Post\<close>: what \<open>http.NewRequestWithContext\<close> refuses is returned as it is.\<close>

definition Get :: "'x env \<Rightarrow> nat \<Rightarrow> string \<Rightarrow> 'x state \<Rightarrow> (answer \<times> 'x state) option" where
  "Get e n url s =
     (case e_new_request e ''GET'' url NilBody of
        Inl err \<Rightarrow> Some (Answered (None, Some err), s)
      | Inr req \<Rightarrow> map_option (\<lambda>(ans, _, s). (ans, s)) (Do e n req s))"

definition Post :: "'x env \<Rightarrow> nat \<Rightarrow> string \<Rightarrow> string \<Rightarrow> body \<Rightarrow> 'x state \<Rightarrow> (answer \<times> 'x state) option" where
  "Post e n url contentType body s =
     (case e_new_request e ''POST'' url body of
        Inl err \<Rightarrow> Some (Answered (None, Some err), s)
      | Inr req \<Rightarrow>
          (let req = req\<lparr>rq_Header := header_set ''Content-Type'' contentType (rq_Header req)\<rparr>
           in map_option (\<lambda>(ans, _, s). (ans, s)) (Do e n req s)))"

end
