(* ===== verification/ClientInvariants.thy ===== *)
theory ClientInvariants
  imports Client
begin

text \<open>
  Invariants of a client over whole sequences of calls. The locale \<open>client_invariant\<close> is the
  contract between a property of states and the steps of the retry loop, stage by stage; its
  lemmas carry the property through every part of \<open>Do\<close>, and so through any sequence of calls.
\<close>

subsection \<open>Sequences of calls\<close>

text \<open>Between two calls every timer that is due fires.\<close>

definition fire_timers :: "'x env \<Rightarrow> 'x state \<Rightarrow> 'x state" where
  "fire_timers e = (\<lambda>(c, w).
     let (now, w) = clock e w
     in (c\<lparr>c_deduplication := map_option (dt_fire now) (c_deduplication c),
           c_singleFlight := sf_fire now (c_singleFlight c),
           c_singleFlightGroup := grp_fire now (c_singleFlightGroup c)\<rparr>, w))"

fun run_requests :: "'x env \<Rightarrow> nat \<Rightarrow> request list \<Rightarrow> 'x state \<Rightarrow> (answer list \<times> 'x state) option" where
  "run_requests e n [] s = Some ([], s)"
| "run_requests e n (req # reqs) s = do {
     (ans, _, s) \<leftarrow> Do e n req s;
     (answers, s) \<leftarrow> run_requests e n reqs (fire_timers e s);
     Some (ans # answers, s)
   }"

subsection \<open>The contract\<close>

text \<open>
  The stages of a round: nothing is under way, the limiter has let the request through, the breaker
  has, the transport has answered, and the budget has granted a retry.
\<close>

datatype stage = Idle | Admitted request | is_Cleared: Cleared request | Sent | Granted

locale client_invariant =
  fixes e :: "'x env" and P :: "stage \<Rightarrow> 'x state \<Rightarrow> bool"
  assumes clock_keeps: "P g (c, w) \<Longrightarrow> clock e w = (t, w') \<Longrightarrow> P g (c, w')"
    and prom_keeps: "P g (c, w) \<Longrightarrow> P g (c, on_prom f w)"
    and log_keeps: "P g (c, w) \<Longrightarrow> CHR ''%'' \<notin> set msg \<Longrightarrow> args \<noteq> [] \<Longrightarrow>
        P g (c, log_line flag level msg args c w)"
    and limiter_step: "P Idle s \<Longrightarrow> ask_limiter e req s = Some ((ok, key), s') \<Longrightarrow>
        P (if ok then Admitted req else Idle) s'"
    and breaker_step: "P (Admitted req) s \<Longrightarrow> ask_breaker e s = (ok, s') \<Longrightarrow> P (if ok then Cleared req else Idle) s'"
    and send_step: "P (Cleared req) (c, w) \<Longrightarrow> executeMiddleware c req (w_out w) = Some (res, req', x) \<Longrightarrow>
        P Sent (c, w\<lparr>w_out := x\<rparr>)"
    and outcome_step: "P Sent s \<Longrightarrow> P Idle (record_outcome e req ep rid res s)"
    and decide_step: "P Idle s \<Longrightarrow> decide_retry e res attempt s = Some (dec, s') \<Longrightarrow> P Idle s'"
    and budget_step: "P Idle s \<Longrightarrow> ask_budget e s = (ok, s') \<Longrightarrow> P (if ok then Granted else Idle) s'"
    and sleep_step: "P Granted (c, w) \<Longrightarrow> P Idle (c, w\<lparr>w_out := e_sleep e d (w_out w)\<rparr>)"
    and request_id_step: "P Idle s \<Longrightarrow> new_request_id s = (rid, s') \<Longrightarrow> P Idle s'"
    and caches_step: "P Idle (c, w) \<Longrightarrow> P Idle (c, w\<lparr>w_caches := m\<rparr>)"
    and shared_step: "P Idle (c, w) \<Longrightarrow>
        P Idle (c\<lparr>c_deduplication := dt, c_singleFlight := sf, c_singleFlightGroup := grp\<rparr>, w)"
begin

subsubsection \<open>The retry loop\<close>

lemma fail_with_keeps:
  assumes "P Idle s" and "fail_with e ty msg cause rid req attempt st s = Some (r, s')"
  shows "P Idle s'"
proof (cases s)
  case (Pair c w)
  obtain t w1 t' w2 where t: "clock e w = (t, w1)" "clock e w1 = (t', w2)" by (metis prod.exhaust)
  with assms Pair have "s' = (c, w2)" by (auto simp: fail_with_def)
  with assms(1) Pair t show ?thesis by (auto intro: clock_keeps)
qed

lemma registry_tokens_keeps:
  "P g (c, w) \<Longrightarrow> registry_tokens mc r keys w = Some w' \<Longrightarrow> P g (c, w')"
proof (induction keys arbitrary: w)
  case (Cons key keys)
  then show ?case
    by (auto split: option.splits Limiter.splits limiter_object.splits intro: prom_keeps)
qed simp

lemma record_tokens_keeps:
  assumes "P g s" and "record_tokens e s = Some s'"
  shows "P g s'"
proof (cases s)
  case (Pair c w)
  have "P g (c, own_tokens c w')" if "P g (c, w')" for w'
    using that by (auto simp: own_tokens_def split: option.splits intro: prom_keeps)
  with assms Pair show ?thesis
    by (auto simp: record_tokens_def split: option.splits if_splits intro: registry_tokens_keeps)
qed

lemma conclude_keeps:
  assumes "P Idle s" and "conclude e req ep attempt rid st res s = Some (v, s')"
  shows "P Idle s'"
proof -
  from assms(2) obtain delay again s1 where d: "decide_retry e res attempt s = Some ((delay, again), s1)"
    by (cases "decide_retry e res attempt s") (auto simp: conclude_def Let_def)
  note s1 = decide_step [OF assms(1) d]
  show ?thesis
  proof (cases again)
    case False
    with assms(2) d s1 show ?thesis
      by (auto simp: conclude_def split: option.splits intro: fail_with_keeps)
  next
    case True
    obtain ok c w where b: "ask_budget e s1 = (ok, c, w)" by (cases "ask_budget e s1") auto
    note s2 = budget_step [OF s1 b]
    from assms(2) d True b s2 show ?thesis
      by (cases ok) (auto simp: conclude_def Let_def intro!: sleep_step log_keeps prom_keeps elim!: fail_with_keeps [rotated])
  qed
qed

lemma try_once_keeps:
  assumes "P Idle s" and "try_once e req attempt rid st s = Some (v, req', s')"
  shows "P Idle s'"
proof -
  from assms(2) obtain allowed key c1 w1 where l: "ask_limiter e req s = Some ((allowed, key), c1, w1)"
    by (cases "ask_limiter e req s") (auto simp: try_once_def Let_def)
  note s1 = limiter_step [OF assms(1) l]
  show ?thesis
  proof (cases allowed)
    case False
    with s1 have "P Idle (c1, w1)" by simp
    with assms(2) l False show ?thesis
      by (auto simp: try_once_def Let_def intro!: log_keeps prom_keeps elim!: fail_with_keeps [rotated])
  next
    case True
    from assms(2) l True obtain s2 where t: "record_tokens e (c1, w1) = Some s2"
      by (cases "record_tokens e (c1, w1)") (auto simp: try_once_def Let_def)
    obtain ok c w where b: "ask_breaker e s2 = (ok, c, w)" by (cases "ask_breaker e s2") auto
    have "P (Admitted req) s2" using record_tokens_keeps [OF _ t] s1 True by simp
    note s3 = breaker_step [OF this b]
    show ?thesis
    proof (cases ok)
      case False
      with s3 have "P Idle (c, w)" by simp
      with assms(2) l True t b False show ?thesis
        by (auto simp: try_once_def Let_def intro!: log_keeps prom_keeps elim!: fail_with_keeps [rotated])
    next
      case yes: True
      let ?ep = "getEndpointFromRequest req"
      let ?w = "if attempt > 0 then on_prom (RecordRetry (c_metrics c) (rq_Method req) ?ep attempt)
        (log_line dc_LogRetries Info ''Retry attempt''
          [(''requestID'', StringArg rid), (''attempt'', IntArg attempt), (''maxRetries'', IntArg (c_maxRetries c)),
           (''endpoint'', StringArg ?ep)] c w) else w"
      have "P (Cleared req) (c, ?w)" using s3 yes by (auto intro!: prom_keeps log_keeps)
      moreover from assms(2) l True t b yes obtain res x where
        m: "executeMiddleware c req (w_out ?w) = Some (res, req', x)" and
        "conclude e req' ?ep attempt rid st res (record_outcome e req' ?ep rid res (c, ?w\<lparr>w_out := x\<rparr>)) = Some (v, s')"
        by (cases "executeMiddleware c req (w_out ?w)") (auto simp: try_once_def Let_def)
      ultimately show ?thesis by (blast intro: conclude_keeps outcome_step send_step)
    qed
  qed
qed

lemma loop_keeps:
  "P Idle s \<Longrightarrow> doWithRetry e n req attempt rid st s = Some (ans, req', s') \<Longrightarrow> P Idle s'"
proof (induction n arbitrary: req attempt s)
  case (Suc n)
  from Suc.prems(2) obtain v req1 s1 where r: "try_once e req attempt rid st s = Some (v, req1, s1)"
    by (cases "try_once e req attempt rid st s") auto
  note s1 = try_once_keeps [OF Suc.prems(1) r]
  with Suc.prems(2) r Suc.IH [OF s1] show ?case by (cases v) auto
qed simp


subsubsection \<open>Caches and single flight\<close>

lemma with_cache_keeps: "P Idle (c, w) \<Longrightarrow> with_cache a f w = Some (r, w') \<Longrightarrow> P Idle (c, w')"
  by (auto simp: with_cache_def bind_eq_Some_conv intro: caches_step)

lemma provider_Get_keeps: "P Idle (c, w) \<Longrightarrow> provider_Get e p key w = Some (r, w') \<Longrightarrow> P Idle (c, w')"
  by (cases p) (auto elim!: with_cache_keeps [rotated] clock_keeps [rotated] split: prod.splits)

lemma provider_Set_keeps: "P Idle (c, w) \<Longrightarrow> provider_Set e p key resp ttl w = Some (r, w') \<Longrightarrow> P Idle (c, w')"
  by (cases p) (auto elim!: with_cache_keeps [rotated] clock_keeps [rotated] split: prod.splits)

lemma store_with_provider_keeps:
  "P Idle s \<Longrightarrow> store_with_provider e key resp ttl s = Some (r, s') \<Longrightarrow> P Idle s'"
  by (cases s) (auto simp: store_with_provider_def bind_eq_Some_conv split: option.splits
      elim!: provider_Set_keeps [rotated])

lemma dedup_keeps: "P Idle (c, w) \<Longrightarrow> P Idle (c\<lparr>c_deduplication := dt\<rparr>, w)"
  using shared_step [where c = c and w = w and dt = dt and sf = "c_singleFlight c" and grp = "c_singleFlightGroup c"] by simp

lemma flight_keeps: "P Idle (c, w) \<Longrightarrow> P Idle (c\<lparr>c_singleFlight := sf\<rparr>, w)"
  using shared_step [where c = c and w = w and dt = "c_deduplication c" and sf = sf and grp = "c_singleFlightGroup c"] by simp

lemma group_keeps: "P Idle (c, w) \<Longrightarrow> P Idle (c\<lparr>c_singleFlightGroup := grp\<rparr>, w)"
  using shared_step [where c = c and w = w and dt = "c_deduplication c" and sf = "c_singleFlight c" and grp = grp] by simp

lemma singleFlightDo_keeps:
  assumes fn: "\<And>s s' ans req'. P Idle s \<Longrightarrow> fn s = Some (ans, req', s') \<Longrightarrow> P Idle s'"
    and "P Idle s" and run: "singleFlightDo e req key fn s = Some (ans, req', s')"
  shows "P Idle s'"
proof (cases s)
  case (Pair c w)
  show ?thesis
  proof (cases "c_singleFlightEnabled c")
    case True
    obtain a own g where b: "grp_begin key (c_singleFlightGroup c) = ((a, own), g)"
      by (cases "grp_begin key (c_singleFlightGroup c)") auto
    have s1: "P Idle (c\<lparr>c_singleFlightGroup := g\<rparr>, w)" using assms(2) Pair by (simp add: group_keeps)
    show ?thesis
    proof (cases own)
      case False
      with run s1 True b Pair show ?thesis by (auto simp: singleFlightDo_def)
    next
      case own: True
      from run True b own Pair obtain ans1 req1 c1 w1 where
        f: "fn (c\<lparr>c_singleFlightGroup := g\<rparr>, w) = Some (ans1, req1, c1, w1)"
        by (cases "fn (c\<lparr>c_singleFlightGroup := g\<rparr>, w)") (auto simp: singleFlightDo_def)
      note s2 = fn [OF s1 f]
      obtain t w2 where t: "clock e w1 = (t, w2)" by (cases "clock e w1")
      from run True b own Pair f t clock_keeps [OF s2 t] s2 show ?thesis
        by (cases ans1) (auto simp: singleFlightDo_def intro: group_keeps)
    qed
  next
    case False
    obtain a own g where b: "sf_begin key (c_singleFlight c) = ((a, own), g)"
      by (cases "sf_begin key (c_singleFlight c)") auto
    have s1: "P Idle (c\<lparr>c_singleFlight := g\<rparr>, w)" using assms(2) Pair by (simp add: flight_keeps)
    show ?thesis
    proof (cases own)
      case own: False
      with run s1 False b Pair show ?thesis by (auto simp: singleFlightDo_def)
    next
      case True
      from run False b True Pair obtain ans1 req1 c1 w1 where
        f: "fn (c\<lparr>c_singleFlight := g\<rparr>, w) = Some (ans1, req1, c1, w1)"
        by (cases "fn (c\<lparr>c_singleFlight := g\<rparr>, w)") (auto simp: singleFlightDo_def)
      note s2 = fn [OF s1 f]
      obtain t w2 where t: "clock e w1 = (t, w2)" by (cases "clock e w1")
      from run False b True Pair f t clock_keeps [OF s2 t] s2 show ?thesis
        by (cases ans1) (auto simp: singleFlightDo_def intro: flight_keeps)
    qed
  qed
qed

lemma performConditionalRequest_keeps:
  assumes "P Idle s" and "performConditionalRequest e n req entry s = Some (ans, req', s')"
  shows "P Idle s'"
proof (cases s)
  case (Pair c w)
  obtain t w1 where t: "clock e w = (t, w1)" by (cases "clock e w")
  from assms Pair t clock_keeps [of Idle c w t w1] show ?thesis
    by (auto simp: performConditionalRequest_def bind_eq_Some_conv dest: loop_keeps)
qed

lemma handle_hit_keeps:
  assumes "P Idle s" and "handleHTTPSemanticsCacheHit e n req entry key s = Some (r, req', s')"
  shows "P Idle s'"
proof (cases s)
  case (Pair c w)
  obtain t w1 where t: "clock e w = (t, w1)" by (cases "clock e w")
  have s1: "P Idle (c, w1)" using clock_keeps [OF _ t] assms(1) Pair by simp
  show ?thesis
  proof (cases "performConditionalRequest e n req entry (c, w1)")
    case None
    with assms Pair t s1 show ?thesis by (auto simp: handleHTTPSemanticsCacheHit_def Let_def split: if_splits)
  next
    case (Some r1)
    then obtain ans req1 s2 where p: "performConditionalRequest e n req entry (c, w1) = Some (ans, req1, s2)"
      by (cases r1) auto
    have "P Idle s2" by (rule performConditionalRequest_keeps [OF s1 p])
    with assms Pair t p s1 show ?thesis
      by (auto simp: handleHTTPSemanticsCacheHit_def Let_def bind_eq_Some_conv
          split: if_splits answer.splits option.splits dest: store_with_provider_keeps)
  qed
qed


subsubsection \<open>The parts of Do\<close>

lemma log_start_keeps: "P Idle (c, w) \<Longrightarrow> log_start req rid c w = Some w' \<Longrightarrow> P Idle (c, w')"
  by (auto simp: log_start_def Let_def intro!: log_keeps split: if_splits)

lemma join_dedup_keeps:
  assumes "P Idle s" and "join_dedup e req st rid s = Some (r, s')"
  shows "P Idle s'"
proof (cases s)
  case (Pair c w)
  show ?thesis
  proof (cases "s' = (c, w)")
    case True
    with assms(1) Pair show ?thesis by simp
  next
    case False
    with assms Pair obtain dt cond kf k where k: "c_deduplication c = Some dt" "c_dedupCondition c = Some cond"
      "cond req" "c_dedupKeyFunc c = Some kf" "kf req = Some k"
      by (auto simp: join_dedup_def bind_eq_Some_conv split: if_splits option.splits)
    obtain a own dt' where g: "GetOrCreateEntry k dt = ((a, own), dt')" by (cases "GetOrCreateEntry k dt") auto
    have s1: "P Idle (c\<lparr>c_deduplication := Some dt'\<rparr>, w)" using assms(1) Pair by (simp add: dedup_keeps)
    obtain t w1 where t: "clock e w = (t, w1)" by (cases "clock e w")
    note s2 = clock_keeps [OF s1 t]
    show ?thesis
      using assms(2) Pair k g t s1 s2
      by (cases "Wait (dt_heap dt' a) (e_ctx e req (w_out w))")
        (auto simp: join_dedup_def Let_def intro!: log_keeps prom_keeps split: if_splits)
  qed
qed

lemma record_hit_keeps:
  assumes "P Idle (c, w)" and "CHR ''%'' \<notin> set msg" and "args \<noteq> []"
  shows "P Idle (c, record_hit e req st msg args status c w)"
  using assms by (auto simp: record_hit_def Let_def split: prod.splits
      intro!: prom_keeps log_keeps elim!: clock_keeps [rotated])

lemma lookup_cache_keeps:
  assumes "P Idle s" and "lookup_cache e n req st rid s = Some (r, req', s')"
  shows "P Idle s'"
proof (cases s)
  case (Pair c w)
  have miss: "P Idle (c, log_line dc_LogCache Debug ''Cache miss'' (kv # kvs) c (on_prom f w1))"
    if "P Idle (c, w1)" for w1 kv kvs f
    using that by (auto intro!: log_keeps prom_keeps)
  obtain t w1 where t: "clock e w = (t, w1)" by (cases "clock e w")
  have s1: "P Idle (c, w1)" using clock_keeps [OF _ t] assms(1) Pair by simp
  show ?thesis
  proof (cases "s' = (c, w)")
    case True
    with assms(1) Pair show ?thesis by simp
  next
    case False
    with assms(2) Pair obtain cond kf where k: "\<not> (c_cache c = None \<and> c_cacheProvider c = None)"
      "c_cacheCondition c = Some cond" "cond req" "c_cacheKeyFunc c = Some kf"
      by (auto simp: lookup_cache_def bind_eq_Some_conv split: if_splits)
    show ?thesis
    proof (cases "if c_cacheMode c = HTTPSemantics \<or> c_cacheMode c = SWR then c_cacheProvider c else None")
      case (Some p)
      with assms(2) Pair k obtain found w2 where g: "provider_Get e p (kf req) w = Some (found, w2)"
        by (auto simp: lookup_cache_def bind_eq_Some_conv Let_def split: if_splits)
      have "P Idle (c, w2)" using provider_Get_keeps [OF _ g] assms(1) Pair by simp
      with assms(2) Pair k Some g show ?thesis
        by (auto simp: lookup_cache_def Let_def split: option.splits intro!: miss record_hit_keeps)
    next
      case no: None
      show ?thesis
      proof (cases "c_cache c")
        case None
        with assms Pair k no show ?thesis
          by (auto simp: lookup_cache_def Let_def intro!: miss)
      next
        case (Some a)
        with assms(2) Pair k no t obtain found w2 where
          g: "with_cache a (\<lambda>obj. Some (obj_Get t (kf req) obj)) w1 = Some (found, w2)"
          by (auto simp: lookup_cache_def bind_eq_Some_conv Let_def)
        have "P Idle (c, w2)" by (rule with_cache_keeps [OF s1 g])
        with assms(2) Pair k no Some t g show ?thesis
          by (auto simp: lookup_cache_def Let_def split: option.splits if_splits
              intro!: miss record_hit_keeps dest: handle_hit_keeps)
      qed
    qed
  qed
qed

lemma flight_body_keeps:
  assumes "P Idle s" and "flight_body e n req st rid key s = Some (ans, req', s')"
  shows "P Idle s'"
proof -
  from assms(2) obtain ans1 req1 c1 w1 where l: "doWithRetry e n req 0 rid st s = Some (ans1, req1, c1, w1)"
    by (cases "doWithRetry e n req 0 rid st s") (auto simp: flight_body_def)
  have "P Idle (c1, w1)" by (rule loop_keeps [OF assms(1) l])
  with assms(2) l show ?thesis
    by (auto simp: flight_body_def bind_eq_Some_conv split: answer.splits option.splits if_splits
        intro!: log_keeps elim!: store_with_provider_keeps [rotated])
qed

lemma fetch_keeps:
  assumes "P Idle s" and "fetch e n req st rid enabled s = Some (skip, ans, req', s')"
  shows "P Idle s'"
proof (cases s)
  case (Pair c w)
  show ?thesis
  proof (cases "enabled \<and> (c_cacheMode c = HTTPSemantics \<or> c_cacheMode c = SWR)")
    case True
    with assms(2) Pair obtain kf where
      "singleFlightDo e req (kf req) (flight_body e n req st rid (kf req)) s = Some (ans, req', s')"
      by (auto simp: fetch_def bind_eq_Some_conv)
    from flight_body_keeps assms(1) this show ?thesis by (rule singleFlightDo_keeps)
  next
    case False
    with assms(2) Pair have "doWithRetry e n req 0 rid st s = Some (ans, req', s')"
      by (auto simp: fetch_def)
    then show ?thesis by (rule loop_keeps [OF assms(1)])
  qed
qed

lemma store_response_keeps:
  assumes "P Idle s" and "store_response e req rid resp s = Some (resp', s')"
  shows "P Idle s'"
proof (cases s)
  case (Pair c w)
  show ?thesis
  proof (cases "c_cacheProvider c")
    case (Some p)
    with assms Pair show ?thesis
      by (auto simp: store_response_def bind_eq_Some_conv Let_def intro!: log_keeps elim!: provider_Set_keeps [rotated])
  next
    case no: None
    obtain t w1 where t: "clock e w = (t, w1)" by (cases "clock e w")
    have s1: "P Idle (c, w1)" using clock_keeps [OF _ t] assms(1) Pair by simp
    have size: "P Idle (c, case obj of InMemory m \<Rightarrow> on_prom (f m) w2 | Optimized _ \<Rightarrow> w2)" if "P Idle (c, w2)" for obj f w2
      using that by (cases obj) (auto intro: prom_keeps)
    from assms Pair no t show ?thesis
      by (auto simp: store_response_def bind_eq_Some_conv Let_def split: option.splits
          intro!: log_keeps size elim!: with_cache_keeps [OF s1, rotated] intro: with_cache_keeps [OF s1])
  qed
qed

lemma complete_dedup_keeps:
  assumes "P Idle s" and "complete_dedup e req owner res s = Some s'"
  shows "P Idle s'"
proof (cases s)
  case (Pair c w)
  obtain t w1 where t: "clock e w = (t, w1)" by (cases "clock e w")
  have "P Idle (c, w1)" using clock_keeps [OF _ t] assms(1) Pair by simp
  with assms Pair t show ?thesis
    by (auto simp: complete_dedup_def bind_eq_Some_conv split: option.splits if_splits intro: dedup_keeps)
qed

lemma finish_request_keeps:
  assumes "P Idle s" and "finish_request e req ep st rid store owner res s = Some (res', s')"
  shows "P Idle s'"
proof (cases s)
  case (Pair c w)
  let ?w = "on_prom (RecordRequestEnd (c_metrics c) (rq_Method req) ep) w"
  obtain t w1 where t: "clock e ?w = (t, w1)" by (cases "clock e ?w")
  have "P Idle (c, ?w)" using assms(1) Pair by (simp add: prom_keeps)
  from clock_keeps [OF this t]
  have s1: "P Idle (c, on_prom f w1)" for f by (rule prom_keeps)
  from assms(2) Pair t show ?thesis
    by (auto simp: finish_request_def bind_eq_Some_conv Let_def split: if_splits
        elim!: complete_dedup_keeps [rotated] store_response_keeps [rotated] intro!: s1)
qed

lemma serve_keeps:
  assumes "P Idle s" and "serve e n req ep st rid s = Some (ans, req', s')"
  shows "P Idle s'"
proof -
  from assms(2) obtain joined s1 where j: "join_dedup e req st rid s = Some (joined, s1)"
    by (auto simp: serve_def bind_eq_Some_conv)
  note s1 = join_dedup_keeps [OF assms(1) j]
  show ?thesis
  proof (cases joined)
    case (Inl ans1)
    with assms(2) j s1 show ?thesis by (simp add: serve_def)
  next
    case (Inr owned)
    with assms(2) j obtain found req2 s2 where l: "lookup_cache e n req st rid s1 = Some (found, req2, s2)"
      by (auto simp: serve_def bind_eq_Some_conv)
    note s2 = lookup_cache_keeps [OF s1 l]
    show ?thesis
    proof (cases found)
      case (Inl ans1)
      with assms(2) j Inr l s2 show ?thesis by (simp add: serve_def)
    next
      case found: (Inr enabled)
      with assms(2) j Inr l obtain skip ans3 req3 s3 where f: "fetch e n req2 st rid enabled s2 = Some (skip, ans3, req3, s3)"
        by (auto simp: serve_def bind_eq_Some_conv)
      note s3 = fetch_keeps [OF s2 f]
      from assms(2) j Inr l found f s3 show ?thesis
        by (cases ans3) (auto simp: serve_def bind_eq_Some_conv elim: finish_request_keeps [rotated])
    qed
  qed
qed

lemma Do_keeps:
  assumes "P Idle s" and "Do e n req s = Some (ans, req', s')"
  shows "P Idle s'"
proof (cases s)
  case (Pair c w)
  obtain st w1 where t: "clock e w = (st, w1)" by (cases "clock e w")
  obtain rid c1 w2 where r: "new_request_id (c, w1) = (rid, c1, w2)" by (cases "new_request_id (c, w1)") auto
  have "P Idle (c1, w2)" using request_id_step [OF clock_keeps [OF _ t] r] assms(1) Pair by simp
  moreover from assms(2) Pair t r obtain w3 where l: "log_start req rid c1 w2 = Some w3"
    by (cases "log_start req rid c1 w2") (auto simp: Do_def)
  ultimately have "P Idle (c1, w3)" by (rule log_start_keeps)
  from prom_keeps [OF this] assms(2) Pair t r l show ?thesis
    by (auto simp: Do_def Let_def elim: serve_keeps [rotated])
qed

lemma Get_keeps: "P Idle s \<Longrightarrow> Get e n url s = Some (ans, s') \<Longrightarrow> P Idle s'"
  by (auto simp: Get_def split: sum.splits dest: Do_keeps)

lemma Post_keeps: "P Idle s \<Longrightarrow> Post e n url ct body s = Some (ans, s') \<Longrightarrow> P Idle s'"
  by (auto simp: Post_def Let_def split: sum.splits dest: Do_keeps)

lemma fire_timers_keeps: "P Idle s \<Longrightarrow> P Idle (fire_timers e s)"
  by (auto simp: fire_timers_def split: prod.splits intro!: shared_step elim!: clock_keeps [rotated])

lemma run_requests_keeps: "P Idle s \<Longrightarrow> run_requests e n reqs s = Some (answers, s') \<Longrightarrow> P Idle s'"
proof (induction reqs arbitrary: s answers)
  case (Cons req reqs)
  from Cons.prems(2) obtain ans req1 s1 where d: "Do e n req s = Some (ans, req1, s1)"
    by (cases "Do e n req s") auto
  note s1 = fire_timers_keeps [OF Do_keeps [OF Cons.prems(1) d]]
  from Cons.prems(2) d Cons.IH [OF s1] show ?case by (auto simp: bind_eq_Some_conv)
qed simp

end

subsection \<open>What the steps change of the outside world\<close>

lemma ask_limiter_world:
  assumes "ask_limiter e req (c, w) = Some (r, s')"
  obtains t w1 ls where "clock e w = (t, w1)" "s' = (c, w1\<lparr>w_limiters := ls\<rparr>)"
proof -
  obtain t w1 where t: "clock e w = (t, w1)" by (cases "clock e w")
  with assms obtain ls where "s' = (c, w1) \<or> s' = (c, w1\<lparr>w_limiters := ls\<rparr>)"
    by (auto simp: ask_limiter_def simp del: Limiter_Allow.simps split: option.splits)
  then show ?thesis using that [OF t] that [OF t, of "w_limiters w1"] by auto
qed

lemma decide_retry_world:
  assumes "decide_retry e res attempt (c, w) = Some (d, s')"
  obtains t w1 where "clock e w = (t, w1)" "s' = (c, w1\<lparr>w_out := snd (e_rand e (w_out w1))\<rparr>)"
  using assms by (auto simp: decide_retry_def Let_def split: prod.splits)

lemma ask_budget_world:
  assumes "ask_budget e (c, w) = (ok, s')"
  obtains (none) "s' = (c, w)" | (asked) t w1 rb where "clock e w = (t, w1)" "s' = (c\<lparr>c_retryBudget := rb\<rparr>, w1)"
  using assms by (auto simp: ask_budget_def split: option.splits prod.splits)

lemma new_request_id_world:
  assumes "new_request_id (c, w) = (rid, s')"
  obtains (none) "s' = (c, w)"
  | (made) d gen where "c_debug c = Some d" "dc_RequestIDGen d = Some gen" "s' = (c, w\<lparr>w_out := snd (gen (w_out w))\<rparr>)"
  using assms by (auto simp: new_request_id_def split: option.splits prod.splits if_splits)

text \<open>
  A property that every reading of the clock, the random generator and the like keeps, whatever happens
  to the breaker, the budget and the shared tables, is a client invariant at all stages alike.
\<close>

locale plain_invariant =
  fixes e :: "'x env" and Q :: "'x state \<Rightarrow> bool"
  assumes clock_plain: "Q (c, w) \<Longrightarrow> clock e w = (t, w') \<Longrightarrow> Q (c, w')"
    and prom_plain: "Q (c, w) \<Longrightarrow> Q (c, on_prom f w)"
    and log_plain: "Q (c, w) \<Longrightarrow> CHR ''%'' \<notin> set msg \<Longrightarrow> args \<noteq> [] \<Longrightarrow> Q (c, log_line flag level msg args c w)"
    and rand_plain: "Q (c, w) \<Longrightarrow> Q (c, w\<lparr>w_out := snd (e_rand e (w_out w))\<rparr>)"
    and sleep_plain: "Q (c, w) \<Longrightarrow> Q (c, w\<lparr>w_out := e_sleep e d (w_out w)\<rparr>)"
    and gen_plain: "Q (c, w) \<Longrightarrow> c_debug c = Some dc \<Longrightarrow> dc_RequestIDGen dc = Some gen \<Longrightarrow>
        Q (c, w\<lparr>w_out := snd (gen (w_out w))\<rparr>)"
    and send_plain: "Q (c, w) \<Longrightarrow> executeMiddleware c req (w_out w) = Some (res, req', x) \<Longrightarrow> Q (c, w\<lparr>w_out := x\<rparr>)"
    and objects_plain: "Q (c, w) \<Longrightarrow> Q (c, w\<lparr>w_limiters := ls\<rparr>)" "Q (c, w) \<Longrightarrow> Q (c, w\<lparr>w_caches := m\<rparr>)"
    and breaker_plain: "Q (c, w) \<Longrightarrow> Q (c\<lparr>c_circuitBreaker := cb\<rparr>, w)"
    and budget_plain: "Q (c, w) \<Longrightarrow> Q (c\<lparr>c_retryBudget := rb\<rparr>, w)"
    and shared_plain: "Q (c, w) \<Longrightarrow>
        Q (c\<lparr>c_deduplication := dt, c_singleFlight := sf, c_singleFlightGroup := grp\<rparr>, w)"

sublocale plain_invariant \<subseteq> client_invariant e "\<lambda>_. Q"
proof unfold_locales
  fix s s' and req :: request and ok key
  assume "Q s" and "ask_limiter e req s = Some ((ok, key), s')"
  then show "Q s'"
    by (cases s) (auto elim!: ask_limiter_world intro!: objects_plain elim: clock_plain)
next
  fix s s' ok
  assume "Q s" and "ask_breaker e s = (ok, s')"
  then show "Q s'"
    by (cases s) (auto simp: ask_breaker_def split: prod.splits intro!: breaker_plain elim: clock_plain)
next
  fix s and req :: request and ep rid res
  assume "Q s"
  then show "Q (record_outcome e req ep rid res s)"
    by (cases s) (auto simp: record_outcome_def Let_def split: prod.splits
        intro!: breaker_plain prom_plain log_plain elim: clock_plain)
next
  fix s s' res attempt dec
  assume "Q s" and "decide_retry e res attempt s = Some (dec, s')"
  then show "Q s'" by (cases s) (auto elim!: decide_retry_world intro!: rand_plain elim: clock_plain)
next
  fix s s' ok
  assume "Q s" and "ask_budget e s = (ok, s')"
  then show "Q s'" by (cases s) (auto elim!: ask_budget_world intro!: budget_plain elim: clock_plain)
next
  fix s s' rid
  assume "Q s" and "new_request_id s = (rid, s')"
  then show "Q s'" by (cases s) (auto elim!: new_request_id_world intro: gen_plain)
qed (fact clock_plain prom_plain log_plain sleep_plain send_plain objects_plain shared_plain)+

end
