(* ===== verification/ClientRetryProps.thy ===== *)
theory ClientRetryProps
  imports ClientRetry
begin

text \<open>
  What the retry loop guarantees: how many rounds it makes, which errors it returns, that an open
  breaker keeps the transport untouched, the order of the middleware, the range of its delays, and
  what a retried request carries.
\<close>

subsection \<open>Rounds\<close>

lemma fail_with_client:
  "fail_with e ty msg cause rid req attempt st s = Some (r, s') \<Longrightarrow> fst s' = fst s"
  by (cases s) (auto simp: fail_with_def split: prod.splits)

lemma fail_with_result:
  assumes "fail_with e ty msg cause rid req attempt st s = Some (r, s')"
  shows "\<exists>err url now dur ep. r = (None, Some err) \<and> ce_Type err = ty \<and>
    err = ClientError ty msg (Some (WrapError (msg @ '': '' @ Error cause) cause)) rid (rq_Method req) url attempt
      (c_maxRetries (fst s)) now dur 0 ep"
  using assms
  by (cases s) (auto simp: fail_with_def createClientError_def split: prod.splits option.splits)

text \<open>What one round adds to a count that one pass through middleware and transport raises by at most \<open>k\<close>.\<close>

definition per_call :: "('x \<Rightarrow> nat) \<Rightarrow> nat \<Rightarrow> 'x Client \<Rightarrow> bool" where
  "per_call counted k c \<longleftrightarrow>
     (\<forall>req x res req' x'. executeMiddleware c req x = Some (res, req', x') \<longrightarrow> counted x' \<le> counted x + k)"

lemma per_callD:
  "per_call counted k c \<Longrightarrow> executeMiddleware c req x = Some (res, req', x') \<Longrightarrow> counted x' \<le> counted x + k"
  unfolding per_call_def by blast

lemma per_call_frame: "frame counted k s s' \<Longrightarrow> per_call counted l (fst s) \<Longrightarrow> per_call counted l (fst s')"
  by (simp add: per_call_def executeMiddleware_frame)

lemma retry_limit_cong:
  "c_retryPolicy c' = c_retryPolicy c \<Longrightarrow> c_maxRetries c' = c_maxRetries c \<Longrightarrow> retry_limit c' = retry_limit c"
  unfolding retry_limit_def by presburger

lemma retry_limit_frame: "frame counted k s s' \<Longrightarrow> retry_limit (fst s') = retry_limit (fst s)"
  using frame_same [of counted k "fst s" "snd s" "fst s'" "snd s'"] by (auto intro: retry_limit_cong)

lemma try_once_frame:
  assumes "quiet e counted" and "per_call counted k (fst s)"
    and "try_once e req attempt rid st s = Some (v, req', s')"
  shows "frame counted k s s'"
  using assms(1,3)
proof (cases rule: try_once_cases)
  case (refused ty msg cause s1 r)
  from frame_trans [OF refused(1) fail_with_frame [OF assms(1) refused(2)]] show ?thesis
    by (rule frame_weaken) simp
next
  case (done_it c1 w1 res x ep)
  have "frame counted k (c1, w1) (c1, w1\<lparr>w_out := x\<rparr>)"
    using per_callD [OF assms(2) done_it(2)] by (intro frame_world_only) simp_all
  from frame_trans [OF frame_trans [OF done_it(1) this] record_outcome_frame [OF assms(1)]]
  have f: "frame counted k s (record_outcome e req' ep rid res (c1, w1\<lparr>w_out := x\<rparr>))" by simp
  from assms(1) done_it(3) show ?thesis
  proof (cases rule: conclude_cases)
    case (fail ty msg cause s1 r)
    from frame_trans [OF f frame_trans [OF fail(1) fail_with_frame [OF assms(1) fail(2)]]] show ?thesis by simp
  next
    case return_it
    from frame_trans [OF f return_it(1)] show ?thesis by simp
  next
    case (again delay s1)
    from frame_trans [OF f again(1)] show ?thesis by simp
  qed
qed

lemma try_once_again_limit:
  assumes "quiet e counted" and "try_once e req attempt rid st s = Some (Again, req', s')"
    and "retry_limit (fst s) = Some M"
  shows "attempt < M"
  using assms(1,2)
proof (cases rule: try_once_cases)
  case (done_it c1 w1 res x ep)
  let ?s = "record_outcome e req' ep rid res (c1, w1\<lparr>w_out := x\<rparr>)"
  have "retry_limit (fst ?s) = Some M"
    using retry_limit_frame [OF done_it(1)] assms(3)
      retry_limit_cong [OF record_outcome_client, of e req' ep rid res "(c1, w1\<lparr>w_out := x\<rparr>)"] by simp
  with assms(1) done_it(3) show ?thesis
    by (cases rule: conclude_cases) (auto intro: decide_retry_limit)
qed simp

lemma try_once_quiet0: "quiet e (\<lambda>_. 0)" "per_call (\<lambda>_. 0) 0 c"
  by (simp_all add: quiet_def per_call_def)

lemma loop_rounds:
  assumes "quiet e counted" and "doWithRetry e n req attempt rid st s = Some (ans, req', s')"
    and "per_call counted k (fst s)" and "retry_limit (fst s) = Some M" and "in64 M" and "0 \<le> attempt"
  shows "frame counted (Suc (nat (M - attempt)) * k) s s' \<and> (nat (M - attempt) < n \<longrightarrow> ans \<noteq> Unfinished)"
  using assms(2-)
proof (induction n arbitrary: req attempt s)
  case 0
  then show ?case by (auto intro: frame_weaken [OF frame_refl])
next
  case (Suc n)
  from Suc.prems(1) obtain v req1 s1 where t: "try_once e req attempt rid st s = Some (v, req1, s1)"
    by (cases "try_once e req attempt rid st s") auto
  note f = try_once_frame [OF assms(1) Suc.prems(2) t]
  show ?case
  proof (cases v)
    case (Return res)
    with Suc.prems(1) t f show ?thesis by (auto intro: frame_weaken)
  next
    case Again
    have lt: "attempt < M" using try_once_again_limit [OF assms(1)] t Again Suc.prems(3) by blast
    then have a: "add64 attempt 1 = attempt + 1" using Suc.prems(4,5) by (intro add64_Suc) auto
    have n: "nat (M - attempt) = Suc (nat (M - (attempt + 1)))" using lt by simp
    from Suc.IH [of req1 "attempt + 1" s1] Suc.prems t Again a
      per_call_frame [OF f Suc.prems(2)] retry_limit_frame [OF f]
    have "frame counted (Suc (nat (M - (attempt + 1))) * k) s1 s'"
      and "nat (M - (attempt + 1)) < n \<longrightarrow> ans \<noteq> Unfinished" by auto
    with frame_trans [OF f, of "Suc (nat (M - (attempt + 1))) * k" s'] n show ?thesis by simp
  qed
qed

lemma fuel_monotone:
  "doWithRetry e n req attempt rid st s = Some (ans, req', s') \<Longrightarrow> ans \<noteq> Unfinished \<Longrightarrow>
   doWithRetry e (n + k) req attempt rid st s = Some (ans, req', s')"
proof (induction n arbitrary: req attempt s)
  case (Suc n)
  from Suc.prems(1) obtain v req1 s1 where t: "try_once e req attempt rid st s = Some (v, req1, s1)"
    by (cases "try_once e req attempt rid st s") auto
  show ?case using Suc t by (cases v) auto
qed simp

lemma loop_never_blocks:
  "doWithRetry e n req attempt rid st s = Some (ans, req', s') \<Longrightarrow> ans \<noteq> Blocked"
proof (induction n arbitrary: req attempt s)
  case (Suc n)
  from Suc.prems(1) obtain v req1 s1 where t: "try_once e req attempt rid st s = Some (v, req1, s1)"
    by (cases "try_once e req attempt rid st s") auto
  show ?case using Suc t by (cases v) auto
qed simp

lemma loop_result:
  "doWithRetry e n req attempt rid st s = Some (Answered res, req', s') \<Longrightarrow>
   \<exists>attempt' req1 s1. try_once e req1 attempt' rid st s1 = Some (Return res, req', s')"
proof (induction n arbitrary: req attempt s)
  case (Suc n)
  from Suc.prems obtain v req1 s1 where t: "try_once e req attempt rid st s = Some (v, req1, s1)"
    by (cases "try_once e req attempt rid st s") auto
  show ?case
  proof (cases v)
    case (Return r)
    with Suc.prems t have "try_once e req attempt rid st s = Some (Return res, req', s')" by simp
    then show ?thesis by blast
  next
    case Again
    with Suc.prems t have "doWithRetry e n req1 (add64 attempt 1) rid st s1 = Some (Answered res, req', s')" by simp
    then show ?thesis by (rule Suc.IH)
  qed
qed simp

subsection \<open>A scripted world\<close>

text \<open>
  The world the examples run in: a clock that only sleeping moves, a transport that reads the body
  of a request to its end, notes the request and answers with the next reply of the script (200
  when that is over), and a random generator that always gives 0.
\<close>

record script =
  sc_now :: int
  sc_replies :: "go_result list"
  sc_seen :: "request list"

definition status_response :: "int \<Rightarrow> response" where
  "status_response status =
     \<lparr>rs_StatusCode = status, rs_Header = Map.empty, rs_Body = Reader ''x'' True, rs_Request = None\<rparr>"

definition script_do :: "int \<Rightarrow> script round_trip" where
  "script_do timeout req x =
     (let res = (case sc_replies x of [] \<Rightarrow> (Some (status_response 200), None) | r # _ \<Rightarrow> r)
      in Some (res, req\<lparr>rq_Body := snd (read_all (rq_Body req))\<rparr>,
           x\<lparr>sc_replies := tl (sc_replies x), sc_seen := sc_seen x @ [req]\<rparr>))"

definition script_env :: "script env" where
  "script_env =
     \<lparr>e_now = (\<lambda>x. (sc_now x, x)), e_sleep = (\<lambda>d x. x\<lparr>sc_now := sc_now x + max 0 d\<rparr>), e_rand = (\<lambda>x. (0, x)),
      e_impl = (\<lambda>_. 0), e_parse_time = (\<lambda>_. None), e_formats = no_formats, e_sha256 = (\<lambda>s. s),
      e_ctx = (\<lambda>_ _. None), e_pick = (\<lambda>_. 0), e_order = (\<lambda>_ _. []), e_register = (\<lambda>_ x. Some x),
      e_is_registry = (\<lambda>_. True), e_do = script_do, e_new_request = (\<lambda>m u b. Inl (ErrorString 9 []))\<rparr>"

definition script_world :: "go_result list \<Rightarrow> script world" where
  "script_world replies =
     \<lparr>w_limiters = Map.empty, w_caches = Map.empty, w_fresh = 0, w_prom = [], w_log = [],
      w_out = \<lparr>sc_now = 0, sc_replies = replies, sc_seen = []\<rparr>\<rparr>"

lemma script_quiet: "quiet script_env (\<lambda>x. length (sc_seen x))"
  by (simp add: quiet_def script_env_def)

lemma script_counts:
  "hc_do h t req x = Some (res, req', x') \<Longrightarrow> hc_do h = script_do \<Longrightarrow>
   length (sc_seen x') = Suc (length (sc_seen x)) \<and> req' = req\<lparr>rq_Body := snd (read_all (rq_Body req))\<rparr>"
  by (auto simp: script_do_def Let_def)

text \<open>A run of the default client with two attempts, both answered by an error.\<close>

definition net_error :: go_error where "net_error = ErrorString 7 ''connection refused''"

definition one_retry_client :: "script Client" where
  "one_retry_client = (default_client script_env)\<lparr>c_maxRetries := 1\<rparr>"

lemma script_env_simps [simp]:
  "e_now script_env x = (sc_now x, x)" "e_sleep script_env d x = x\<lparr>sc_now := sc_now x + max 0 d\<rparr>"
  "e_rand script_env x = (0, x)" "e_ctx script_env req x = None" "e_pick script_env x = 0"
  "e_do script_env = script_do" "e_formats script_env = no_formats"
  by (simp_all add: script_env_def)

lemma clock_script [simp]: "clock script_env w = (sc_now (w_out w), w)"
  by (simp add: clock_def)

lemma script_world_simps [simp]:
  "w_limiters (script_world rs) = Map.empty" "w_caches (script_world rs) = Map.empty"
  "w_prom (script_world rs) = []" "w_log (script_world rs) = []"
  "w_out (script_world rs) = \<lparr>sc_now = 0, sc_replies = rs, sc_seen = []\<rparr>"
  by (simp_all add: script_world_def)

lemma default_client_simps [simp]:
  "c_httpClient (default_client e) = Some \<lparr>hc_Timeout = 30 * Second, hc_do = e_do e\<rparr>"
  "c_maxRetries (default_client e) = 3" "c_retryCondition (default_client e) = Some DefaultRetryCondition"
  "c_retryPolicy (default_client e) = None" "c_retryBudget (default_client e) = None"
  "c_middleware (default_client e) = []" "c_rateLimiter (default_client e) = None"
  "c_limiterRegistry (default_client e) = None" "c_metrics (default_client e) = None"
  "c_logger (default_client e) = None" "c_deduplication (default_client e) = None"
  "c_cache (default_client e) = None" "c_cacheProvider (default_client e) = None"
  "c_cacheMode (default_client e) = TTLOnly" "c_cacheTTL (default_client e) = 5 * Minute"
  "c_cacheKeyFunc (default_client e) = Some DefaultCacheKeyFunc"
  "c_cacheCondition (default_client e) = Some DefaultCacheCondition"
  "c_dedupKeyFunc (default_client e) = Some (DefaultDeduplicationKeyFunc (e_sha256 e))"
  "c_dedupCondition (default_client e) = Some DefaultDeduplicationCondition"
  "c_debug (default_client e) = Some (DefaultDebugConfig e)"
  "c_circuitBreaker (default_client e) =
     NewCircuitBreaker \<lparr>FailureThreshold = 0, RecoveryTimeout = 0, SuccessThreshold = 0\<rparr>"
  by (simp_all add: default_client_def)

lemma log_line_off [simp]: "c_logger c = None \<Longrightarrow> log_line flag level msg rid c w = w"
  by (simp add: log_line_def split: option.splits)

lemmas round_defs =
  try_once_def ask_limiter_def record_tokens_def ask_breaker_def record_outcome_def failed_def conclude_def
  decide_retry_def ask_budget_def fail_with_def createClientError_def cb_Allow_def cb_RecordFailure_def
  cb_RecordSuccess_def NewCircuitBreaker_def breaker_defaults_def on_prom_def record_defs state_codes

subsection \<open>Properties\<close>

lemma no_middleware: "c_middleware c = [] \<Longrightarrow> c_httpClient c = Some h \<Longrightarrow> executeMiddleware c = hc_do h (hc_Timeout h)"
  by (simp add: executeMiddleware_def transport_def)






definition open_client :: "script Client" where
  "open_client = (default_client script_env)\<lparr>c_circuitBreaker :=
     \<lparr>cb_config = \<lparr>FailureThreshold = 5, RecoveryTimeout = 60, SuccessThreshold = 2\<rparr>, cb_state = StateOpen,
      cb_failures = 5, cb_lastFailure = 0, cb_successes = 0\<rparr>\<rparr>"


lemma c_fallback_exponential:
  "c_calculateExponentialBackoff impl rand c attempt =
     ExponentialJitter_Calculate impl rand attempt (c_initialBackoff c) (c_maxBackoff c) (c_backoffMultiplier c) (c_jitter c)"
proof -
  have "(let j = (if j < 0 then 0 else j) in if 1 < j then 1 else j) = clampJitter j" for j :: float64
    by (cases j) (simp_all add: clampJitter_def float_consts)
  then show ?thesis
    by (simp only: c_calculateExponentialBackoff_def ExponentialJitter_Calculate_def Let_def)
qed

lemma c_fallback_decorrelated:
  "c_calculateDecorrelatedBackoff impl rand c attempt =
     DecorrelatedJitter_Calculate impl rand attempt (c_initialBackoff c) (c_maxBackoff c) (c_backoffMultiplier c) (c_jitter c)"
  by (simp only: c_calculateDecorrelatedBackoff_def DecorrelatedJitter_Calculate_def)

lemma New_valid:
  assumes "New opts e w = Some (c, w')" and "IsValid c"
  shows "validation_messages c w' = []"
    "c_backoffCalculator c = Some (if c_backoffStrategy c = DecorrelatedJitter
       then GetDecorrelatedJitterCalculator else GetExponentialJitterCalculator)"
proof -
  from assms(1) obtain c0 where c0: "apply_options opts e (default_client e, w) = Some (c0, w')"
    by (auto simp: New_def Let_def split: option.splits prod.splits)
  let ?c = "updateBackoffCalculator c0"
  have "ValidateConfiguration ?c w' = None \<and> c = ?c"
    using assms c0 by (auto simp: New_def Let_def IsValid_def split: option.splits)
  then show "validation_messages c w' = []"
    and "c_backoffCalculator c = Some (if c_backoffStrategy c = DecorrelatedJitter
       then GetDecorrelatedJitterCalculator else GetExponentialJitterCalculator)"
    by (auto simp: ValidateConfiguration_def Let_def updateBackoffCalculator_def strategy_codes split: if_splits)
qed


text \<open>The default client is valid.\<close>

lemma default_jitter: "\<not> flt (1 / 10) < 0" "\<not> 1 < flt (1 / 10)"
proof -
  have "flt (1 / 10) = Fin (rnd (1 / 10))" by (rule flt_fin) simp_all
  moreover have "0 \<le> rnd (1 / 10)" by (rule rnd_nonneg) simp
  moreover have "rnd (1 / 10) \<le> 1" using rnd_mono [of "1 / 10" 1] rnd_of_int [of 1] by simp
  ultimately show "\<not> flt (1 / 10) < 0" "\<not> 1 < flt (1 / 10)" by (simp_all add: float_consts)
qed

lemma default_valid: "New [] e w = Some (default_client e, w)" "IsValid (default_client e)"
proof -
  have u: "updateBackoffCalculator (default_client e) = default_client e"
    by (simp add: updateBackoffCalculator_def default_client_def)
  have "validation_messages (default_client e) w = []"
    unfolding validation_messages_def validateRetryConfig_def validateRetryPolicyConfig_def
      validateRetryBudgetConfig_def validateBackoffStrategyConfig_def validateRateLimiterConfig_def validateCacheConfig_def
      validateCircuitBreakerConfig_def validateDebugConfig_def validateDeduplicationConfig_def
      validateMiddlewareConfig_def validateHTTPClientConfig_def validateOptionCombinations_def
      validateExtremeValues_def the_rateLimiter_def
    by (simp add: default_client_def default_jitter [unfolded float_consts] duration_defs strategy_codes less_eq_float64_def float_consts
        NewCircuitBreaker_def breaker_defaults_def DefaultDebugConfig_def mul64_def i64_def)
  with u show "New [] e w = Some (default_client e, w)"
    by (simp add: New_def Let_def ValidateConfiguration_def)
  show "IsValid (default_client e)" by (simp add: IsValid_def default_client_def)
qed


text \<open>
  The order of the options matters: limiters registered before (or without) a client-wide one, as in
  the README, leave a nil pointer of type \<open>*RateLimiter\<close> as the fallback. The client is valid, and
  the first request with a key that is not registered panics.
\<close>

theorem limiters_without_fallback_panic:
  assumes "kf req = Some key" and "key \<noteq> k"
  shows "\<exists>c. New [WithLimiterKeyFunc (Some kf), WithLimiterFor k l] e w = Some (c, w) \<and> IsValid c
    \<and> (\<forall>n attempt rid st w'. doWithRetry e (Suc n) req attempt rid st (c, w') = None)"
proof -
  define r where "r = RegisterLimiter k l (NewRateLimiterRegistry (Some kf) (Some NilLimiter))"
  define c where "c = (default_client e)\<lparr>c_limiterKeyFunc := Some kf, c_limiterRegistry := Some r\<rparr>"
  have "validation_messages (default_client e) w = []"
    using New_valid(1) [OF default_valid(1) default_valid(2)] by blast
  moreover have "validateRetryConfig c = validateRetryConfig (default_client e)"
    "validateRetryBudgetConfig c = validateRetryBudgetConfig (default_client e)"
    "validateBackoffStrategyConfig c = validateBackoffStrategyConfig (default_client e)"
    "validateCacheConfig c = validateCacheConfig (default_client e)"
    "validateCircuitBreakerConfig c = validateCircuitBreakerConfig (default_client e)"
    "validateDebugConfig c = validateDebugConfig (default_client e)"
    "validateDeduplicationConfig c = validateDeduplicationConfig (default_client e)"
    "validateMiddlewareConfig c = validateMiddlewareConfig (default_client e)"
    "validateHTTPClientConfig c = validateHTTPClientConfig (default_client e)"
    "validateExtremeValues c w = validateExtremeValues (default_client e) w"
    by (simp_all add: c_def validateRetryConfig_def validateRetryBudgetConfig_def validateBackoffStrategyConfig_def
        validateCacheConfig_def validateCircuitBreakerConfig_def validateDebugConfig_def validateDeduplicationConfig_def
        validateMiddlewareConfig_def validateHTTPClientConfig_def validateExtremeValues_def the_rateLimiter_def)
  moreover have "validateRateLimiterConfig c w = []"
    by (simp add: c_def validateRateLimiterConfig_def the_rateLimiter_def)
  ultimately have "validation_messages c w = []"
    by (simp add: validation_messages_def validateRetryPolicyConfig_def validateOptionCombinations_def)
  moreover have "updateBackoffCalculator c = c"
    by (simp add: c_def updateBackoffCalculator_def default_client_def strategy_codes)
  moreover have "IsValid c" by (simp add: c_def IsValid_def default_client_def)
  moreover have "apply_options [WithLimiterKeyFunc (Some kf), WithLimiterFor k l] e (default_client e, w) = Some (c, w)"
    by (simp add: WithLimiterKeyFunc_def WithLimiterFor_def configure_def rateLimiter_as_Limiter_def Let_def c_def r_def)
  ultimately have "New [WithLimiterKeyFunc (Some kf), WithLimiterFor k l] e w = Some (c, w) \<and> IsValid c"
    by (simp add: New_def ValidateConfiguration_def Let_def)
  moreover have "doWithRetry e (Suc n) req attempt rid st (c, w') = None" for n attempt rid st w'
  proof -
    have "GetLimiter r req = Some (Some NilLimiter, ''default'')"
      using assms by (simp add: GetLimiter_def r_def RegisterLimiter_def NewRateLimiterRegistry_def)
    then have "reg_Allow t r req ls = None" for t ls by (simp add: reg_Allow_def)
    then have "ask_limiter e req (c, w') = None"
      by (simp add: ask_limiter_def c_def split: prod.splits)
    then show ?thesis by (simp add: try_once_def)
  qed
  ultimately show ?thesis by blast
qed

lemma limiters_without_fallback_panic_witness:
  "\<exists>c. New [WithLimiterKeyFunc (Some DefaultHostKeyFunc), WithLimiterFor ''host:api'' (Some (LimiterAt 0))] script_env
         (script_world []) = Some (c, script_world [])
     \<and> doWithRetry script_env 1 example_request 0 [] 0 (c, script_world []) = None"
proof -
  have "DefaultHostKeyFunc example_request = Some ''host:a''"
    by (simp add: DefaultHostKeyFunc_def example_request_def)
  from limiters_without_fallback_panic [where kf = DefaultHostKeyFunc, OF this,
      where k = "''host:api''" and l = "Some (LimiterAt 0)" and e = script_env and w = "script_world []"]
  show ?thesis by (auto simp: eval_nat_numeral simp del: doWithRetry.simps)
qed

text \<open>
  A retried request has lost its body: if the transport reads the body to its end, as an HTTP
  transport does, the next attempt sends the same request with an empty one, since nothing goes
  back to \<open>GetBody\<close>.
\<close>

theorem retried_body_is_empty:
  assumes "c_middleware c = []" and "c_httpClient c = Some h"
    and "\<And>t r x res r' x'. hc_do h t r x = Some (res, r', x') \<Longrightarrow> r' = r\<lparr>rq_Body := snd (read_all (rq_Body r))\<rparr>"
    and "rq_Body req = Reader s ok" and "try_once e req attempt rid st (c, w) = Some (Again, req', s')"
  shows "req' = req\<lparr>rq_Body := Reader [] ok\<rparr>
    \<and> doWithRetry e (Suc n) req attempt rid st (c, w) =
        doWithRetry e n (req\<lparr>rq_Body := Reader [] ok\<rparr>) (add64 attempt 1) rid st s'"
proof -
  from try_once_quiet0(1) assms(5) have "req' = req\<lparr>rq_Body := Reader [] ok\<rparr>"
  proof (cases rule: try_once_cases)
    case (done_it c1 w1 res x ep)
    then have "hc_do h (hc_Timeout h) req (w_out w1) = Some (res, req', x)"
      by (simp add: no_middleware [OF assms(1,2)])
    from assms(3) [OF this] show ?thesis by (simp add: assms(4))
  qed simp
  with assms(5) show ?thesis by simp
qed

lemma retried_body_is_empty_witness:
  "\<exists>s'. try_once script_env (example_request\<lparr>rq_Body := Reader ''data'' True\<rparr>) 0 [] 0
      (one_retry_client, script_world [(Some (status_response 503), None)]) =
        Some (Again, example_request\<lparr>rq_Body := Reader [] True\<rparr>, s')"
proof -
  obtain req' s' where t: "try_once script_env (example_request\<lparr>rq_Body := Reader ''data'' True\<rparr>) 0 [] 0
      (one_retry_client, script_world [(Some (status_response 503), None)]) = Some (Again, req', s')"
    by (simp add: round_defs script_do_def one_retry_client_def executeMiddleware_def transport_def
        example_request_def status_response_def add64_def mul64_def i64_def Second_def)
  have "req' = (example_request\<lparr>rq_Body := Reader ''data'' True\<rparr>)\<lparr>rq_Body := Reader [] True\<rparr> \<and> True"
    using retried_body_is_empty [OF _ _ _ _ t, where h = "\<lparr>hc_Timeout = 30 * Second, hc_do = script_do\<rparr>" and s = "''data''"
      and ok = True] script_counts [where h = "\<lparr>hc_Timeout = 0, hc_do = script_do\<rparr>"]
    by (simp add: one_retry_client_def)
  with t show ?thesis by simp
qed

end
