(* ===== verification/ClientProps.thy ===== *)
theory ClientProps
  imports Client ClientRetryProps
begin

text \<open>
  What a whole call of \<open>Do\<close> guarantees, and where its parts do not fit together: cache hits, modes
  in which a cache is never read or never filled, the owner of a deduplicated key that answers
  from the cache, and the gauge of requests in flight.
\<close>

subsection \<open>What the parts leave alone\<close>

definition quiet_debug :: "'x Client \<Rightarrow> bool" where
  "quiet_debug c \<longleftrightarrow> (case c_debug c of None \<Rightarrow> True | Some d \<Rightarrow> \<not> dc_Enabled d)"

lemma log_line_quiet [simp]: "quiet_debug c \<Longrightarrow> log_line flag level msg rid c w = w"
  by (auto simp: quiet_debug_def log_line_def split: option.splits)

lemma log_line_fields [simp]:
  "w_prom (log_line flag level msg rid c w) = w_prom w" "w_caches (log_line flag level msg rid c w) = w_caches w"
  "w_out (log_line flag level msg rid c w) = w_out w" "w_limiters (log_line flag level msg rid c w) = w_limiters w"
  by (simp_all add: log_line_def split: option.splits)

lemma on_prom_fields [simp]:
  "w_prom (on_prom f w) = f (w_prom w)" "w_caches (on_prom f w) = w_caches w" "w_out (on_prom f w) = w_out w"
  "w_limiters (on_prom f w) = w_limiters w"
  by (simp_all add: on_prom_def)

lemma clock_fields:
  "clock e w = (t, w') \<Longrightarrow> w_prom w' = w_prom w \<and> w_caches w' = w_caches w \<and> t = fst (e_now e (w_out w))
    \<and> w_limiters w' = w_limiters w"
  by (auto simp: clock_def split: prod.splits)

lemma clock_counted: "quiet e counted \<Longrightarrow> clock e w = (t, w') \<Longrightarrow> counted (w_out w') = counted (w_out w)"
  using clock_out by blast

lemma new_request_id_fields:
  "new_request_id (c, w) = (rid, c', w') \<Longrightarrow> c' = c \<and> w_prom w' = w_prom w \<and> w_caches w' = w_caches w"
  by (auto simp: new_request_id_def split: option.splits if_splits prod.splits)

lemma new_request_id_quiet [simp]: "quiet_debug c \<Longrightarrow> new_request_id (c, w) = ([], c, w)"
  by (auto simp: new_request_id_def quiet_debug_def split: option.splits)

lemma log_start_fields: "log_start req rid c w = Some w' \<Longrightarrow> w_prom w' = w_prom w \<and> w_caches w' = w_caches w"
  by (auto simp: log_start_def Let_def split: if_splits)

lemma log_start_quiet [simp]: "quiet_debug c \<Longrightarrow> log_start req rid c w = Some w"
  by (simp add: log_start_def)

text \<open>The loop, without counting.\<close>

lemma loop_frame:
  "doWithRetry e n req attempt rid st s = Some (ans, req', s') \<Longrightarrow> frame (\<lambda>_. 0) 0 s s'"
proof (induction n arbitrary: req attempt s)
  case (Suc n)
  from Suc.prems obtain v req1 s1 where t: "try_once e req attempt rid st s = Some (v, req1, s1)"
    by (cases "try_once e req attempt rid st s") auto
  note f = try_once_frame [OF try_once_quiet0 t]
  show ?case
  proof (cases v)
    case (Return res)
    with Suc.prems t f show ?thesis by simp
  next
    case Again
    with Suc.prems t have "frame (\<lambda>_. 0) 0 s1 s'" by (auto intro: Suc.IH)
    from frame_trans [OF f this] show ?thesis by simp
  qed
qed simp

text \<open>\<open>still\<close>: the collector is the same and no gauge of requests in flight has moved.\<close>

definition still :: "'x state \<Rightarrow> 'x state \<Rightarrow> bool" where
  "still s s' \<longleftrightarrow> c_metrics (fst s') = c_metrics (fst s) \<and>
     (known_metrics (fst s) \<longrightarrow> (\<forall>m p. in_flight m p (w_prom (snd s')) = in_flight m p (w_prom (snd s))))"

lemma still_refl [simp, intro]: "still s s"
  by (simp add: still_def)

lemma still_trans [trans]: "still s s' \<Longrightarrow> still s' s'' \<Longrightarrow> still s s''"
  by (simp add: still_def known_metrics_def)

lemma still_frame: "frame counted k s s' \<Longrightarrow> still s s'"
  using frame_client [of counted k s s'] by (auto simp: frame_def still_def)

lemma still_loop: "doWithRetry e n req attempt rid st s = Some (ans, req', s') \<Longrightarrow> still s s'"
  using loop_frame by (rule still_frame)

lemma still_prom: "w_prom w' = w_prom w \<Longrightarrow> c_metrics c' = c_metrics c \<Longrightarrow> still (c, w) (c', w')"
  by (simp add: still_def)

lemma still_record: "harmless f c \<Longrightarrow> still (c, w) (c, on_prom f w)"
  by (simp add: still_def harmless_def)

lemma with_cache_prom: "with_cache a f w = Some (r, w') \<Longrightarrow> w_prom w' = w_prom w"
  by (auto simp: with_cache_def bind_eq_Some_conv)

lemma provider_Get_prom: "provider_Get e p key w = Some (r, w') \<Longrightarrow> w_prom w' = w_prom w"
  by (cases p) (auto dest!: with_cache_prom clock_fields split: prod.splits)

lemma provider_Set_prom: "provider_Set e p key resp ttl w = Some (r, w') \<Longrightarrow> w_prom w' = w_prom w"
  by (cases p) (auto dest!: with_cache_prom clock_fields split: prod.splits)

lemma store_with_provider_still:
  "store_with_provider e key resp ttl s = Some (r, s') \<Longrightarrow> still s s'"
  by (cases s) (auto simp: store_with_provider_def bind_eq_Some_conv intro!: still_prom
      dest!: provider_Set_prom split: option.splits)

text \<open>What single flight itself changes of the client.\<close>

definition flight_only :: "'x Client \<Rightarrow> 'x Client \<Rightarrow> bool" where
  "flight_only c c' \<longleftrightarrow> (\<exists>f g. c' = c\<lparr>c_singleFlight := f, c_singleFlightGroup := g\<rparr>)"

lemma flight_only_updates:
  "flight_only c (c\<lparr>c_singleFlight := f\<rparr>)" "flight_only c (c\<lparr>c_singleFlightGroup := g\<rparr>)" "flight_only c c"
proof -
  have "c\<lparr>c_singleFlight := f\<rparr> = c\<lparr>c_singleFlight := f, c_singleFlightGroup := c_singleFlightGroup c\<rparr>"
    "c\<lparr>c_singleFlightGroup := g\<rparr> = c\<lparr>c_singleFlight := c_singleFlight c, c_singleFlightGroup := g\<rparr>"
    "c = c\<lparr>c_singleFlight := c_singleFlight c, c_singleFlightGroup := c_singleFlightGroup c\<rparr>" by simp_all
  then show "flight_only c (c\<lparr>c_singleFlight := f\<rparr>)" "flight_only c (c\<lparr>c_singleFlightGroup := g\<rparr>)" "flight_only c c"
    unfolding flight_only_def by blast+
qed

lemma singleFlightDo_cases:
  assumes "singleFlightDo e req key fn (c, w) = Some (ans, req', c', w')"
  obtains (waits) "flight_only c c'" "w' = w" "req' = req"
  | (runs) c0 c1 w1 where "flight_only c c0" "fn (c0, w) = Some (ans, req', c1, w1)" "flight_only c1 c'"
      "w_prom w' = w_prom w1" "w_caches w' = w_caches w1"
proof (cases "c_singleFlightEnabled c")
  case True
  obtain a own g where b: "grp_begin key (c_singleFlightGroup c) = ((a, own), g)"
    by (cases "grp_begin key (c_singleFlightGroup c)") auto
  show ?thesis
  proof (cases own)
    case False
    with True b assms show ?thesis by (auto simp: singleFlightDo_def flight_only_updates intro: waits)
  next
    case yes: True
    with True b assms obtain ans1 req1 c1 w1 where f: "fn (c\<lparr>c_singleFlightGroup := g\<rparr>, w) = Some (ans1, req1, c1, w1)"
      by (cases "fn (c\<lparr>c_singleFlightGroup := g\<rparr>, w)") (auto simp: singleFlightDo_def)
    obtain t w2 where t: "clock e w1 = (t, w2)" by (cases "clock e w1")
    with True yes b f assms clock_fields [OF t] have "ans1 = ans" "req1 = req'" "flight_only c1 c'"
      "w_prom w' = w_prom w1" "w_caches w' = w_caches w1"
      by (cases ans1; auto simp: singleFlightDo_def flight_only_updates)+
    with f show ?thesis by (intro runs [of "c\<lparr>c_singleFlightGroup := g\<rparr>" c1 w1]) (simp_all add: flight_only_updates)
  qed
next
  case False
  obtain a own g where b: "sf_begin key (c_singleFlight c) = ((a, own), g)"
    by (cases "sf_begin key (c_singleFlight c)") auto
  show ?thesis
  proof (cases own)
    case no: False
    with False b assms show ?thesis by (auto simp: singleFlightDo_def flight_only_updates intro: waits)
  next
    case yes: True
    with False b assms obtain ans1 req1 c1 w1 where f: "fn (c\<lparr>c_singleFlight := g\<rparr>, w) = Some (ans1, req1, c1, w1)"
      by (cases "fn (c\<lparr>c_singleFlight := g\<rparr>, w)") (auto simp: singleFlightDo_def)
    obtain t w2 where t: "clock e w1 = (t, w2)" by (cases "clock e w1")
    with False yes b f assms clock_fields [OF t] have "ans1 = ans" "req1 = req'" "flight_only c1 c'"
      "w_prom w' = w_prom w1" "w_caches w' = w_caches w1"
      by (cases ans1; auto simp: singleFlightDo_def flight_only_updates)+
    with f show ?thesis by (intro runs [of "c\<lparr>c_singleFlight := g\<rparr>" c1 w1]) (simp_all add: flight_only_updates)
  qed
qed

lemma still_flight: "flight_only c c' \<Longrightarrow> w_prom w' = w_prom w \<Longrightarrow> still (c, w) (c', w')"
  by (auto simp: flight_only_def intro: still_prom)

lemma singleFlightDo_still:
  assumes "\<And>s s' ans req'. fn s = Some (ans, req', s') \<Longrightarrow> still s s'"
    and "singleFlightDo e req key fn (c, w) = Some (ans, req', c', w')"
  shows "still (c, w) (c', w')"
  using assms(2)
proof (cases rule: singleFlightDo_cases)
  case waits
  then show ?thesis by (simp add: still_flight)
next
  case (runs c0 c1 w1)
  have "still (c, w) (c0, w)" using runs(1) by (rule still_flight) simp
  also have "still \<dots> (c1, w1)" using runs(2) by (rule assms(1))
  also have "still \<dots> (c', w')" using runs(3,4) by (rule still_flight)
  finally show ?thesis .
qed

lemma store_log_still:
  "store_with_provider e key resp ttl s = Some (r, c', w') \<Longrightarrow> still s (c', log_line flag level msg rid c' w')"
  using store_with_provider_still [of e key resp ttl s] by (auto simp: still_def)

lemma flight_body_still:
  assumes "flight_body e n req st rid key s = Some (ans, req', s')"
  shows "still s s'"
proof -
  from assms obtain ans1 req1 c1 w1 where l: "doWithRetry e n req 0 rid st s = Some (ans1, req1, c1, w1)"
    by (cases "doWithRetry e n req 0 rid st s") (auto simp: flight_body_def)
  note still_loop [OF l]
  also have "still (c1, w1) s'"
    using assms l by (auto simp: flight_body_def bind_eq_Some_conv dest: store_log_still
        split: answer.splits option.splits if_splits)
  finally show ?thesis .
qed

lemma fetch_still:
  assumes "fetch e n req st rid enabled (c, w) = Some (skip, ans, req', c', w')"
  shows "still (c, w) (c', w')"
  using assms still_loop [of e n req 0 rid st "(c, w)"] singleFlightDo_still [OF flight_body_still]
  by (auto simp: fetch_def bind_eq_Some_conv split: if_splits)

lemma clock_still: "clock e w = (t, w') \<Longrightarrow> still (c, w) (c, w')"
  using clock_fields [of e w t w'] by (simp add: still_prom)

lemma log_line_still: "still (c, w) (c, log_line flag level msg rid c' w)"
  by (rule still_prom) simp_all

lemma store_response_still:
  assumes "store_response e req rid resp s = Some (resp', s')"
  shows "still s s'"
proof (cases s)
  case (Pair c w)
  show ?thesis
  proof (cases "c_cacheProvider c")
    case (Some p)
    with assms obtain w1 args where "w_prom w1 = w_prom w"
        "s' = (c, log_line dc_LogCache Debug ''Response cached via provider'' args c w1)"
      by (auto simp: store_response_def Pair bind_eq_Some_conv Let_def dest: provider_Set_prom)
    then show ?thesis by (simp add: Pair still_prom)
  next
    case None
    show ?thesis
    proof (cases "c_cache c")
      case None
      with assms \<open>c_cacheProvider c = None\<close> show ?thesis
        by (auto simp: store_response_def Pair bind_eq_Some_conv Let_def)
    next
      case (Some a)
      with assms \<open>c_cacheProvider c = None\<close> obtain t w1 obj w2 args where
        t: "clock e w = (t, w1)" "w_prom w2 = w_prom w1"
        "s' = (c, log_line dc_LogCache Debug ''Response cached'' args c
          (case obj of InMemory m \<Rightarrow> on_prom (RecordCacheSize (c_metrics c) ''default'' (int (imc_totalSize m))) w2
           | Optimized _ \<Rightarrow> w2))"
        by (cases "clock e w") (auto simp: store_response_def Pair bind_eq_Some_conv Let_def dest!: with_cache_prom)
      note clock_still [OF t(1)]
      also have "still (c, w1) (c, w2)" using t(2) by (simp add: still_prom)
      also have "still (c, w2) (c, case obj of
          InMemory m \<Rightarrow> on_prom (RecordCacheSize (c_metrics c) ''default'' (int (imc_totalSize m))) w2
        | Optimized _ \<Rightarrow> w2)"
        by (cases obj) (auto intro: still_record)
      also note log_line_still
      finally show ?thesis unfolding Pair t(3) .
    qed
  qed
qed

lemma complete_dedup_still:
  assumes "complete_dedup e req owner res s = Some s'"
  shows "still s s'"
proof (cases s)
  case (Pair c w)
  obtain t w1 where t: "clock e w = (t, w1)" by (cases "clock e w")
  with assms clock_fields [OF t] show ?thesis
    by (auto simp: Pair complete_dedup_def bind_eq_Some_conv split: option.splits if_splits intro!: still_prom)
qed

text \<open>\<open>moved k\<close>: the gauge of one method and endpoint has moved by \<open>k\<close>.\<close>

definition moved :: "int \<Rightarrow> string \<Rightarrow> string \<Rightarrow> 'x state \<Rightarrow> 'x state \<Rightarrow> bool" where
  "moved k m p s s' \<longleftrightarrow> c_metrics (fst s') = c_metrics (fst s) \<and>
     (c_metrics (fst s) = Some klayengo_vectors \<longrightarrow> (\<forall>m' p'. in_flight m' p' (w_prom (snd s')) =
        in_flight m' p' (w_prom (snd s)) + (if m' = m \<and> p' = p then k else 0)))"

lemma still_moved [trans]: "still s s' \<Longrightarrow> moved k m p s' s'' \<Longrightarrow> moved k m p s s''"
  by (auto simp: still_def moved_def known_metrics_def)

lemma moved_still [trans]: "moved k m p s s' \<Longrightarrow> still s' s'' \<Longrightarrow> moved k m p s s''"
  by (auto simp: still_def moved_def known_metrics_def)

lemma moved_back: "moved k m p s s' \<Longrightarrow> moved (- k) m p s' s'' \<Longrightarrow> moved 0 m p s s''"
  by (auto simp: moved_def)

lemma moved_start: "moved 1 m p (c, w) (c, on_prom (RecordRequestStart (c_metrics c) m p) w)"
  by (auto simp: moved_def)

lemma moved_end: "moved (- 1) m p (c, w) (c, on_prom (RecordRequestEnd (c_metrics c) m p) w)"
  by (auto simp: moved_def)

lemma finish_request_moved:
  assumes "finish_request e req ep st rid store owner res s = Some (res', s')"
  shows "moved (- 1) (rq_Method req) ep s s'"
proof (cases s)
  case (Pair c w)
  let ?w1 = "on_prom (RecordRequestEnd (c_metrics c) (rq_Method req) ep) w"
  obtain t w2 where t: "clock e ?w1 = (t, w2)" by (cases "clock e ?w1")
  let ?w3 = "on_prom (RecordRequest (c_metrics c) (rq_Method req) ep
    (case fst res of None \<Rightarrow> 0 | Some resp \<Rightarrow> rs_StatusCode resp) (time_sub t st)) w2"
  have "moved (- 1) (rq_Method req) ep (c, w) (c, ?w1)" by (rule moved_end)
  also have "still (c, ?w1) (c, w2)" using t by (rule clock_still)
  also have "still (c, w2) (c, ?w3)" by (rule still_record) simp
  also have "still (c, ?w3) s'"
  proof -
    show ?thesis using assms t
      by (auto simp: finish_request_def Pair bind_eq_Some_conv Let_def split: if_splits
          dest!: store_response_still complete_dedup_still intro: still_trans)
  qed
  finally show ?thesis unfolding Pair .
qed

lemma record_hit_moved:
  "moved (- 1) (rq_Method req) (getEndpointFromRequest req) (c, w) (c, record_hit e req st msg args status c w)"
proof -
  let ?ep = "getEndpointFromRequest req" let ?m = "rq_Method req"
  let ?w1 = "on_prom (RecordCacheHit (c_metrics c) ?m ?ep) (log_line dc_LogCache Debug msg args c w)"
  obtain t w2 where t: "clock e ?w1 = (t, w2)" by (cases "clock e ?w1")
  let ?w3 = "on_prom (RecordRequestEnd (c_metrics c) ?m ?ep) w2"
  have "still (c, w) (c, ?w1)"
    using still_trans [OF log_line_still still_record [OF harmless_records(8)]] by blast
  also have "still (c, ?w1) (c, w2)" using t by (rule clock_still)
  also have "moved (- 1) ?m ?ep (c, w2) (c, ?w3)" by (rule moved_end)
  also have "still (c, ?w3) (c, on_prom (RecordRequest (c_metrics c) ?m ?ep status (time_sub t st)) ?w3)"
    by (rule still_record) simp
  finally show ?thesis using t by (simp add: record_hit_def Let_def)
qed

definition legacy_http :: "'x Client \<Rightarrow> bool" where
  "legacy_http c \<longleftrightarrow> c_cacheMode c = HTTPSemantics \<and> c_cacheProvider c = None \<and> c_cache c \<noteq> None"

text \<open>A lookup misses, hits and records the end of the request, or hits in the mode that does not.\<close>

lemma lookup_cache_cases:
  assumes "lookup_cache e n req st rid (c, w) = Some (r, req', c', w')" and "\<not> legacy_http c"
  obtains (miss) enabled where "r = Inr enabled" "req' = req" "c' = c" "still (c, w) (c, w')"
  | (hit) resp where "r = Inl (Answered (Some resp, None))" "req' = req" "c' = c"
      "moved (- 1) (rq_Method req) (getEndpointFromRequest req) (c, w) (c, w')"
proof -
  let ?miss = "\<lambda>args w. log_line dc_LogCache Debug ''Cache miss'' args c
    (on_prom (RecordCacheMiss (c_metrics c) (rq_Method req) (getEndpointFromRequest req)) w)"
  have after: "still (c, w) (c, ?miss args w1)" if "w_prom w1 = w_prom w" for w1 args
    using still_trans [OF still_prom [OF that] still_trans [OF still_record [OF harmless_records(9)] log_line_still]] by simp
  have hits: "moved (- 1) (rq_Method req) (getEndpointFromRequest req) (c, w) (c, record_hit e req st msg args status c w1)"
    if "w_prom w1 = w_prom w" for w1 msg args status
    using still_moved [OF still_prom [OF that] record_hit_moved] by simp
  show ?thesis
  proof (cases "(c_cache c = None \<and> c_cacheProvider c = None) \<or> (\<exists>cond. c_cacheCondition c = Some cond \<and> \<not> cond req)")
    case True
    with assms(1) have "r = Inr False \<and> req' = req \<and> c' = c \<and> w' = w"
      by (auto simp: lookup_cache_def bind_eq_Some_conv split: if_splits)
    then show ?thesis by (intro miss) auto
  next
    case False
    with assms(1) obtain kf where kf: "c_cacheKeyFunc c = Some kf"
      by (auto simp: lookup_cache_def bind_eq_Some_conv split: if_splits)
    show ?thesis
    proof (cases "if c_cacheMode c = HTTPSemantics \<or> c_cacheMode c = SWR then c_cacheProvider c else None")
      case (Some p)
      with assms(1) False kf obtain found w1 where g: "provider_Get e p (kf req) w = Some (found, w1)"
        by (auto simp: lookup_cache_def bind_eq_Some_conv Let_def split: if_splits)
      show ?thesis
      proof (cases found)
        case None
        with assms(1) False kf Some g obtain args where "r = Inr True \<and> req' = req \<and> c' = c \<and> w' = ?miss args w1"
          by (auto simp: lookup_cache_def bind_eq_Some_conv Let_def)
        with after [OF provider_Get_prom [OF g]] show ?thesis by (intro miss) auto
      next
        case (Some resp)
        with assms(1) False kf \<open>(if _ then _ else _) = Some p\<close> g
        obtain args where "r = Inl (Answered (Some resp, None)) \<and> req' = req \<and> c' = c
            \<and> w' = record_hit e req st ''Cache provider hit'' args (rs_StatusCode resp) c w1"
          by (auto simp: lookup_cache_def bind_eq_Some_conv Let_def)
        with hits [OF provider_Get_prom [OF g]] show ?thesis by (intro hit) auto
      qed
    next
      case None
      show ?thesis
      proof (cases "c_cache c")
        case no: None
        with assms(1) False kf None obtain args where "r = Inr True \<and> req' = req \<and> c' = c \<and> w' = ?miss args w"
          by (auto simp: lookup_cache_def bind_eq_Some_conv Let_def)
        with after [of w] show ?thesis by (intro miss) auto
      next
        case (Some a)
        obtain t w1 where t: "clock e w = (t, w1)" by (cases "clock e w")
        from assms(1) False kf None Some t obtain found w2 where
          g: "with_cache a (\<lambda>obj. Some (obj_Get t (kf req) obj)) w1 = Some (found, w2)"
          by (auto simp: lookup_cache_def bind_eq_Some_conv Let_def split: if_splits)
        have w2: "w_prom w2 = w_prom w" using with_cache_prom [OF g] clock_fields [OF t] by simp
        show ?thesis
        proof (cases found)
          case no: None
          with assms(1) False kf None Some t g obtain args where "r = Inr True \<and> req' = req \<and> c' = c \<and> w' = ?miss args w2"
            by (auto simp: lookup_cache_def bind_eq_Some_conv Let_def)
          with after [OF w2] show ?thesis by (intro miss) auto
        next
          case entry: (Some entry)
          have "c_cacheMode c \<noteq> HTTPSemantics"
            using assms(2) Some None by (auto simp: legacy_http_def split: if_splits)
          with entry assms(1) False kf None Some t g
          obtain args where "r = Inl (Answered (Some (createResponseFromCache entry), None)) \<and> req' = req \<and> c' = c
              \<and> w' = record_hit e req st ''Cache hit'' args (ent_StatusCode entry) c w2"
            by (auto simp: lookup_cache_def bind_eq_Some_conv Let_def)
          with hits [OF w2] show ?thesis by (intro hit) auto
        qed
      qed
    qed
  qed
qed

text \<open>How \<open>Do\<close> begins, up to the deduplication.\<close>

lemma Do_begin:
  assumes "Do e n req (c, w) = Some (ans, req', s')"
  obtains st rid w1 where "moved 1 (rq_Method req) (getEndpointFromRequest req) (c, w) (c, w1)" "w_caches w1 = w_caches w"
    "serve e n req (getEndpointFromRequest req) st rid (c, w1) = Some (ans, req', s')"
proof -
  obtain st w1 where t: "clock e w = (st, w1)" by (cases "clock e w")
  obtain rid c1 w2 where r: "new_request_id (c, w1) = (rid, c1, w2)" by (cases "new_request_id (c, w1)") auto
  from assms t r obtain w3 where l: "log_start req rid c1 w2 = Some w3"
    by (cases "log_start req rid c1 w2") (auto simp: Do_def)
  note f = clock_fields [OF t] new_request_id_fields [OF r] log_start_fields [OF l]
  let ?w = "on_prom (RecordRequestStart (c_metrics c) (rq_Method req) (getEndpointFromRequest req)) w3"
  have "moved 1 (rq_Method req) (getEndpointFromRequest req) (c, w) (c, ?w)"
    using still_moved [OF still_prom moved_start, of w3 w c c] f by simp
  moreover have "w_caches ?w = w_caches w" using f by simp
  moreover have "serve e n req (getEndpointFromRequest req) st rid (c, ?w) = Some (ans, req', s')"
    using assms t r l f by (simp add: Do_def Let_def)
  ultimately show ?thesis by (rule that)
qed

subsection \<open>The gauge of requests in flight\<close>



text \<open>
  A caller that waits for a deduplicated request leaves the gauge one too high, whatever it gets:
  it records its start and never its end.
\<close>

theorem in_flight_leaks_for_waiters:
  assumes "c_metrics c = Some klayengo_vectors" and "c_deduplication c = Some dt"
    and "c_dedupCondition c = Some cond" and "cond req" and "c_dedupKeyFunc c = Some kf" and "kf req = Some k"
    and "dt_entries dt k = Some a" and "Do e n req (c, w) = Some (Answered res, req', c', w')"
  shows "in_flight (rq_Method req) (getEndpointFromRequest req) (w_prom w') =
    in_flight (rq_Method req) (getEndpointFromRequest req) (w_prom w) + 1"
  using assms(8)
proof (cases rule: Do_begin)
  case (1 st rid w1)
  let ?m = "rq_Method req" let ?p = "getEndpointFromRequest req"
  define dt' where "dt' = snd (GetOrCreateEntry k dt)"
  have g: "GetOrCreateEntry k dt = ((a, False), dt')" using assms(7) by (simp add: GetOrCreateEntry_def dt'_def Let_def)
  obtain t w2 where t: "clock e w1 = (t, w2)" by (cases "clock e w1")
  let ?c = "c\<lparr>c_deduplication := Some dt'\<rparr>"
  from 1(3) assms(2-6) g t obtain args where "w' = log_line (\<lambda>_. True) Debug ''Deduplication hit'' args ?c
      (on_prom (RecordDeduplicationHit (c_metrics ?c) ?m ?p)
        (on_prom (RecordRequest (c_metrics ?c) ?m ?p (case fst res of None \<Rightarrow> 0 | Some resp \<Rightarrow> rs_StatusCode resp)
          (time_sub t st)) w2))"
    by (auto simp: serve_def join_dedup_def Let_def split: list.splits)
  moreover have "w_prom w2 = w_prom w1" using clock_fields [OF t] by simp
  ultimately have "in_flight ?m ?p (w_prom w') = in_flight ?m ?p (w_prom w1)"
    using harmless_records(7) [of ?c ?m ?p] harmless_records(11) [of ?c ?m ?p] assms(1)
    by (simp add: harmless_def known_metrics_def)
  with 1(1) assms(1) show ?thesis by (simp add: moved_def)
qed

subsection \<open>Cache hits\<close>

text \<open>An entry that no reading of the clock finds expired, in the in-memory cache of a client in TTL mode.\<close>

definition cached :: "'x env \<Rightarrow> 'x state \<Rightarrow> request \<Rightarrow> CacheEntry \<Rightarrow> bool" where
  "cached e s req entry \<longleftrightarrow>
     (\<exists>a m cond kf. c_cache (fst s) = Some a \<and> w_caches (snd s) a = Some (InMemory m) \<and>
        c_cacheCondition (fst s) = Some cond \<and> cond req \<and> c_cacheKeyFunc (fst s) = Some kf \<and>
        imc_view m (kf req) = Some entry) \<and>
     c_cacheMode (fst s) = TTLOnly \<and> quiet_debug (fst s) \<and> (\<forall>x. fst (e_now e x) \<le> ent_ExpiresAt entry)"

lemma lookup_hit:
  assumes "quiet e counted" and "cached e (c, w) req entry"
  shows "\<exists>w'. lookup_cache e n req st rid (c, w) =
      Some (Inl (Answered (Some (createResponseFromCache entry), None)), req, c, w')
    \<and> counted (w_out w') = counted (w_out w) \<and> w_caches w' = w_caches w \<and> w_limiters w' = w_limiters w"
proof -
  from assms(2) obtain a m cond kf where h: "c_cache c = Some a" "w_caches w a = Some (InMemory m)"
    "c_cacheCondition c = Some cond" "cond req" "c_cacheKeyFunc c = Some kf" "imc_view m (kf req) = Some entry"
    "c_cacheMode c = TTLOnly" "quiet_debug c" "\<And>x. fst (e_now e x) \<le> ent_ExpiresAt entry"
    unfolding cached_def by auto
  obtain t w1 where t: "clock e w = (t, w1)" by (cases "clock e w")
  have f: "w_caches w1 = w_caches w" "w_limiters w1 = w_limiters w" "t \<le> ent_ExpiresAt entry"
    using clock_fields [OF t] h(9) by auto
  then have "imc_Get t (kf req) m = (Some entry, m)" using h(6) by (simp add: imc_Get_def imc_view_def Let_def)
  moreover have "(w_caches w1)(a \<mapsto> InMemory m) = w_caches w1" using h(2) f(1) by (simp add: fun_upd_idem)
  ultimately have g: "with_cache a (\<lambda>obj. Some (obj_Get t (kf req) obj)) w1 = Some (Some entry, w1)"
    using h(2) f(1) by (simp add: with_cache_def)
  let ?w = "on_prom (RecordCacheHit (c_metrics c) (rq_Method req) (getEndpointFromRequest req)) w1"
  obtain t' w2 where t': "clock e ?w = (t', w2)" by (cases "clock e ?w")
  show ?thesis
    using h g t t' clock_fields [OF t'] clock_counted [OF assms(1) t] clock_counted [OF assms(1) t'] f(1,2)
    by (auto simp: lookup_cache_def mode_defs record_hit_def Let_def)
qed

text \<open>
  A hit answers from the cache alone: without deduplication, a client in TTL mode whose in-memory
  cache holds an unexpired entry for the request returns its body, status and headers. The transport
  is not called, and neither the limiter, the breaker nor the cache is touched.
\<close>

theorem cache_hit_answers_alone:
  assumes "quiet e counted" and "cached e (c, w) req entry" and "c_deduplication c = None"
  shows "\<exists>w'. Do e n req (c, w) = Some (Answered (Some (createResponseFromCache entry), None), req, c, w')
    \<and> counted (w_out w') = counted (w_out w) \<and> w_caches w' = w_caches w \<and> w_limiters w' = w_limiters w"
proof -
  have q: "quiet_debug c" using assms(2) by (simp add: cached_def)
  obtain t w1 where t: "clock e w = (t, w1)" by (cases "clock e w")
  let ?w = "on_prom (RecordRequestStart (c_metrics c) (rq_Method req) (getEndpointFromRequest req)) w1"
  have "cached e (c, ?w) req entry" using assms(2) clock_fields [OF t] by (simp add: cached_def)
  from lookup_hit [OF assms(1) this, of n t "[]"] show ?thesis
    using q t assms(3) clock_fields [OF t] clock_counted [OF assms(1) t]
    by (auto simp: Do_def serve_def join_dedup_def Let_def)
qed

definition cached_client :: "script Client" where
  "cached_client = (default_client script_env)\<lparr>c_cache := Some 0\<rparr>"

definition cached_world :: "script world" where
  "cached_world = (script_world [])\<lparr>w_caches :=
     [0 \<mapsto> InMemory (imc_Set 0 ''GET:http://h/'' (plain_entry ''hello'') 50 NewInMemoryCache)]\<rparr>"

definition hello :: CacheEntry where
  "hello = (plain_entry ''hello'')\<lparr>ent_ExpiresAt := 50\<rparr>"

text \<open>The clock of the script at a fixed moment.\<close>

definition env_at :: "int \<Rightarrow> script env" where
  "env_at t = script_env\<lparr>e_now := \<lambda>x. (t, x)\<rparr>"

lemma quiet_env_at: "quiet (env_at t) (\<lambda>x. length (sc_seen x))"
  by (simp add: env_at_def quiet_def script_env_def)

lemma cached_hello:
  "t \<le> 50 \<Longrightarrow> c_cache c = Some 0 \<Longrightarrow> c_cacheCondition c = Some DefaultCacheCondition \<Longrightarrow>
   c_cacheKeyFunc c = Some DefaultCacheKeyFunc \<Longrightarrow> c_cacheMode c = TTLOnly \<Longrightarrow> quiet_debug c \<Longrightarrow>
   cached (env_at t) (c, cached_world) (get_request ''h'' ''/'') hello"
  using imc.set_view [OF NewInMemoryCache_valid(1), where now = 0 and ttl = 50 and k = "''GET:http://h/''"
      and e = "plain_entry ''hello''"]
  by (simp add: cached_def cached_world_def hello_def get_request_def DefaultCacheCondition_def DefaultCacheKeyFunc_def
      env_at_def)

lemma cache_hit_answers_alone_witness:
  "\<exists>w'. Do (env_at 7) 1 (get_request ''h'' ''/'') (cached_client, cached_world) =
      Some (Answered (Some (createResponseFromCache hello), None), get_request ''h'' ''/'', cached_client, w')
    \<and> sc_seen (w_out w') = []"
proof -
  have "cached (env_at 7) (cached_client, cached_world) (get_request ''h'' ''/'') hello"
    by (rule cached_hello) (simp_all add: cached_client_def quiet_debug_def DefaultDebugConfig_def)
  from cache_hit_answers_alone [OF quiet_env_at this] show ?thesis
    by (auto simp: cached_client_def cached_world_def)
qed

text \<open>The deduplication timers that are due.\<close>

definition fire_dedup :: "int \<Rightarrow> 'x Client \<Rightarrow> 'x Client" where
  "fire_dedup now c = c\<lparr>c_deduplication := map_option (dt_fire now) (c_deduplication c)\<rparr>"

text \<open>
  C36. Deduplication and the cache do not go together: a caller that becomes the owner of its key and is
  answered by the cache returns without completing its entry. From then on every other call with
  that key, at any time, whatever its world answers, waits for ever (unless its context ends).
\<close>

theorem cached_owner_blocks_key:
  assumes "cached e (c, w) req entry" and "c_deduplication c = Some dt"
    and "c_dedupCondition c = Some cond" and "cond req" and "c_dedupKeyFunc c = Some kf" and "kf req = Some k"
    and "dt_entries dt k = None" and "k \<notin> snd ` set (dt_timers dt)"
  shows "\<exists>c' w'. Do e n req (c, w) = Some (Answered (Some (createResponseFromCache entry), None), req, c', w')
    \<and> (\<forall>now e' n' req' w2. cond req' \<longrightarrow> kf req' = Some k \<longrightarrow> (\<forall>x. e_ctx e' req' x = None) \<longrightarrow>
        (\<exists>s. Do e' n' req' (fire_dedup now c', w2) = Some (Blocked, req', s)))"
proof -
  define dt' where "dt' = snd (GetOrCreateEntry k dt)"
  define a where "a = dt_fresh dt"
  have g: "GetOrCreateEntry k dt = ((a, True), dt')"
    using assms(7) by (simp add: GetOrCreateEntry_def dt'_def a_def Let_def)
  have dt': "dt_entries dt' k = Some a" "\<not> de_done (dt_heap dt' a)" "dt_timers dt' = dt_timers dt"
    using assms(7) by (simp_all add: GetOrCreateEntry_def dt'_def a_def Let_def)
  define c' where "c' = c\<lparr>c_deduplication := Some dt'\<rparr>"
  have q: "quiet_debug c" using assms(1) by (simp add: cached_def)
  then have q': "quiet_debug c'" by (simp add: c'_def quiet_debug_def)
  obtain t w1 where t: "clock e w = (t, w1)" by (cases "clock e w")
  let ?w = "on_prom (RecordRequestStart (c_metrics c) (rq_Method req) (getEndpointFromRequest req)) w1"
  have "cached e (c', ?w) req entry"
    using assms(1) clock_fields [OF t] by (simp add: cached_def c'_def quiet_debug_def)
  from lookup_hit [OF try_once_quiet0(1) this, of n t "[]"] obtain w' where
    "lookup_cache e n req t [] (c', ?w) = Some (Inl (Answered (Some (createResponseFromCache entry), None)), req, c', w')"
    by blast
  moreover have "join_dedup e req t [] (c, ?w) = Some (Inr (Some k), c', ?w)"
    using assms(2-6) g q' by (simp add: join_dedup_def Let_def c'_def)
  ultimately have "Do e n req (c, w) = Some (Answered (Some (createResponseFromCache entry), None), req, c', w')"
    using q t by (simp add: Do_def serve_def Let_def)
  moreover have "\<exists>s. Do e' n' req' (fire_dedup now c', w2) = Some (Blocked, req', s)"
    if r: "cond req'" "kf req' = Some k" "\<And>x. e_ctx e' req' x = None" for now e' n' req' w2
  proof -
    define d where "d = dt_fire now dt'"
    have "k \<notin> snd ` set (filter (\<lambda>(t, _). t \<le> now) (dt_timers dt'))" using assms(8) dt'(3) by auto
    then have d: "dt_entries d k = Some a" "\<not> de_done (dt_heap d a)"
      using dt' by (simp_all add: d_def dt_fire_def Let_def fold_delete_entries)
    let ?c = "fire_dedup now c'"
    have c: "c_deduplication ?c = Some d" "c_dedupCondition ?c = Some cond" "c_dedupKeyFunc ?c = Some kf" "quiet_debug ?c"
      using assms(3,5) q' by (simp_all add: fire_dedup_def c'_def d_def quiet_debug_def)
    obtain t w3 where t: "clock e' w2 = (t, w3)" by (cases "clock e' w2")
    let ?w = "on_prom (RecordRequestStart (c_metrics ?c) (rq_Method req') (getEndpointFromRequest req')) w3"
    have "\<exists>s. join_dedup e' req' t [] (?c, ?w) = Some (Inl Blocked, s)"
      using c r d by (auto simp: join_dedup_def GetOrCreateEntry_def Let_def Wait_def)
    then show ?thesis using c(4) t by (auto simp: Do_def serve_def Let_def)
  qed
  ultimately show ?thesis by blast
qed

lemma cached_owner_blocks_key_witness:
  "\<exists>c' w'. Do (env_at 7) 1 (get_request ''h'' ''/'')
        (cached_client\<lparr>c_deduplication := Some NewDeduplicationTracker\<rparr>, cached_world) =
        Some (Answered (Some (createResponseFromCache hello), None), get_request ''h'' ''/'', c', w')
    \<and> (\<exists>s. Do (env_at 1000000000) 1 (get_request ''h'' ''/'') (fire_dedup 1000000000 c', w') =
        Some (Blocked, get_request ''h'' ''/'', s))"
proof -
  let ?c = "cached_client\<lparr>c_deduplication := Some NewDeduplicationTracker\<rparr>" let ?r = "get_request ''h'' ''/''"
  let ?kf = "DefaultDeduplicationKeyFunc (\<lambda>s. s)"
  have "cached (env_at 7) (?c, cached_world) ?r hello"
    by (rule cached_hello) (simp_all add: cached_client_def quiet_debug_def DefaultDebugConfig_def)
  moreover obtain k where "?kf ?r = Some k"
    by (simp add: DefaultDeduplicationKeyFunc_def get_request_def)
  moreover have "DefaultDeduplicationCondition ?r" by (simp add: DefaultDeduplicationCondition_def get_request_def)
  moreover have "c_dedupKeyFunc ?c = Some ?kf" by (simp add: cached_client_def script_env_def)
  ultimately obtain c' w' where d:
    "Do (env_at 7) 1 ?r (?c, cached_world) = Some (Answered (Some (createResponseFromCache hello), None), ?r, c', w')"
    "\<And>now e' n' req' w2. DefaultDeduplicationCondition req' \<Longrightarrow> ?kf req' = Some k \<Longrightarrow> (\<And>x. e_ctx e' req' x = None) \<Longrightarrow>
        \<exists>s. Do e' n' req' (fire_dedup now c', w2) = Some (Blocked, req', s)"
    using cached_owner_blocks_key [of "env_at 7" ?c cached_world ?r hello NewDeduplicationTracker
        DefaultDeduplicationCondition ?kf k 1]
    by (auto simp: cached_client_def NewDeduplicationTracker_def)
  have "\<exists>s. Do (env_at 1000000000) 1 ?r (fire_dedup 1000000000 c', w') = Some (Blocked, ?r, s)"
    by (rule d(2)) (fact | simp add: env_at_def script_env_def)+
  with d(1) show ?thesis by blast
qed

lemma in_flight_leaks_for_waiters_witness:
  "\<exists>res req' c' w'. Do (script_env\<lparr>e_ctx := \<lambda>_ _. Some net_error\<rparr>) 1 example_request
       ((default_client script_env)\<lparr>c_metrics := Some klayengo_vectors,
          c_deduplication := Some (snd (GetOrCreateEntry ''k'' NewDeduplicationTracker)),
          c_dedupCondition := Some (\<lambda>_. True), c_dedupKeyFunc := Some (\<lambda>_. Some ''k'')\<rparr>, script_world []) =
       Some (Answered res, req', c', w')
     \<and> in_flight ''POST'' ''a/b'' (w_prom w') = 1"
proof -
  let ?dt = "snd (GetOrCreateEntry ''k'' NewDeduplicationTracker) :: response DeduplicationTracker"
  let ?c = "(default_client script_env)\<lparr>c_metrics := Some klayengo_vectors, c_deduplication := Some ?dt,
          c_dedupCondition := Some (\<lambda>_. True), c_dedupKeyFunc := Some (\<lambda>_. Some ''k'')\<rparr>"
  let ?e = "script_env\<lparr>e_ctx := \<lambda>_ _. Some net_error\<rparr>"
  have k: "dt_entries ?dt ''k'' = Some 0"
    by (simp add: GetOrCreateEntry_def NewDeduplicationTracker_def Let_def)
  have q: "quiet_debug ?c" by (simp add: quiet_debug_def DefaultDebugConfig_def)
  have now: "e_now ?e = (\<lambda>x. (sc_now x, x))" by (simp add: script_env_def)
  have "\<exists>res req' c' w'. Do ?e 1 example_request (?c, script_world []) = Some (Answered res, req', c', w')"
    using q k now by (simp add: Do_def serve_def join_dedup_def clock_def GetOrCreateEntry_def [of "''k''" ?dt] Wait_def Let_def)
  then obtain res req' c' w' where d: "Do ?e 1 example_request (?c, script_world []) = Some (Answered res, req', c', w')"
    by blast
  have "in_flight ''POST'' ''a/b'' (w_prom w') = in_flight ''POST'' ''a/b'' (w_prom (script_world [])) + 1"
    using in_flight_leaks_for_waiters [OF _ _ _ _ _ _ k d, where cond = "\<lambda>_. True" and kf = "\<lambda>_. Some ''k''"]
    by (simp add: example_request_def getEndpointFromRequest_def)
  with d show ?thesis by simp
qed

subsection \<open>Modes in which a cache does nothing\<close>

lemma finish_request_error:
  assumes "finish_request e req ep st rid store owner res s = Some (res', s')"
  shows "snd res' = snd res"
proof (cases s)
  case (Pair c w)
  let ?w = "on_prom (RecordRequestEnd (c_metrics c) (rq_Method req) ep) w"
  obtain t w1 where "clock e ?w = (t, w1)" by (cases "clock e ?w")
  with assms show ?thesis
    by (auto simp: Pair finish_request_def bind_eq_Some_conv Let_def split: if_splits)
qed

lemma lookup_in_ttl_mode:
  assumes "lookup_cache e n req st rid (c, w) = Some (r, req', c', w')" and "c_cacheMode c = TTLOnly" and "c_cache c = None"
  shows "(\<exists>b. r = Inr b) \<and> req' = req \<and> c' = c \<and> w_caches w' = w_caches w"
  using assms by (auto simp: lookup_cache_def mode_defs bind_eq_Some_conv Let_def split: if_splits)

text \<open>
  In TTL mode, the default one, a cache provider is written and never read: without a plain cache
  every answer of \<open>Do\<close> comes from the retry loop, whatever the provider holds.
\<close>

theorem provider_unread_in_ttl_mode:
  assumes "c_cacheMode c = TTLOnly" and "c_cache c = None" and "c_deduplication c = None"
    and "Do e n req (c, w) = Some (Answered (resp, err), req', c', w')"
  shows "\<exists>st rid w1 resp1 s1. w_caches w1 = w_caches w \<and>
    doWithRetry e n req 0 rid st (c, w1) = Some (Answered (resp1, err), req', s1)"
  using assms(4)
proof (cases rule: Do_begin)
  case (1 st rid w1)
  have "join_dedup e req st rid (c, w1) = Some (Inr None, c, w1)" by (simp add: join_dedup_def assms(3))
  moreover obtain r w2 where l: "lookup_cache e n req st rid (c, w1) = Some (Inr r, req, c, w2)" "w_caches w2 = w_caches w1"
  proof (cases "lookup_cache e n req st rid (c, w1)")
    case None
    with 1(3) calculation show ?thesis by (simp add: serve_def)
  next
    case (Some a)
    obtain r req1 c1 w2 where "a = (r, req1, c1, w2)" by (cases a)
    with Some lookup_in_ttl_mode [OF _ assms(1,2)] show ?thesis using that by blast
  qed
  moreover have "fetch e n req st rid r (c, w2) = map_option (Pair False) (doWithRetry e n req 0 rid st (c, w2))"
    by (simp add: fetch_def assms(1) mode_defs)
  ultimately obtain ans1 req1 s1 where d: "doWithRetry e n req 0 rid st (c, w2) = Some (ans1, req1, s1)"
    using 1(3) by (cases "doWithRetry e n req 0 rid st (c, w2)") (auto simp: serve_def)
  with 1(3) l \<open>join_dedup _ _ _ _ _ = _\<close> \<open>fetch _ _ _ _ _ _ _ = _\<close> obtain res1 where
    "ans1 = Answered res1" "req1 = req'"
    "finish_request e req1 (getEndpointFromRequest req) st rid r False res1 s1 = Some ((resp, err), c', w')"
    by (cases ans1) (auto simp: serve_def bind_eq_Some_conv)
  moreover have "snd res1 = err"
    using finish_request_error [OF calculation(3)] by simp
  ultimately have "doWithRetry e n req 0 rid st (c, w2) = Some (Answered (fst res1, err), req', s1)"
    using d by (cases res1) simp
  with l(2) 1(2) show ?thesis by (metis (full_types))
qed

definition provider_client :: "script Client" where
  "provider_client = (default_client script_env)\<lparr>c_cacheProvider := Some (HTTPSemanticsCacheProvider 0 10 TTLOnly)\<rparr>"

lemma provider_unread_in_ttl_mode_witness:
  "\<exists>st rid w1 resp1 req' s1. w_caches w1 = w_caches cached_world \<and>
     doWithRetry script_env 1 (get_request ''h'' ''/'') 0 rid st (provider_client, w1) = Some (Answered (resp1, None), req', s1)"
proof -
  let ?r = "get_request ''h'' ''/''"
  let ?w = "cached_world\<lparr>w_out := \<lparr>sc_now = 0, sc_replies = [(Some (status_response 404), None)], sc_seen = []\<rparr>\<rparr>"
  have q: "quiet_debug provider_client" by (simp add: provider_client_def quiet_debug_def DefaultDebugConfig_def)
  obtain resp req' c' w' where d: "Do script_env 1 ?r (provider_client, ?w) = Some (Answered (resp, None), req', c', w')"
    using q by (simp add: Let_def Do_def serve_def join_dedup_def lookup_cache_def fetch_def finish_request_def complete_dedup_def
        provider_client_def eval_nat_numeral round_defs script_do_def executeMiddleware_def transport_def
        get_request_def DefaultCacheCondition_def DefaultCacheKeyFunc_def mode_defs
        status_response_def add64_def mul64_def i64_def Second_def)
  show ?thesis
    using provider_unread_in_ttl_mode [OF _ _ _ d] by (simp add: provider_client_def) blast
qed

text \<open>What the lookups and the loop keep: the caches and the choice of the mode.\<close>

definition kept :: "'x state \<Rightarrow> 'x state \<Rightarrow> bool" where
  "kept s s' \<longleftrightarrow> w_caches (snd s') = w_caches (snd s) \<and> c_cacheMode (fst s') = c_cacheMode (fst s)
     \<and> c_cacheProvider (fst s') = c_cacheProvider (fst s)"

lemma kept_refl [simp]: "kept s s"
  by (simp add: kept_def)

lemma kept_trans [trans]: "kept s s' \<Longrightarrow> kept s' s'' \<Longrightarrow> kept s s''"
  by (simp add: kept_def)

lemma kept_loop: "doWithRetry e n req attempt rid st s = Some (ans, req', s') \<Longrightarrow> kept s s'"
  using loop_frame [of e n req attempt rid st s ans req' s'] frame_client [of "\<lambda>_. 0" 0 s s']
  by (auto simp: frame_def kept_def)

lemma kept_join:
  assumes "join_dedup e req st rid (c, w) = Some (r, s')"
  shows "kept (c, w) s'"
proof -
  obtain t w1 where t: "clock e w = (t, w1)" by (cases "clock e w")
  show ?thesis
  proof (cases "c_deduplication c")
    case None
    with assms show ?thesis by (auto simp: join_dedup_def)
  next
    case (Some dt)
    show ?thesis
    proof (cases "s' = (c, w)")
      case False
      with assms Some obtain cond kf k where k: "c_dedupCondition c = Some cond" "cond req" "c_dedupKeyFunc c = Some kf" "kf req = Some k"
        by (auto simp: join_dedup_def bind_eq_Some_conv split: if_splits)
      obtain a own dt' where g: "GetOrCreateEntry k dt = ((a, own), dt')" by (cases "GetOrCreateEntry k dt") auto
      show ?thesis
      proof (cases "Wait (dt_heap dt' a) (e_ctx e req (w_out w))")
        case Nil
        with assms Some k g show ?thesis by (auto simp: join_dedup_def Let_def kept_def split: if_splits)
      next
        case (Cons x xs)
        with assms Some k g t clock_fields [OF t] show ?thesis
          by (auto simp: join_dedup_def Let_def kept_def split: if_splits)
      qed
    qed simp
  qed
qed

lemma kept_flight_body:
  assumes "flight_body e n req st rid key s = Some (ans, req', s')" and "c_cacheProvider (fst s) = None"
  shows "kept s s'"
proof -
  from assms obtain ans1 req1 c1 w1 where l: "doWithRetry e n req 0 rid st s = Some (ans1, req1, c1, w1)"
    by (cases "doWithRetry e n req 0 rid st s") (auto simp: flight_body_def)
  have "c_cacheProvider c1 = None" using kept_loop [OF l] assms(2) by (simp add: kept_def)
  with assms(1) l have "s' = (c1, w1)"
    by (auto simp: flight_body_def bind_eq_Some_conv split: answer.splits option.splits if_splits)
  with kept_loop [OF l] show ?thesis by simp
qed

lemma kept_flight: "flight_only c c' \<Longrightarrow> w_caches w' = w_caches w \<Longrightarrow> kept (c, w) (c', w')"
  by (auto simp: flight_only_def kept_def)

lemma kept_fetch:
  assumes "fetch e n req st rid enabled (c, w) = Some (skip, ans, req', c', w')" and "c_cacheProvider c = None"
    and "c_cacheMode c = HTTPSemantics \<or> c_cacheMode c = SWR"
  shows "kept (c, w) (c', w') \<and> skip = enabled"
proof (cases enabled)
  case False
  with assms(1) kept_loop [of e n req 0 rid st "(c, w)"] show ?thesis by (auto simp: fetch_def)
next
  case True
  with assms(1,3) obtain kf where "skip"
    and s: "singleFlightDo e req (kf req) (flight_body e n req st rid (kf req)) (c, w) = Some (ans, req', c', w')"
    by (auto simp: fetch_def bind_eq_Some_conv)
  from s have "kept (c, w) (c', w')"
  proof (cases rule: singleFlightDo_cases)
    case waits
    then show ?thesis by (simp add: kept_flight)
  next
    case (runs c0 c1 w1)
    have "kept (c, w) (c0, w)" using runs(1) by (rule kept_flight) simp
    also have "kept \<dots> (c1, w1)"
      using kept_flight_body [OF runs(2)] calculation assms(2) by (simp add: kept_def)
    also have "kept \<dots> (c', w')" using runs(3,5) by (rule kept_flight)
    finally show ?thesis .
  qed
  with True \<open>skip\<close> show ?thesis by simp
qed

lemma kept_finish:
  assumes "finish_request e req ep st rid False owner res s = Some (res', s')"
  shows "kept s s'"
proof (cases s)
  case (Pair c w)
  let ?w = "on_prom (RecordRequestEnd (c_metrics c) (rq_Method req) ep) w"
  obtain t w1 where t: "clock e ?w = (t, w1)" by (cases "clock e ?w")
  let ?w1 = "on_prom (RecordRequest (c_metrics c) (rq_Method req) ep
    (case fst res of None \<Rightarrow> 0 | Some resp \<Rightarrow> rs_StatusCode resp) (time_sub t st)) w1"
  obtain t' w2 where t': "clock e ?w1 = (t', w2)" by (cases "clock e ?w1")
  show ?thesis using assms t t' clock_fields [OF t] clock_fields [OF t']
    by (auto simp: Pair finish_request_def complete_dedup_def bind_eq_Some_conv Let_def kept_def split: option.splits if_splits)
qed

text \<open>A lookup in caches that answer nothing is a miss.\<close>

lemma kept_lookup:
  assumes "lookup_cache e n req st rid (c, w) = Some (r, req', c', w')"
    and empty: "\<And>a t k obj. w_caches w a = Some obj \<Longrightarrow> obj_Get t k obj = (None, obj)"
    and "c_cacheProvider c = None"
  shows "kept (c, w) (c', w') \<and> (\<exists>b. r = Inr b)"
proof -
  obtain t w1 where t: "clock e w = (t, w1)" by (cases "clock e w")
  have none: "with_cache a (\<lambda>obj. Some (obj_Get t k obj)) w1 = Some (found, w2) \<Longrightarrow> found = None \<and> w_caches w2 = w_caches w"
    for a k found w2
    using empty clock_fields [OF t] by (auto simp: with_cache_def bind_eq_Some_conv fun_upd_idem)
  show ?thesis using assms(1,3) t
    by (auto simp: lookup_cache_def bind_eq_Some_conv Let_def kept_def split: if_splits option.splits dest!: none)
qed

text \<open>
  C37. In the modes with HTTP semantics a plain cache is read and never filled: with \<open>WithCache\<close> and no
  provider, whatever the requests and the answers, an empty cache stays empty, so that there is
  nothing to revalidate either.
\<close>

theorem http_modes_never_fill_cache:
  assumes "c_cacheProvider c = None" and "c_cacheMode c = HTTPSemantics \<or> c_cacheMode c = SWR"
    and "\<And>a obj. w_caches w a = Some obj \<Longrightarrow> \<exists>m. obj = InMemory m \<and> imc_view m = Map.empty"
    and "Do e n req (c, w) = Some (ans, req', c', w')"
  shows "w_caches w' = w_caches w \<and> c_cacheProvider c' = None \<and> c_cacheMode c' = c_cacheMode c"
  using assms(4)
proof (cases rule: Do_begin)
  case (1 st rid w1)
  from 1(3) obtain r c2 w2 where j: "join_dedup e req st rid (c, w1) = Some (r, c2, w2)"
    by (cases "join_dedup e req st rid (c, w1)") (auto simp: serve_def)
  note kj = kept_join [OF j]
  have "kept (c, w1) (c', w')"
  proof (cases r)
    case (Inl ans1)
    with 1(3) j kj show ?thesis by (simp add: serve_def)
  next
    case (Inr owned)
    with 1(3) j obtain r1 req1 c3 w3 where l: "lookup_cache e n req st rid (c2, w2) = Some (r1, req1, c3, w3)"
      by (cases "lookup_cache e n req st rid (c2, w2)") (auto simp: serve_def)
    have "obj_Get t k obj = (None, obj)" if "w_caches w2 a = Some obj" for a t k obj
    proof -
      from that kj 1(2) have "w_caches w a = Some obj" by (simp add: kept_def)
      then obtain m where "obj = InMemory m" "imc_view m = Map.empty" using assms(3) by blast
      then show ?thesis by (simp add: imc_Get_def imc_view_def Let_def fun_eq_iff)
    qed
    with l have m: "kept (c2, w2) (c3, w3) \<and> (\<exists>b. r1 = Inr b)"
      by (rule kept_lookup) (use kj assms(1) in \<open>auto simp: kept_def\<close>)
    then obtain b where b: "r1 = Inr b" by blast
    with 1(3) j l Inr obtain skip ans2 req2 c4 w4 where
      f: "fetch e n req1 st rid b (c3, w3) = Some (skip, ans2, req2, c4, w4)"
      by (cases "fetch e n req1 st rid b (c3, w3)") (auto simp: serve_def)
    have kf: "kept (c3, w3) (c4, w4) \<and> skip = b"
      using kept_fetch [OF f] m kj assms(1,2) by (simp add: kept_def)
    have "kept (c4, w4) (c', w')"
    proof (cases ans2)
      case (Answered res1)
      with 1(3) j l Inr b f kf show ?thesis
        by (auto simp: serve_def bind_eq_Some_conv dest!: kept_finish)
    qed (use 1(3) j l Inr b f in \<open>auto simp: serve_def\<close>)
    with kj m kf show ?thesis using kept_trans by blast
  qed
  with 1(2) assms(1) show ?thesis by (simp add: kept_def)
qed

definition http_cache_client :: "script Client" where
  "http_cache_client = (default_client script_env)\<lparr>c_cache := Some 0, c_cacheMode := HTTPSemantics\<rparr>"

lemma http_modes_never_fill_cache_witness:
  "\<exists>ans req' c' w'. Do script_env 1 (get_request ''h'' ''/'')
       (http_cache_client, (script_world [])\<lparr>w_caches := [0 \<mapsto> InMemory NewInMemoryCache]\<rparr>) = Some (ans, req', c', w')
     \<and> w_caches w' 0 = Some (InMemory NewInMemoryCache)"
proof -
  let ?r = "get_request ''h'' ''/''" let ?w = "(script_world [])\<lparr>w_caches := [0 \<mapsto> InMemory NewInMemoryCache]\<rparr>"
  have q: "quiet_debug http_cache_client" by (simp add: http_cache_client_def quiet_debug_def DefaultDebugConfig_def)
  have "imc_Get 0 k NewInMemoryCache = (None, NewInMemoryCache)" for k
    using NewInMemoryCache_valid(2) by (simp add: imc_Get_def imc_view_def Let_def fun_eq_iff)
  then obtain ans req' c' w' where d: "Do script_env 1 ?r (http_cache_client, ?w) = Some (ans, req', c', w')"
    using q by (simp add: Let_def Do_def serve_def join_dedup_def lookup_cache_def fetch_def finish_request_def complete_dedup_def
        http_cache_client_def eval_nat_numeral round_defs script_do_def executeMiddleware_def transport_def with_cache_def
        singleFlightDo_def flight_body_def sf_begin_def new_single_flight_def default_client_def [of script_env]
        get_request_def DefaultCacheCondition_def DefaultCacheKeyFunc_def mode_defs
        status_response_def add64_def mul64_def i64_def Second_def)
  have "\<exists>m. obj = InMemory m \<and> imc_view m = Map.empty" if "w_caches ?w a = Some obj" for a obj
    using that NewInMemoryCache_valid(2) by (auto split: if_splits)
  from http_modes_never_fill_cache [OF _ _ this d] have "w_caches w' = w_caches ?w"
    by (simp add: http_cache_client_def mode_defs)
  with d show ?thesis by auto
qed

end
