(* ===== verification/ClientGuarantees.thy ===== *)
theory ClientGuarantees
  imports ClientInvariants ClientProps
begin

text \<open>
  What a client promises over any sequence of calls of \<open>Do\<close>, retries and revalidations included:
  the rates of its limiters bound the calls of the transport, its circuit breaker is told the outcome of
  each of them, its budget bounds the retries, and how its log comes out. Each is an interpretation of
  \<open>client_invariant\<close>.
\<close>

subsection \<open>Clocks\<close>

text \<open>
  \<open>T\<close> tells the time of a world: every reading of the clock lies between the time before and the time
  after it, and nothing sets it back. \<open>counted\<close> counts the calls of the transport.
\<close>

definition ticking :: "'x env \<Rightarrow> ('x \<Rightarrow> int) \<Rightarrow> ('x \<Rightarrow> nat) \<Rightarrow> bool" where
  "ticking e T counted \<longleftrightarrow> quiet e counted \<and>
     (\<forall>x. T x \<le> fst (e_now e x) \<and> fst (e_now e x) \<le> T (snd (e_now e x)) \<and> T x \<le> T (snd (e_rand e x))
       \<and> (\<forall>d. T x \<le> T (e_sleep e d x)))"

text \<open>
  The middleware, whatever it does else, calls the transport at most once for each request; and the
  caller's generator of request ids does not call it.
\<close>

definition calls_once :: "('x \<Rightarrow> int) \<Rightarrow> ('x \<Rightarrow> nat) \<Rightarrow> 'x Client \<Rightarrow> bool" where
  "calls_once T counted c \<longleftrightarrow>
     (\<forall>req x res req' x'. executeMiddleware c req x = Some (res, req', x') \<longrightarrow>
        counted x' \<le> counted x + 1 \<and> T x \<le> T x') \<and>
     (\<forall>d gen x. c_debug c = Some d \<longrightarrow> dc_RequestIDGen d = Some gen \<longrightarrow>
        counted (snd (gen x)) = counted x \<and> T x \<le> T (snd (gen x)))"

text \<open>The same where only the requests in \<open>sel\<close> count.\<close>

definition calls_for :: "(request \<Rightarrow> bool) \<Rightarrow> ('x \<Rightarrow> int) \<Rightarrow> ('x \<Rightarrow> nat) \<Rightarrow> 'x Client \<Rightarrow> bool" where
  "calls_for sel T counted c \<longleftrightarrow>
     (\<forall>req x res req' x'. executeMiddleware c req x = Some (res, req', x') \<longrightarrow>
        counted x' \<le> counted x + of_bool (sel req) \<and> T x \<le> T x') \<and>
     (\<forall>d gen x. c_debug c = Some d \<longrightarrow> dc_RequestIDGen d = Some gen \<longrightarrow>
        counted (snd (gen x)) = counted x \<and> T x \<le> T (snd (gen x)))"

lemma calls_for_all: "calls_for (\<lambda>_. True) T counted c = calls_once T counted c"
  by (simp add: calls_for_def calls_once_def)

lemma executeMiddleware_same [simp]:
  "executeMiddleware (c\<lparr>c_circuitBreaker := cb\<rparr>) = executeMiddleware c"
  "executeMiddleware (c\<lparr>c_retryBudget := rb\<rparr>) = executeMiddleware c"
  "executeMiddleware (c\<lparr>c_deduplication := dt, c_singleFlight := sf, c_singleFlightGroup := grp\<rparr>) = executeMiddleware c"
  by (simp_all add: executeMiddleware_def transport_def)

lemma calls_once_same [simp]:
  "calls_once T counted (c\<lparr>c_circuitBreaker := cb\<rparr>) = calls_once T counted c"
  "calls_once T counted (c\<lparr>c_retryBudget := rb\<rparr>) = calls_once T counted c"
  "calls_once T counted (c\<lparr>c_deduplication := dt, c_singleFlight := sf, c_singleFlightGroup := grp\<rparr>) = calls_once T counted c"
  by (simp_all add: calls_once_def)

lemma calls_for_same [simp]:
  "calls_for sel T counted (c\<lparr>c_circuitBreaker := cb\<rparr>) = calls_for sel T counted c"
  "calls_for sel T counted (c\<lparr>c_retryBudget := rb\<rparr>) = calls_for sel T counted c"
  "calls_for sel T counted (c\<lparr>c_deduplication := dt, c_singleFlight := sf, c_singleFlightGroup := grp\<rparr>) = calls_for sel T counted c"
  by (simp_all add: calls_for_def)

lemma ticking_clock:
  assumes "ticking e T counted" and "clock e w = (t, w')"
  shows "T (w_out w) \<le> t" "t \<le> T (w_out w')" "counted (w_out w') = counted (w_out w)"
    "w_limiters w' = w_limiters w" "w_log w' = w_log w"
  using assms by (auto simp: ticking_def quiet_def clock_def split: prod.splits) (metis fst_conv snd_conv)+

subsection \<open>The rate limit\<close>

text \<open>
  The limiter's level pays for the calls made so far and, between the limiter and the transport, for
  the one under way. Nothing is said once the clock has passed the year 2116.
\<close>

definition pays :: "('x \<Rightarrow> int) \<Rightarrow> ('x \<Rightarrow> nat) \<Rightarrow> nat \<Rightarrow> int \<Rightarrow> int \<Rightarrow> bool \<Rightarrow> 'x world \<Rightarrow> bool" where
  "pays T counted a r L under_way w \<longleftrightarrow> (T (w_out w) < 2 ^ 62 \<longrightarrow>
     (\<exists>rl t. w_limiters w a = Some (PlainLimiter rl) \<and> rl_valid t rl \<and> t \<le> T (w_out w) \<and> rl_refillRate rl = r \<and>
        rl_level rl + r * (int (counted (w_out w)) + of_bool under_way) \<le> L))"

text \<open>The limiter at \<open>a\<close> is the one that every request in \<open>sel\<close> has to pass.\<close>

definition guarded :: "(request \<Rightarrow> bool) \<Rightarrow> nat \<Rightarrow> 'x Client \<Rightarrow> bool" where
  "guarded sel a c \<longleftrightarrow>
     (case c_limiterRegistry c of
        None \<Rightarrow> c_rateLimiter c = Some a
      | Some r \<Rightarrow> (\<forall>req. sel req \<longrightarrow> (\<exists>key. GetLimiter r req = Some (Some (LimiterAt a), key))))"

fun under_way :: "(request \<Rightarrow> bool) \<Rightarrow> stage \<Rightarrow> bool" where
  "under_way sel (Admitted req) = sel req"
| "under_way sel (Cleared req) = sel req"
| "under_way sel _ = False"

definition paced ::
  "'x env \<Rightarrow> (request \<Rightarrow> bool) \<Rightarrow> ('x \<Rightarrow> int) \<Rightarrow> ('x \<Rightarrow> nat) \<Rightarrow> nat \<Rightarrow> int \<Rightarrow> int \<Rightarrow> stage \<Rightarrow> 'x state \<Rightarrow> bool" where
  "paced e sel T counted a r L g s \<longleftrightarrow> ticking e T counted \<and> calls_for sel T counted (fst s) \<and>
     guarded sel a (fst s) \<and> 0 \<le> r \<and> pays T counted a r L (under_way sel g) (snd s)"

lemma guarded_same [simp]:
  "guarded sel a (c\<lparr>c_circuitBreaker := cb\<rparr>) = guarded sel a c"
  "guarded sel a (c\<lparr>c_retryBudget := rb\<rparr>) = guarded sel a c"
  "guarded sel a (c\<lparr>c_deduplication := dt, c_singleFlight := sf, c_singleFlightGroup := grp\<rparr>) = guarded sel a c"
  by (simp_all add: guarded_def cong: option.case_cong)

lemma pays_step:
  assumes "pays T counted a r L b w" and "T (w_out w) \<le> T (w_out w')" and "w_limiters w' a = w_limiters w a"
    and "int (counted (w_out w')) + of_bool b' \<le> int (counted (w_out w)) + of_bool b" and "0 \<le> r"
  shows "pays T counted a r L b' w'"
proof -
  have "r * (int (counted (w_out w')) + of_bool b') \<le> r * (int (counted (w_out w)) + of_bool b)"
    using assms(4,5) by (rule mult_left_mono)
  with assms(1-3) show ?thesis unfolding pays_def by (fastforce intro: order_trans)
qed

lemma pays_limiter:
  assumes "pays T counted a r L False w" and "ticking e T counted" and "clock e w = (now, w1)"
    and "Limiter_Allow (i64 now) (LimiterAt a) (w_limiters w1) = Some (ok, ls)"
  shows "pays T counted a r L ok (w1\<lparr>w_limiters := ls\<rparr>)"
  unfolding pays_def
proof (intro impI)
  assume hor: "T (w_out (w1\<lparr>w_limiters := ls\<rparr>)) < 2 ^ 62"
  note t = ticking_clock [OF assms(2,3)]
  with hor assms(1) obtain rl u where rl: "w_limiters w a = Some (PlainLimiter rl)" "rl_valid u rl"
    "u \<le> T (w_out w)" "rl_refillRate rl = r" "rl_level rl + r * int (counted (w_out w)) \<le> L"
    by (auto simp: pays_def)
  have now: "time_ok now" "u \<le> now" using rl(2,3) t hor by (auto simp: time_ok_def rl_valid_def)
  then have "i64 now = now" by (simp add: time_ok_def in64_def)
  with assms(4) rl(1) t have ok: "ok = fst (rl_Allow now rl)"
    and ls: "ls = (w_limiters w)(a \<mapsto> PlainLimiter (snd (rl_Allow now rl)))"
    by (auto simp: split_def Let_def)
  have "rl_level (snd (rl_Allow now rl)) + (if ok then r else 0) \<le> rl_level rl"
    using rl.allow_level [OF rl(2) now(2,1)] rl(4) ok by (auto split: if_splits)
  then have "rl_level (snd (rl_Allow now rl)) + r * (int (counted (w_out w)) + of_bool ok) \<le> L"
    using rl(5) by (auto simp: algebra_simps split: if_splits)
  with rl.allow_valid [OF rl(2) now(2,1)] rl(4) t ls
  show "\<exists>rl t. w_limiters (w1\<lparr>w_limiters := ls\<rparr>) a = Some (PlainLimiter rl) \<and> rl_valid t rl \<and>
      t \<le> T (w_out (w1\<lparr>w_limiters := ls\<rparr>)) \<and> rl_refillRate rl = r \<and>
      rl_level rl + r * (int (counted (w_out (w1\<lparr>w_limiters := ls\<rparr>))) + of_bool ok) \<le> L"
    by (intro exI [of _ "snd (rl_Allow now rl)"] exI [of _ now]) simp
qed

lemma paced_world:
  assumes "paced e sel T counted a r L g (c, w)" and "T (w_out w) \<le> T (w_out w')" and "w_limiters w' = w_limiters w"
    and "counted (w_out w') \<le> counted (w_out w)"
  shows "paced e sel T counted a r L g (c, w')"
  using assms pays_step [of T counted a r L "under_way sel g" w w' "under_way sel g"]
  by (auto simp: paced_def)

lemma paced_calls: "paced e sel T counted a r L g (c, w) \<Longrightarrow> calls_for sel T counted c"
  by (simp add: paced_def)

lemma paced_idle: "paced e sel T counted a r L g s \<Longrightarrow> paced e sel T counted a r L Idle s"
  using pays_step [of T counted a r L "under_way sel g" "snd s" "snd s" False] by (auto simp: paced_def)

lemma paced_clock:
  "paced e sel T counted a r L g (c, w) \<Longrightarrow> clock e w = (t, w') \<Longrightarrow> paced e sel T counted a r L g (c, w')"
  using ticking_clock [of e T counted w t w'] paced_world [of e sel T counted a r L g c w w'] by (auto simp: paced_def)

lemma paced_prom: "paced e sel T counted a r L g (c, w) \<Longrightarrow> paced e sel T counted a r L g (c, on_prom f w)"
  by (erule paced_world) (simp_all add: on_prom_def)

lemma paced_log:
  "paced e sel T counted a r L g (c, w) \<Longrightarrow> paced e sel T counted a r L g (c, log_line flag level msg args c' w)"
  by (erule paced_world) simp_all

lemma paced_breaker:
  "paced e sel T counted a r L g (c, w) \<Longrightarrow> paced e sel T counted a r L g (c\<lparr>c_circuitBreaker := cb\<rparr>, w)"
  by (simp add: paced_def)

text \<open>What the client's limiters are asked: the one at \<open>a\<close>, or none of the requests in \<open>sel\<close> is concerned.\<close>

lemma guarded_limiter:
  assumes "guarded sel a c" and "clock e w = (now, w1)" and "ask_limiter e req (c, w) = Some ((ok, key), s')"
  obtains (asked) ls where "Limiter_Allow (i64 now) (LimiterAt a) (w_limiters w1) = Some (ok, ls)"
      "s' = (c, w1\<lparr>w_limiters := ls\<rparr>)"
  | (other) ls where "\<not> sel req" "ls a = w_limiters w1 a" "s' = (c, w1\<lparr>w_limiters := ls\<rparr>)"
proof (cases "c_limiterRegistry c")
  case None
  with assms that(1) show ?thesis
    by (auto simp: ask_limiter_def guarded_def simp del: Limiter_Allow.simps)
next
  case (Some r)
  with assms obtain ls where ls: "reg_Allow (i64 now) r req (w_limiters w1) = Some ((ok, key), ls)"
    and s': "s' = (c, w1\<lparr>w_limiters := ls\<rparr>)"
    by (auto simp: ask_limiter_def)
  show ?thesis
  proof (cases "\<exists>k. GetLimiter r req = Some (Some (LimiterAt a), k)")
    case True
    with ls have "Limiter_Allow (i64 now) (LimiterAt a) (w_limiters w1) = Some (ok, ls)"
      by (auto simp: reg_Allow_def simp del: Limiter_Allow.simps split: option.splits)
    with s' show ?thesis by (rule that(1) [rotated])
  next
    case False
    have "ls a = w_limiters w1 a" by (rule reg_Allow_frame [OF ls]) (use False in blast)
    moreover have "\<not> sel req" using assms(1) Some False by (auto simp: guarded_def)
    ultimately show ?thesis using s' that(2) by blast
  qed
qed

lemma paced_sleep:
  assumes "paced e sel T counted a r L g (c, w)"
  shows "paced e sel T counted a r L g (c, w\<lparr>w_out := e_sleep e d (w_out w)\<rparr>)"
  by (rule paced_world [OF assms]) (use assms in \<open>auto simp: paced_def ticking_def quiet_def\<close>)

lemma paced_limiter:
  assumes "paced e sel T counted a r L Idle s" and "ask_limiter e req s = Some ((ok, key), s')"
  shows "paced e sel T counted a r L (if ok then Admitted req else Idle) s'"
proof (cases s)
  case (Pair c w)
  obtain now w1 where t: "clock e w = (now, w1)" by (cases "clock e w")
  have p: "ticking e T counted" "calls_for sel T counted c" "guarded sel a c" "0 \<le> r" "pays T counted a r L False w"
    using assms(1) Pair by (simp_all add: paced_def)
  have goal: "paced e sel T counted a r L (if ok then Admitted req else Idle) (c, w2)"
    if "pays T counted a r L (ok \<and> sel req) w2" for w2
    using p that by (auto simp: paced_def)
  from p(3) t assms(2) [unfolded Pair] show ?thesis
  proof (cases rule: guarded_limiter)
    case (asked ls)
    have "pays T counted a r L ok (w1\<lparr>w_limiters := ls\<rparr>)" by (rule pays_limiter [OF p(5,1) t asked(1)])
    then have "pays T counted a r L (ok \<and> sel req) (w1\<lparr>w_limiters := ls\<rparr>)"
      by (rule pays_step) (use p(4) in auto)
    from goal [OF this] show ?thesis by (simp add: asked(2))
  next
    case (other ls)
    have "pays T counted a r L (ok \<and> sel req) (w1\<lparr>w_limiters := ls\<rparr>)"
      by (rule pays_step [OF p(5)]) (use p(4) other ticking_clock [OF p(1) t] in auto)
    from goal [OF this] show ?thesis by (simp add: other(3))
  qed
qed

lemma paced_decide:
  assumes "paced e sel T counted a r L g s" and "decide_retry e res attempt s = Some (d, s')"
  shows "paced e sel T counted a r L g s'"
proof -
  obtain c w where s: "s = (c, w)" by (cases s)
  obtain t w1 where t: "clock e w = (t, w1)" and s': "s' = (c, w1\<lparr>w_out := snd (e_rand e (w_out w1))\<rparr>)"
    using decide_retry_world [OF assms(2) [unfolded s]] .
  have p: "paced e sel T counted a r L g (c, w1)" by (rule paced_clock [OF assms(1) [unfolded s] t])
  show ?thesis unfolding s'
    by (rule paced_world [OF p]) (use p in \<open>auto simp: paced_def ticking_def quiet_def\<close>)
qed

lemma paced_request_id:
  assumes "paced e sel T counted a r L g s" and "new_request_id s = (rid, s')"
  shows "paced e sel T counted a r L g s'"
proof -
  obtain c w where s: "s = (c, w)" by (cases s)
  show ?thesis
    using assms(2) unfolding s
  proof (cases rule: new_request_id_world)
    case none
    with assms(1) s show ?thesis by simp
  next
    case (made d gen)
    then have "counted (snd (gen (w_out w))) = counted (w_out w) \<and> T (w_out w) \<le> T (snd (gen (w_out w)))"
      using paced_calls [OF assms(1) [unfolded s]] unfolding calls_for_def by blast
    then show ?thesis unfolding made(3) by (intro paced_world [OF assms(1) [unfolded s]]) simp_all
  qed
qed

interpretation paced: client_invariant e "paced e sel T counted a r L" for e sel T counted a r L
proof unfold_locales
  fix g c w t w' f and msg :: string and args :: "(string \<times> log_arg) list" and flag level
  assume p: "paced e sel T counted a r L g (c, w)"
  show "clock e w = (t, w') \<Longrightarrow> paced e sel T counted a r L g (c, w')" by (rule paced_clock [OF p])
  show "paced e sel T counted a r L g (c, on_prom f w)" by (rule paced_prom [OF p])
  show "paced e sel T counted a r L g (c, log_line flag level msg args c w)" by (rule paced_log [OF p])
next
  fix s s' req ok key
  assume p: "paced e sel T counted a r L Idle s"
  show "ask_limiter e req s = Some ((ok, key), s') \<Longrightarrow>
      paced e sel T counted a r L (if ok then Admitted req else Idle) s'"
    by (rule paced_limiter [OF p])
next
  fix s s' req ok
  assume p: "paced e sel T counted a r L (Admitted req) s" and b: "ask_breaker e s = (ok, s')"
  from p have q: "paced e sel T counted a r L (Cleared req) s" by (simp add: paced_def)
  have "paced e sel T counted a r L (Cleared req) s'"
    using b q by (cases s) (auto simp: ask_breaker_def split: prod.splits intro!: paced_breaker elim!: paced_clock)
  with paced_idle [OF this] show "paced e sel T counted a r L (if ok then Cleared req else Idle) s'" by simp
next
  fix c w req res req' x
  assume p: "paced e sel T counted a r L (Cleared req) (c, w)" and m: "executeMiddleware c req (w_out w) = Some (res, req', x)"
  have "counted x \<le> counted (w_out w) + of_bool (sel req) \<and> T (w_out w) \<le> T x"
    using paced_calls [OF p] m unfolding calls_for_def by blast
  with p show "paced e sel T counted a r L Sent (c, w\<lparr>w_out := x\<rparr>)"
    by (auto simp: paced_def elim!: pays_step)
next
  fix s req ep rid res
  assume "paced e sel T counted a r L Sent s"
  then have "paced e sel T counted a r L Idle s" by (rule paced_idle)
  then show "paced e sel T counted a r L Idle (record_outcome e req ep rid res s)"
    by (cases s) (auto simp: record_outcome_def Let_def split: prod.splits
        intro!: paced_breaker paced_prom paced_log elim!: paced_clock)
next
  fix s s' res attempt dec
  assume p: "paced e sel T counted a r L Idle s"
  show "decide_retry e res attempt s = Some (dec, s') \<Longrightarrow> paced e sel T counted a r L Idle s'"
    by (rule paced_decide [OF p])
next
  fix s s' ok
  assume p: "paced e sel T counted a r L Idle s" and b: "ask_budget e s = (ok, s')"
  have rb: "paced e sel T counted a r L Idle (c\<lparr>c_retryBudget := rb\<rparr>, w)"
    if "paced e sel T counted a r L Idle (c, w)" for c w rb
    using that by (simp add: paced_def)
  have "paced e sel T counted a r L Idle s'"
    using p b by (cases s) (auto simp: ask_budget_def split: prod.splits option.splits intro!: rb elim!: paced_clock)
  then show "paced e sel T counted a r L (if ok then Granted else Idle) s'" by (simp add: paced_def)
next
  fix c w d
  assume "paced e sel T counted a r L Granted (c, w)"
  then have p: "paced e sel T counted a r L Idle (c, w)" by (simp add: paced_def)
  show "paced e sel T counted a r L Idle (c, w\<lparr>w_out := e_sleep e d (w_out w)\<rparr>)"
    by (rule paced_sleep [OF p])
next
  fix c w m dt sf grp
  assume p: "paced e sel T counted a r L Idle (c, w)"
  show "paced e sel T counted a r L Idle (c, w\<lparr>w_caches := m\<rparr>)" by (rule paced_world [OF p]) simp_all
  show "paced e sel T counted a r L Idle (c\<lparr>c_deduplication := dt, c_singleFlight := sf, c_singleFlightGroup := grp\<rparr>, w)"
    using p by (simp add: paced_def)
next
  fix s s' rid
  assume p: "paced e sel T counted a r L Idle s"
  show "new_request_id s = (rid, s') \<Longrightarrow> paced e sel T counted a r L Idle s'" by (rule paced_request_id [OF p])
qed

text \<open>The bound of the limiter, for the requests it guards, once the invariant is kept up to some state.\<close>

lemma paced_start:
  assumes "ticking e T counted" and "calls_for sel T counted c" and "guarded sel a c"
    and "w_limiters w a = Some (PlainLimiter (NewRateLimiter start maxTokens refillRate))"
    and "0 < maxTokens" and "maxTokens < 2 ^ 62" and "0 < refillRate" and "0 \<le> start" and "start \<le> T (w_out w)"
  shows "paced e sel T counted a refillRate (refillRate * (maxTokens + int (counted (w_out w))) - start) Idle (c, w)"
proof -
  define rl where "rl = NewRateLimiter start maxTokens refillRate"
  have "pays T counted a refillRate (refillRate * (maxTokens + int (counted (w_out w))) - start) False w"
    unfolding pays_def
  proof (intro impI exI conjI)
    assume "T (w_out w) < 2 ^ 62"
    with assms(5-9) show "rl_valid start rl" by (simp add: rl_def NewRateLimiter_def rl_valid_def time_ok_def)
    show "w_limiters w a = Some (PlainLimiter rl)" using assms(4) by (simp add: rl_def)
  qed (use assms(9) in \<open>simp_all add: rl_def NewRateLimiter_def rl_level_def algebra_simps\<close>)
  with assms show ?thesis by (simp add: paced_def)
qed

lemma paced_end:
  assumes "paced e sel T counted a r (r * (m + k) - start) Idle (c, w)" and "T (w_out w) < 2 ^ 62" and "0 < r"
  shows "int (counted (w_out w)) - k \<le> m + (T (w_out w) - start) div r"
proof -
  let ?k = "int (counted (w_out w))"
  from assms(1,2) obtain rl t where
    v: "rl_valid t rl" "t \<le> T (w_out w)" "rl_level rl + r * ?k \<le> r * (m + k) - start"
    by (auto simp: paced_def pays_def)
  with rl_level_bound [OF v(1)] have "r * (?k - k - m) \<le> T (w_out w) - start"
    by (simp add: algebra_simps)
  then have "?k - k - m \<le> (T (w_out w) - start) div r"
    using zdiv_mono1 [of "r * (?k - k - m)" "T (w_out w) - start" r] assms(3) by simp
  then show ?thesis by simp
qed

lemma guarded_rate:
  assumes "ticking e T counted" and "calls_for sel T counted c" and "guarded sel a c"
    and "w_limiters w a = Some (PlainLimiter (NewRateLimiter start maxTokens refillRate))"
    and "0 < maxTokens" and "maxTokens < 2 ^ 62" and "0 < refillRate" and "0 \<le> start" and "start \<le> T (w_out w)"
    and "run_requests e n reqs (c, w) = Some (answers, c', w')" and "T (w_out w') < 2 ^ 62"
  shows "int (counted (w_out w')) - int (counted (w_out w)) \<le> maxTokens + (T (w_out w') - start) div refillRate"
  by (rule paced_end [OF paced.run_requests_keeps [OF paced_start [OF assms(1-9)] assms(10)] assms(11,7)])

text \<open>
  C6. The rate limit of a client, end to end: over any sequence of calls of \<open>Do\<close>, with their retries and
  revalidations, whatever the transport answers and however long it takes, a client with a limiter of
  \<open>maxTokens\<close> tokens and one more each \<open>refillRate\<close> nanoseconds has called the transport at most
  \<open>maxTokens\<close> times, and once more for each \<open>refillRate\<close> since the limiter was made.
\<close>

theorem client_rate_bound:
  assumes "ticking e T counted" and "calls_once T counted c"
    and "c_limiterRegistry c = None" and "c_rateLimiter c = Some a"
    and "w_limiters w a = Some (PlainLimiter (NewRateLimiter start maxTokens refillRate))"
    and "0 < maxTokens" and "maxTokens < 2 ^ 62" and "0 < refillRate" and "0 \<le> start" and "start \<le> T (w_out w)"
    and "run_requests e n reqs (c, w) = Some (answers, c', w')" and "T (w_out w') < 2 ^ 62"
  shows "int (counted (w_out w')) - int (counted (w_out w)) \<le> maxTokens + (T (w_out w') - start) div refillRate"
  using assms guarded_rate [of e T counted "\<lambda>_. True" c a w] by (simp add: calls_for_all guarded_def)

text \<open>
  C12. Limits per key, end to end: in a client with a registry in which the key \<open>k\<close> has the limiter at \<open>a\<close>,
  the transport is called for the requests of that key at most \<open>maxTokens\<close> times, and once more for each
  \<open>refillRate\<close> since the limiter was made, over any sequence of requests of this and of other keys, with
  their retries. Requests of other keys add nothing to the count.
\<close>

theorem key_rate_bound:
  assumes "ticking e T counted" and "calls_for (\<lambda>req. kf req = Some k) T counted c"
    and "c_limiterRegistry c = Some r" and "reg_keyFunc r = Some kf" and "reg_limiters r k = Some (Some (LimiterAt a))"
    and "w_limiters w a = Some (PlainLimiter (NewRateLimiter start maxTokens refillRate))"
    and "0 < maxTokens" and "maxTokens < 2 ^ 62" and "0 < refillRate" and "0 \<le> start" and "start \<le> T (w_out w)"
    and "run_requests e n reqs (c, w) = Some (answers, c', w')" and "T (w_out w') < 2 ^ 62"
  shows "int (counted (w_out w')) - int (counted (w_out w)) \<le> maxTokens + (T (w_out w') - start) div refillRate"
proof -
  have "guarded (\<lambda>req. kf req = Some k) a c" using assms(3-5) by (auto simp: guarded_def GetLimiter_def)
  with assms show ?thesis using guarded_rate [of e T counted "\<lambda>req. kf req = Some k" c a w] by simp
qed

text \<open>One token a second and no retries: of two calls at once the second is refused.\<close>

definition limited_client :: "script Client" where
  "limited_client = (default_client script_env)\<lparr>c_maxRetries := 0, c_rateLimiter := Some 0\<rparr>"

definition limited_world :: "script world" where
  "limited_world = (script_world [])\<lparr>w_limiters := [0 \<mapsto> PlainLimiter (NewRateLimiter 0 1 Second)]\<rparr>"

lemmas call_defs = Let_def Do_def serve_def join_dedup_def lookup_cache_def fetch_def finish_request_def complete_dedup_def
  eval_nat_numeral round_defs script_do_def executeMiddleware_def transport_def status_response_def
  get_request_def DefaultCacheCondition_def DefaultCacheKeyFunc_def mode_defs add64_def mul64_def i64_def Second_def

lemma script_ticks: "ticking script_env sc_now (\<lambda>x. length (sc_seen x))"
  by (simp add: ticking_def script_quiet)

lemma client_rate_bound_witness:
  "\<exists>answers c' w'. run_requests script_env 1 [get_request ''h'' ''/'', get_request ''h'' ''/''] (limited_client, limited_world)
      = Some (answers, c', w') \<and> int (length (sc_seen (w_out w'))) \<le> 1"
proof -
  let ?r = "get_request ''h'' ''/''"
  have q: "quiet_debug limited_client" by (simp add: limited_client_def quiet_debug_def DefaultDebugConfig_def)
  have sub: "sub64 0 0 = 0" "sub64 1 1 = 0" "div64 0 1000000000 = 0"
    by (simp_all add: sub64_exact div64_exact in64_def)
  obtain answers c' w' where d: "run_requests script_env 1 [?r, ?r] (limited_client, limited_world) = Some (answers, c', w')"
    and w': "w_out w' = \<lparr>sc_now = 0, sc_replies = [], sc_seen = [?r]\<rparr>"
    using q by (simp add: call_defs limited_client_def limited_world_def fire_timers_def sf_fire_def grp_fire_def
        new_single_flight_def NewGroup_def NewRateLimiter_def rl_Allow_def rl_refill_defs rl_consumeToken_def sub
        default_client_def [of script_env])
  have "calls_once sc_now (\<lambda>x. length (sc_seen x)) limited_client"
    by (auto simp: calls_once_def limited_client_def no_middleware script_do_def Let_def DefaultDebugConfig_def
        generateRequestID_def)
  from client_rate_bound [OF script_ticks this _ _ _ _ _ _ _ _ d, of 0 0 1 Second] w' d show ?thesis
    by (auto simp: limited_client_def limited_world_def Second_def)
qed

text \<open>Two requests to a limited host, and one to another in between.\<close>

definition hosts_client :: "script Client" where
  "hosts_client = (default_client script_env)\<lparr>c_maxRetries := 0, c_limiterKeyFunc := Some DefaultHostKeyFunc,
     c_limiterRegistry := Some (RegisterLimiter ''host:h'' (Some (LimiterAt 0))
       (NewRateLimiterRegistry (Some DefaultHostKeyFunc) None))\<rparr>"

definition sent_to_h :: "script \<Rightarrow> nat" where
  "sent_to_h x = length (filter (\<lambda>req. DefaultHostKeyFunc req = Some ''host:h'') (sc_seen x))"

lemma key_rate_bound_witness:
  "\<exists>answers c' w'. run_requests script_env 1 [get_request ''h'' ''/'', get_request ''g'' ''/'', get_request ''h'' ''/'']
      (hosts_client, limited_world) = Some (answers, c', w') \<and>
    length (sc_seen (w_out w')) = 2 \<and> int (sent_to_h (w_out w')) \<le> 1"
proof -
  let ?r = "get_request ''h'' ''/''" and ?g = "get_request ''g'' ''/''"
  have q: "quiet_debug hosts_client" by (simp add: hosts_client_def quiet_debug_def DefaultDebugConfig_def)
  have sub: "sub64 0 0 = 0" "sub64 1 1 = 0" "div64 0 1000000000 = 0"
    by (simp_all add: sub64_exact div64_exact in64_def)
  obtain answers c' w' where d: "run_requests script_env 1 [?r, ?g, ?r] (hosts_client, limited_world) = Some (answers, c', w')"
    and w': "w_out w' = \<lparr>sc_now = 0, sc_replies = [], sc_seen = [?r, ?g]\<rparr>"
    using q by (simp add: call_defs hosts_client_def limited_world_def fire_timers_def sf_fire_def grp_fire_def
        new_single_flight_def NewGroup_def NewRateLimiter_def rl_Allow_def rl_refill_defs rl_consumeToken_def sub
        reg_Allow_def GetLimiter_def RegisterLimiter_def NewRateLimiterRegistry_def DefaultHostKeyFunc_def
        default_client_def [of script_env])
  have once: "calls_for (\<lambda>req. DefaultHostKeyFunc req = Some ''host:h'') sc_now sent_to_h hosts_client"
    by (auto simp: calls_for_def hosts_client_def no_middleware script_do_def Let_def DefaultDebugConfig_def
        generateRequestID_def sent_to_h_def)
  have tick: "ticking script_env sc_now sent_to_h"
    by (auto simp: ticking_def quiet_def script_env_def sent_to_h_def)
  have "int (sent_to_h (w_out w')) - int (sent_to_h (w_out limited_world)) \<le>
      1 + (sc_now (w_out w') - 0) div Second"
    by (rule key_rate_bound [where r = "RegisterLimiter ''host:h'' (Some (LimiterAt 0))
        (NewRateLimiterRegistry (Some DefaultHostKeyFunc) None)", OF tick once _ _ _ _ _ _ _ _ _ d])
      (simp_all add: hosts_client_def limited_world_def RegisterLimiter_def NewRateLimiterRegistry_def Second_def w')
  with d w' show ?thesis by (auto simp: limited_world_def sent_to_h_def)
qed

subsection \<open>The circuit breaker\<close>

text \<open>What one round of the loop means to the breaker.\<close>

datatype breaker_round = Refused int | Failed int int | Succeeded int

fun round_events :: "breaker_round \<Rightarrow> breaker_event list" where
  "round_events (Refused t) = [AskAllow t]"
| "round_events (Failed t u) = [AskAllow t, Failure u]"
| "round_events (Succeeded t) = [AskAllow t, Success]"

fun let_through :: "breaker_round \<Rightarrow> bool" where
  "let_through (Refused t) = False"
| "let_through (Failed t u) = True"
| "let_through (Succeeded t) = True"

definition history :: "breaker_round list \<Rightarrow> breaker_event list" where
  "history rs = concat (map round_events rs)"

lemma history_snoc:
  assumes "run_cb (history rs) b0 = (map let_through rs, b)"
    and "run_cb (round_events r) b = ([let_through r], b')"
  shows "run_cb (history (rs @ [r])) b0 = (map let_through (rs @ [r]), b')"
  using assms by (simp add: history_def run_breaker_append)

text \<open>
  \<open>b0\<close> is the breaker and \<open>k0\<close> the count of calls at the beginning; \<open>b\<close> is the breaker before the
  round under way.
\<close>

definition told ::
  "'x env \<Rightarrow> ('x \<Rightarrow> nat) \<Rightarrow> CircuitBreaker \<Rightarrow> nat \<Rightarrow> stage \<Rightarrow> 'x state \<Rightarrow> bool" where
  "told e counted b0 k0 g s \<longleftrightarrow> quiet e counted \<and>
     (\<forall>req x res req' x'. executeMiddleware (fst s) req x = Some (res, req', x') \<longrightarrow> counted x' = counted x + 1) \<and>
     (\<forall>d gen x. c_debug (fst s) = Some d \<longrightarrow> dc_RequestIDGen d = Some gen \<longrightarrow> counted (snd (gen x)) = counted x) \<and>
     (\<exists>rs b. run_cb (history rs) b0 = (map let_through rs, b) \<and>
        counted (w_out (snd s)) = k0 + length (filter let_through rs) + of_bool (g = Sent) \<and>
        (if is_Cleared g \<or> g = Sent then \<exists>t. cb_Allow t b = (True, c_circuitBreaker (fst s))
         else c_circuitBreaker (fst s) = b))"

lemma told_world:
  assumes "told e counted b0 k0 g (c, w)" and "counted (w_out w') = counted (w_out w)"
  shows "told e counted b0 k0 g (c, w')"
  using assms(1) unfolding told_def fst_conv snd_conv assms(2) .

lemma told_quiet: "told e counted b0 k0 g s \<Longrightarrow> quiet e counted"
  unfolding told_def by blast

lemma told_clock:
  assumes "told e counted b0 k0 g (c, w)" and "clock e w = (t, w')"
  shows "told e counted b0 k0 g (c, w')"
  using clock_out [OF told_quiet [OF assms(1)] assms(2)] by (intro told_world [OF assms(1)]) simp

lemma told_prom: "told e counted b0 k0 g (c, w) \<Longrightarrow> told e counted b0 k0 g (c, on_prom f w)"
  by (erule told_world) (simp add: on_prom_def)

lemma told_log: "told e counted b0 k0 g (c, w) \<Longrightarrow> told e counted b0 k0 g (c, log_line flag level msg args c' w)"
  by (erule told_world) simp

lemma told_breaker:
  assumes "told e counted b0 k0 (Admitted req) s" and "ask_breaker e s = (ok, s')"
  shows "told e counted b0 k0 (if ok then Cleared req else Idle) s'"
proof (cases s)
  case (Pair c w)
  obtain now w1 where t: "clock e w = (now, w1)" by (cases "clock e w")
  obtain b' where a: "cb_Allow (i64 now) (c_circuitBreaker c) = (ok, b')" and s': "s' = (c\<lparr>c_circuitBreaker := b'\<rparr>, w1)"
    using assms(2) Pair t by (auto simp: ask_breaker_def split: prod.splits)
  have "told e counted b0 k0 (Admitted req) (c, w1)" using told_clock [OF _ t] assms(1) Pair by simp
  then obtain rs where rs: "run_cb (history rs) b0 = (map let_through rs, c_circuitBreaker c)"
    "counted (w_out w1) = k0 + length (filter let_through rs)"
    and rest: "quiet e counted"
      "\<forall>req x res req' x'. executeMiddleware c req x = Some (res, req', x') \<longrightarrow> counted x' = counted x + 1"
      "\<forall>d gen x. c_debug c = Some d \<longrightarrow> dc_RequestIDGen d = Some gen \<longrightarrow> counted (snd (gen x)) = counted x"
    by (auto simp: told_def)
  show ?thesis
  proof (cases ok)
    case True
    with rs rest a show ?thesis by (auto simp: told_def s')
  next
    case False
    have "run_cb (history (rs @ [Refused (i64 now)])) b0 = (map let_through (rs @ [Refused (i64 now)]), b')"
      by (rule history_snoc [OF rs(1)]) (simp add: a False)
    with rs(2) rest False show ?thesis
      unfolding told_def s' by (auto intro!: exI [of _ "rs @ [Refused (i64 now)]"])
  qed
qed

lemma told_outcome:
  assumes "told e counted b0 k0 Sent s"
  shows "told e counted b0 k0 Idle (record_outcome e req ep rid res s)"
proof (cases s)
  case (Pair c w)
  from assms Pair obtain rs b t where rs: "run_cb (history rs) b0 = (map let_through rs, b)"
    "counted (w_out w) = k0 + length (filter let_through rs) + 1" "cb_Allow t b = (True, c_circuitBreaker c)"
    and rest: "quiet e counted"
      "\<forall>req x res req' x'. executeMiddleware c req x = Some (res, req', x') \<longrightarrow> counted x' = counted x + 1"
      "\<forall>d gen x. c_debug c = Some d \<longrightarrow> dc_RequestIDGen d = Some gen \<longrightarrow> counted (snd (gen x)) = counted x"
    by (auto simp: told_def)
  have step: "told e counted b0 k0 Idle (c\<lparr>c_circuitBreaker := b'\<rparr>, w')"
    if "run_cb (round_events r) b = ([let_through r], b')" "let_through r" "counted (w_out w') = counted (w_out w)" for r b' w'
  proof -
    have "run_cb (history (rs @ [r])) b0 = (map let_through (rs @ [r]), b')" by (rule history_snoc [OF rs(1) that(1)])
    with rs(2) rest that(2,3) show ?thesis unfolding told_def by (auto intro!: exI [of _ "rs @ [r]"])
  qed
  obtain now w1 where t: "clock e w = (now, w1)" by (cases "clock e w")
  have w1: "counted (w_out w1) = counted (w_out w)" using clock_out [OF rest(1) t] by simp
  have out: "w_out (on_prom f w') = w_out w'" for f w' by (simp add: on_prom_def)
  show ?thesis
  proof (cases "failed res")
    case True
    have "run_cb (round_events (Failed t (i64 now))) b =
        ([let_through (Failed t (i64 now))], cb_RecordFailure (i64 now) (c_circuitBreaker c))"
      by (simp add: rs(3))
    from step [OF this] True w1 t Pair show ?thesis by (simp add: record_outcome_def Let_def out)
  next
    case False
    have "run_cb (round_events (Succeeded t)) b = ([let_through (Succeeded t)], cb_RecordSuccess (c_circuitBreaker c))"
      by (simp add: rs(3))
    from step [OF this] False Pair show ?thesis by (simp add: record_outcome_def Let_def out)
  qed
qed

interpretation told: client_invariant e "told e counted b0 k0" for e counted b0 k0
proof unfold_locales
  fix g c w t w' f and msg :: string and args :: "(string \<times> log_arg) list" and flag level
  assume p: "told e counted b0 k0 g (c, w)"
  show "clock e w = (t, w') \<Longrightarrow> told e counted b0 k0 g (c, w')" by (rule told_clock [OF p])
  show "told e counted b0 k0 g (c, on_prom f w)" by (rule told_prom [OF p])
  show "told e counted b0 k0 g (c, log_line flag level msg args c w)" by (rule told_log [OF p])
next
  fix s s' req ok key
  assume p: "told e counted b0 k0 Idle s" and l: "ask_limiter e req s = Some ((ok, key), s')"
  obtain c w where s: "s = (c, w)" by (cases s)
  obtain t w1 ls where t: "clock e w = (t, w1)" and s': "s' = (c, w1\<lparr>w_limiters := ls\<rparr>)"
    using ask_limiter_world [OF l [unfolded s]] .
  have "told e counted b0 k0 Idle s'"
    unfolding s' by (rule told_world [OF told_clock [OF p [unfolded s] t]]) simp
  then show "told e counted b0 k0 (if ok then Admitted req else Idle) s'" by (auto simp: told_def)
next
  fix s s' req ok
  assume p: "told e counted b0 k0 (Admitted req) s"
  show "ask_breaker e s = (ok, s') \<Longrightarrow> told e counted b0 k0 (if ok then Cleared req else Idle) s'"
    by (rule told_breaker [OF p])
next
  fix c w req res req' x
  assume "told e counted b0 k0 (Cleared req) (c, w)" and "executeMiddleware c req (w_out w) = Some (res, req', x)"
  then show "told e counted b0 k0 Sent (c, w\<lparr>w_out := x\<rparr>)" unfolding told_def by fastforce
next
  fix s req ep rid res
  assume p: "told e counted b0 k0 Sent s"
  show "told e counted b0 k0 Idle (record_outcome e req ep rid res s)" by (rule told_outcome [OF p])
next
  fix s s' res attempt dec
  assume p: "told e counted b0 k0 Idle s" and d: "decide_retry e res attempt s = Some (dec, s')"
  obtain c w where s: "s = (c, w)" by (cases s)
  obtain t w1 where t: "clock e w = (t, w1)" and s': "s' = (c, w1\<lparr>w_out := snd (e_rand e (w_out w1))\<rparr>)"
    using decide_retry_world [OF d [unfolded s]] .
  show "told e counted b0 k0 Idle s'"
    unfolding s' by (rule told_world [OF told_clock [OF p [unfolded s] t]]) (use told_quiet [OF p] in \<open>simp add: quiet_def\<close>)
next
  fix s s' ok
  assume p: "told e counted b0 k0 Idle s" and b: "ask_budget e s = (ok, s')"
  have rb: "told e counted b0 k0 Idle (c\<lparr>c_retryBudget := rb\<rparr>, w)" if "told e counted b0 k0 Idle (c, w)" for c w rb
    using that by (simp add: told_def)
  have "told e counted b0 k0 Idle s'"
    using p b by (cases s) (auto simp: ask_budget_def split: prod.splits option.splits intro!: rb elim!: told_clock)
  then show "told e counted b0 k0 (if ok then Granted else Idle) s'" by (simp add: told_def)
next
  fix c w d
  assume "told e counted b0 k0 Granted (c, w)"
  then have p: "told e counted b0 k0 Idle (c, w)" by (simp add: told_def)
  show "told e counted b0 k0 Idle (c, w\<lparr>w_out := e_sleep e d (w_out w)\<rparr>)"
    by (rule told_world [OF p]) (use told_quiet [OF p] in \<open>simp add: quiet_def\<close>)
next
  fix c w m dt sf grp
  assume p: "told e counted b0 k0 Idle (c, w)"
  show "told e counted b0 k0 Idle (c, w\<lparr>w_caches := m\<rparr>)" by (rule told_world [OF p]) simp
  show "told e counted b0 k0 Idle (c\<lparr>c_deduplication := dt, c_singleFlight := sf, c_singleFlightGroup := grp\<rparr>, w)"
    using p unfolding told_def by simp
next
  fix s s' rid
  assume p: "told e counted b0 k0 Idle s" and r: "new_request_id s = (rid, s')"
  obtain c w where s: "s = (c, w)" by (cases s)
  show "told e counted b0 k0 Idle s'"
    using r unfolding s
  proof (cases rule: new_request_id_world)
    case none
    with p s show ?thesis by simp
  next
    case (made d gen)
    then have "counted (snd (gen (w_out w))) = counted (w_out w)"
      using p [unfolded s] unfolding told_def fst_conv by blast
    then show ?thesis unfolding made(3) by (intro told_world [OF p [unfolded s]]) simp
  qed
qed



subsection \<open>The retry budget\<close>

text \<open>
  \<open>T\<close> tells the time as before, and \<open>retried\<close> grows with the pause before each retry, by
  at most one, and with nothing else.
\<close>

definition counts_pauses :: "'x env \<Rightarrow> ('x \<Rightarrow> int) \<Rightarrow> ('x \<Rightarrow> nat) \<Rightarrow> bool" where
  "counts_pauses e T retried \<longleftrightarrow>
     (\<forall>x. T x \<le> fst (e_now e x) \<and> fst (e_now e x) \<le> T (snd (e_now e x)) \<and> T x \<le> T (snd (e_rand e x))
       \<and> retried (snd (e_now e x)) = retried x \<and> retried (snd (e_rand e x)) = retried x
       \<and> (\<forall>d. T x \<le> T (e_sleep e d x) \<and> retried (e_sleep e d x) \<le> retried x + 1))"

definition pauses_alone :: "('x \<Rightarrow> int) \<Rightarrow> ('x \<Rightarrow> nat) \<Rightarrow> 'x Client \<Rightarrow> bool" where
  "pauses_alone T retried c \<longleftrightarrow>
     (\<forall>req x res req' x'. executeMiddleware c req x = Some (res, req', x') \<longrightarrow> retried x' = retried x \<and> T x \<le> T x') \<and>
     (\<forall>d gen x. c_debug c = Some d \<longrightarrow> dc_RequestIDGen d = Some gen \<longrightarrow>
        retried (snd (gen x)) = retried x \<and> T x \<le> T (snd (gen x)))"

lemma pauses_alone_same [simp]:
  "pauses_alone T retried (c\<lparr>c_circuitBreaker := cb\<rparr>) = pauses_alone T retried c"
  "pauses_alone T retried (c\<lparr>c_retryBudget := rb\<rparr>) = pauses_alone T retried c"
  "pauses_alone T retried (c\<lparr>c_deduplication := dt, c_singleFlight := sf, c_singleFlightGroup := grp\<rparr>) = pauses_alone T retried c"
  by (simp_all add: pauses_alone_def)

text \<open>\<open>k\<close> retries are paid for by the windows begun since \<open>start\<close> and by the count of the last one.\<close>

definition rb_spent :: "int \<Rightarrow> int \<Rightarrow> int \<Rightarrow> int \<Rightarrow> int \<Rightarrow> RetryBudget \<Rightarrow> bool" where
  "rb_spent start m W k now rb \<longleftrightarrow> rb_maxRetries rb = m \<and> rb_perWindow rb = W \<and> 0 \<le> rb_current rb \<and>
     rb_current rb \<le> m \<and> rb_windowStart rb \<le> now \<and>
     (\<exists>j\<ge>0. start + j * W \<le> rb_windowStart rb \<and> k \<le> m * j + rb_current rb)"

lemma rb_spent_le: "rb_spent start m W k now rb \<Longrightarrow> k' \<le> k \<Longrightarrow> rb_spent start m W k' now rb"
  by (auto simp: rb_spent_def intro: order_trans)

lemma rb_spent_Allow:
  assumes "rb_spent start m W k t rb" and "t \<le> now" and "now < 2 ^ 62" and "0 \<le> start" and "0 < W" and "m < 2 ^ 62"
    and "rb_Allow now rb = (ok, rb')"
  shows "rb_spent start m W (k + of_bool ok) now rb'"
proof -
  from assms(1) obtain j where j: "0 \<le> j" "start + j * W \<le> rb_windowStart rb" "k \<le> m * j + rb_current rb"
    and rb: "rb_maxRetries rb = m" "rb_perWindow rb = W" "0 \<le> rb_current rb" "rb_current rb \<le> m" "rb_windowStart rb \<le> t"
    by (auto simp: rb_spent_def)
  have "0 \<le> rb_windowStart rb" using j(1,2) assms(4,5) by (smt (verit) mult_nonneg_nonneg)
  with rb(5) assms(2,3) have sub: "sub64 now (rb_windowStart rb) = now - rb_windowStart rb"
    by (intro sub64_exact) (simp add: in64_def)
  define rb0 where "rb0 = (if now - rb_windowStart rb \<ge> W then rb\<lparr>rb_windowStart := now, rb_current := 0\<rparr> else rb)"
  have "rb_spent start m W k now rb0"
  proof (cases "now - rb_windowStart rb \<ge> W")
    case True
    have "start + (j + 1) * W \<le> now" using True j(2) by (simp add: algebra_simps)
    moreover have "k \<le> m * (j + 1)" using j(3) rb(4) by (simp add: algebra_simps)
    ultimately show ?thesis
      using True rb j(1) unfolding rb_spent_def rb0_def by (auto intro!: exI [of _ "j + 1"])
  next
    case False
    with rb j assms(2) show ?thesis unfolding rb_spent_def rb0_def by (auto intro!: exI [of _ j])
  qed
  moreover have "rb_Allow now rb = (if rb_current rb0 \<ge> m then (False, rb0)
      else (rb_current rb0 + 1 \<le> m, rb0\<lparr>rb_current := rb_current rb0 + 1\<rparr>))"
  proof -
    have "add64 (rb_current rb0) 1 = rb_current rb0 + 1"
      using calculation assms(6) by (intro add64_exact) (simp add: in64_def rb_spent_def)
    then show ?thesis by (simp add: rb_Allow_def Let_def sub rb rb0_def)
  qed
  ultimately show ?thesis using assms(7) by (auto simp: rb_spent_def split: if_splits)
qed

definition thrifty ::
  "'x env \<Rightarrow> ('x \<Rightarrow> int) \<Rightarrow> ('x \<Rightarrow> nat) \<Rightarrow> int \<Rightarrow> int \<Rightarrow> int \<Rightarrow> int \<Rightarrow> stage \<Rightarrow> 'x state \<Rightarrow> bool" where
  "thrifty e T retried start m W k0 g s \<longleftrightarrow> counts_pauses e T retried \<and> pauses_alone T retried (fst s) \<and>
     0 \<le> start \<and> 0 < W \<and> m < 2 ^ 62 \<and> c_retryBudget (fst s) \<noteq> None \<and>
     (T (w_out (snd s)) < 2 ^ 62 \<longrightarrow>
       (\<exists>rb t. c_retryBudget (fst s) = Some rb \<and> t \<le> T (w_out (snd s)) \<and>
          rb_spent start m W (int (retried (w_out (snd s))) - k0 + of_bool (g = Granted)) t rb))"

lemma thrifty_world:
  assumes "thrifty e T retried start m W k0 g (c, w)" and "T (w_out w) \<le> T (w_out w')"
    and "retried (w_out w') + of_bool (g' = Granted) \<le> retried (w_out w) + of_bool (g = Granted)"
  shows "thrifty e T retried start m W k0 g' (c, w')"
proof -
  have "int (retried (w_out w')) - k0 + of_bool (g' = Granted) \<le> int (retried (w_out w)) - k0 + of_bool (g = Granted)"
    using iffD2 [OF of_nat_le_iff [where 'a = int] assms(3)] by simp
  with assms(1,2) show ?thesis unfolding thrifty_def fst_conv snd_conv
    by (metis order_le_less_trans order_trans rb_spent_le)
qed

lemma thrifty_stage:
  "thrifty e T retried start m W k0 g s \<Longrightarrow> (g = Granted) = (g' = Granted) \<Longrightarrow> thrifty e T retried start m W k0 g' s"
  by (simp add: thrifty_def)

lemma thrifty_clock:
  assumes "thrifty e T retried start m W k0 g (c, w)" and "clock e w = (t, w')"
  shows "thrifty e T retried start m W k0 g (c, w')" "T (w_out w) \<le> t" "t \<le> T (w_out w')"
    "retried (w_out w') = retried (w_out w)"
proof -
  from assms show t: "T (w_out w) \<le> t" "t \<le> T (w_out w')" "retried (w_out w') = retried (w_out w)"
    by (auto simp: thrifty_def counts_pauses_def clock_def split: prod.splits) (metis fst_conv snd_conv)+
  show "thrifty e T retried start m W k0 g (c, w')" by (rule thrifty_world [OF assms(1)]) (use t in auto)
qed

lemma thrifty_breaker:
  "thrifty e T retried start m W k0 g (c, w) \<Longrightarrow> thrifty e T retried start m W k0 g (c\<lparr>c_circuitBreaker := cb\<rparr>, w)"
  by (simp add: thrifty_def)

lemma thrifty_prom:
  "thrifty e T retried start m W k0 g (c, w) \<Longrightarrow> thrifty e T retried start m W k0 g (c, on_prom f w)"
  by (erule thrifty_world) (simp_all add: on_prom_def)

lemma thrifty_log:
  "thrifty e T retried start m W k0 g (c, w) \<Longrightarrow>
   thrifty e T retried start m W k0 g (c, log_line flag level msg args c' w)"
  by (erule thrifty_world) simp_all

lemma thrifty_budget:
  assumes "thrifty e T retried start m W k0 Idle s" and "ask_budget e s = (ok, s')"
  shows "thrifty e T retried start m W k0 (if ok then Granted else Idle) s'"
proof -
  obtain c w where s: "s = (c, w)" by (cases s)
  obtain rb where rb: "c_retryBudget c = Some rb" using assms(1) s by (auto simp: thrifty_def)
  obtain now w1 where t: "clock e w = (now, w1)" by (cases "clock e w")
  obtain rb' where a: "rb_Allow (i64 now) rb = (ok, rb')" and s': "s' = (c\<lparr>c_retryBudget := Some rb'\<rparr>, w1)"
    using assms(2) s rb t by (auto simp: ask_budget_def split: prod.splits)
  note th = thrifty_clock [OF assms(1) [unfolded s] t]
  let ?k = "int (retried (w_out w1)) - k0"
  show ?thesis
    unfolding thrifty_def s' fst_conv snd_conv
  proof (intro conjI impI)
    assume hor: "T (w_out w1) < 2 ^ 62"
    with assms(1) s rb th obtain u where u: "u \<le> T (w_out w)" "rb_spent start m W ?k u rb"
      and nums: "0 \<le> start" "0 < W" "m < 2 ^ 62"
      by (auto simp: thrifty_def)
    from u(2) obtain j where "0 \<le> j" "start + j * W \<le> rb_windowStart rb" "rb_windowStart rb \<le> u"
      by (auto simp: rb_spent_def)
    with nums have "0 \<le> u" by (smt (verit) mult_nonneg_nonneg)
    with u(1) th(2,3) hor have now: "i64 now = now" "u \<le> now" "now < 2 ^ 62" by (auto simp: in64_def)
    have "rb_spent start m W (?k + of_bool ok) now rb'"
      by (rule rb_spent_Allow [OF u(2) now(2,3) nums(1,2,3) a [unfolded now(1)]])
    with th(3) show "\<exists>rb t. c_retryBudget (c\<lparr>c_retryBudget := Some rb'\<rparr>) = Some rb \<and> t \<le> T (w_out w1) \<and>
        rb_spent start m W (?k + of_bool ((if ok then Granted else Idle) = Granted)) t rb"
      by (intro exI [of _ rb'] exI [of _ now]) (cases ok, simp_all)
  qed (use assms(1) in \<open>simp_all add: s thrifty_def\<close>)
qed

interpretation thrifty: client_invariant e "thrifty e T retried start m W k0" for e T retried start m W k0
proof unfold_locales
  fix g c w t w' f and msg :: string and args :: "(string \<times> log_arg) list" and flag level
  assume p: "thrifty e T retried start m W k0 g (c, w)"
  show "clock e w = (t, w') \<Longrightarrow> thrifty e T retried start m W k0 g (c, w')" by (rule thrifty_clock [OF p])
  show "thrifty e T retried start m W k0 g (c, on_prom f w)"
    by (rule thrifty_prom [OF p])
  show "thrifty e T retried start m W k0 g (c, log_line flag level msg args c w)"
    by (rule thrifty_log [OF p])
next
  fix s s' req ok key
  assume p: "thrifty e T retried start m W k0 Idle s" and l: "ask_limiter e req s = Some ((ok, key), s')"
  obtain c w where s: "s = (c, w)" by (cases s)
  obtain t w1 ls where t: "clock e w = (t, w1)" and s': "s' = (c, w1\<lparr>w_limiters := ls\<rparr>)"
    using ask_limiter_world [OF l [unfolded s]] .
  have "thrifty e T retried start m W k0 Idle s'"
    unfolding s' by (rule thrifty_world [OF thrifty_clock(1) [OF p [unfolded s] t]]) simp_all
  then show "thrifty e T retried start m W k0 (if ok then Admitted req else Idle) s'" by (rule thrifty_stage) simp
next
  fix s s' req ok
  assume p: "thrifty e T retried start m W k0 (Admitted req) s" and b: "ask_breaker e s = (ok, s')"
  have "thrifty e T retried start m W k0 (Admitted req) s'"
    using p b by (cases s) (auto simp: ask_breaker_def split: prod.splits intro!: thrifty_breaker elim!: thrifty_clock)
  then show "thrifty e T retried start m W k0 (if ok then Cleared req else Idle) s'" by (rule thrifty_stage) simp
next
  fix c w req res req' x
  assume p: "thrifty e T retried start m W k0 (Cleared req) (c, w)" and x: "executeMiddleware c req (w_out w) = Some (res, req', x)"
  have "retried x = retried (w_out w) \<and> T (w_out w) \<le> T x"
    using p x unfolding thrifty_def pauses_alone_def fst_conv by blast
  then show "thrifty e T retried start m W k0 Sent (c, w\<lparr>w_out := x\<rparr>)" by (intro thrifty_world [OF p]) simp_all
next
  fix s req ep rid res
  assume "thrifty e T retried start m W k0 Sent s"
  then have p: "thrifty e T retried start m W k0 Idle s" by (rule thrifty_stage) simp
  show "thrifty e T retried start m W k0 Idle (record_outcome e req ep rid res s)"
    using p by (cases s) (auto simp: record_outcome_def Let_def split: prod.splits
        intro!: thrifty_breaker thrifty_prom thrifty_log elim!: thrifty_clock)
next
  fix s s' res attempt dec
  assume p: "thrifty e T retried start m W k0 Idle s" and d: "decide_retry e res attempt s = Some (dec, s')"
  obtain c w where s: "s = (c, w)" by (cases s)
  obtain t w1 where t: "clock e w = (t, w1)" and s': "s' = (c, w1\<lparr>w_out := snd (e_rand e (w_out w1))\<rparr>)"
    using decide_retry_world [OF d [unfolded s]] .
  show "thrifty e T retried start m W k0 Idle s'"
    unfolding s' by (rule thrifty_world [OF thrifty_clock(1) [OF p [unfolded s] t]])
      (use p in \<open>auto simp: thrifty_def counts_pauses_def\<close>)
next
  fix s s' ok
  assume p: "thrifty e T retried start m W k0 Idle s"
  show "ask_budget e s = (ok, s') \<Longrightarrow> thrifty e T retried start m W k0 (if ok then Granted else Idle) s'"
    by (rule thrifty_budget [OF p])
next
  fix c w d
  assume p: "thrifty e T retried start m W k0 Granted (c, w)"
  show "thrifty e T retried start m W k0 Idle (c, w\<lparr>w_out := e_sleep e d (w_out w)\<rparr>)"
    by (rule thrifty_world [OF p]) (use p in \<open>auto simp: thrifty_def counts_pauses_def\<close>)
next
  fix c w m' dt sf grp
  assume p: "thrifty e T retried start m W k0 Idle (c, w)"
  show "thrifty e T retried start m W k0 Idle (c, w\<lparr>w_caches := m'\<rparr>)" by (rule thrifty_world [OF p]) simp_all
  show "thrifty e T retried start m W k0 Idle (c\<lparr>c_deduplication := dt, c_singleFlight := sf, c_singleFlightGroup := grp\<rparr>, w)"
    using p by (simp add: thrifty_def)
next
  fix s s' rid
  assume p: "thrifty e T retried start m W k0 Idle s" and r: "new_request_id s = (rid, s')"
  obtain c w where s: "s = (c, w)" by (cases s)
  show "thrifty e T retried start m W k0 Idle s'"
    using r unfolding s
  proof (cases rule: new_request_id_world)
    case none
    with p s show ?thesis by simp
  next
    case (made d gen)
    then have "retried (snd (gen (w_out w))) = retried (w_out w) \<and> T (w_out w) \<le> T (snd (gen (w_out w)))"
      using p [unfolded s] unfolding thrifty_def pauses_alone_def fst_conv by blast
    then show ?thesis unfolding made(3) by (intro thrifty_world [OF p [unfolded s]]) simp_all
  qed
qed

lemma thrifty_start:
  assumes "counts_pauses e T retried" and "pauses_alone T retried c"
    and "c_retryBudget c = Some (NewRetryBudget start m W)"
    and "0 \<le> m" and "m < 2 ^ 62" and "0 < W" and "0 \<le> start" and "start \<le> T (w_out w)"
  shows "thrifty e T retried start m W (int (retried (w_out w))) Idle (c, w)"
proof -
  have "rb_spent start m W 0 start (NewRetryBudget start m W)"
    using assms(4) unfolding rb_spent_def NewRetryBudget_def by (auto intro!: exI [of _ 0])
  with assms show ?thesis unfolding thrifty_def by auto
qed

lemma thrifty_end:
  assumes "thrifty e T retried start m W k Idle (c, w)" and "T (w_out w) < 2 ^ 62" and "0 \<le> m"
  shows "int (retried (w_out w)) - k \<le> m * (1 + (T (w_out w) - start) div W)"
proof -
  from assms(1,2) obtain rb t where t: "t \<le> T (w_out w)" and "0 < W"
    and rb: "rb_spent start m W (int (retried (w_out w)) - k) t rb"
    by (auto simp: thrifty_def)
  from rb obtain j where "start + j * W \<le> rb_windowStart rb" "int (retried (w_out w)) - k \<le> m * j + rb_current rb"
    and "rb_current rb \<le> m" "rb_windowStart rb \<le> t"
    by (auto simp: rb_spent_def)
  with t have j: "j * W \<le> T (w_out w) - start" "int (retried (w_out w)) - k \<le> m * j + m" by auto
  have "j \<le> (T (w_out w) - start) div W"
    using zdiv_mono1 [OF j(1) \<open>0 < W\<close>] \<open>0 < W\<close> by simp
  then have "m * j \<le> m * ((T (w_out w) - start) div W)"
    using assms(3) by (rule mult_left_mono)
  with j(2) show ?thesis by (simp add: algebra_simps)
qed

text \<open>
  C8. The retry budget end to end: over any sequence of calls of \<open>Do\<close>, whatever policy decides about
  retries, a client with a budget of \<open>maxRetries\<close> for each \<open>perWindow\<close> nanoseconds has retried at most
  \<open>maxRetries\<close> times for the first window and for each further one that has begun since the budget was made.
\<close>

theorem client_retry_bound:
  assumes "counts_pauses e T retried" and "pauses_alone T retried c"
    and "c_retryBudget c = Some (NewRetryBudget start maxRetries perWindow)"
    and "0 \<le> maxRetries" and "maxRetries < 2 ^ 62" and "0 < perWindow" and "0 \<le> start" and "start \<le> T (w_out w)"
    and "run_requests e n reqs (c, w) = Some (answers, c', w')" and "T (w_out w') < 2 ^ 62"
  shows "int (retried (w_out w')) - int (retried (w_out w)) \<le>
    maxRetries * (1 + (T (w_out w') - start) div perWindow)"
  by (rule thrifty_end [OF thrifty.run_requests_keeps [OF thrifty_start [OF assms(1-8)] assms(9)] assms(10,4)])

text \<open>A server that fails, one retry an hour, and pauses of a second: the second retry is refused.\<close>

definition slow_env :: "script env" where
  "slow_env = script_env\<lparr>e_sleep := \<lambda>d x. x\<lparr>sc_now := sc_now x + Second\<rparr>\<rparr>"

definition thrifty_client :: "script Client" where
  "thrifty_client = (default_client script_env)\<lparr>c_retryBudget := Some (NewRetryBudget 0 1 Hour)\<rparr>"

lemma client_retry_bound_witness:
  "\<exists>answers c' w'. run_requests slow_env 4 [get_request ''h'' ''/'']
      (thrifty_client, script_world (replicate 4 (Some (status_response 503), None))) = Some (answers, c', w') \<and>
    length (sc_seen (w_out w')) = 2 \<and> sc_now (w_out w') div Second \<le> 1"
proof -
  let ?r = "get_request ''h'' ''/''" and ?w = "script_world (replicate 4 (Some (status_response 503), None))"
  have q: "quiet_debug thrifty_client" by (simp add: thrifty_client_def quiet_debug_def DefaultDebugConfig_def)
  obtain answers c' w' where d: "run_requests slow_env 4 [?r] (thrifty_client, ?w) = Some (answers, c', w')"
    and w': "sc_now (w_out w') = Second" "length (sc_seen (w_out w')) = 2"
    using q by (simp add: call_defs slow_env_def thrifty_client_def fire_timers_def sf_fire_def grp_fire_def
        new_single_flight_def NewGroup_def NewRetryBudget_def rb_Allow_def sub64_def Hour_def Minute_def
        default_client_def [of script_env] clock_def)
  have "counts_pauses slow_env sc_now (\<lambda>x. nat (sc_now x div Second))"
    by (auto simp: counts_pauses_def slow_env_def Second_def)
  moreover have "pauses_alone sc_now (\<lambda>x. nat (sc_now x div Second)) thrifty_client"
    by (auto simp: pauses_alone_def thrifty_client_def no_middleware script_do_def Let_def DefaultDebugConfig_def
        generateRequestID_def)
  ultimately have "int (nat (sc_now (w_out w') div Second)) - int (nat (sc_now (w_out ?w) div Second))
      \<le> 1 * (1 + (sc_now (w_out w') - 0) div Hour)"
    by (rule client_retry_bound [OF _ _ _ _ _ _ _ _ d]) (simp_all add: thrifty_client_def duration_defs w')
  with d w' show ?thesis by (auto simp: duration_defs)
qed

subsection \<open>The log\<close>

text \<open>Lines whose message holds no verb and that have arguments.\<close>

definition loud :: "(log_level \<times> string \<times> log_arg list) list \<Rightarrow> bool" where
  "loud ls \<longleftrightarrow> (\<forall>(level, msg, args) \<in> set ls. CHR ''%'' \<notin> set msg \<and> args \<noteq> [])"

lemma named_nonempty [simp]: "named args = [] \<longleftrightarrow> args = []"
  by (cases args rule: named.cases) simp_all

lemma loud_line:
  "loud (w_log w) \<Longrightarrow> CHR ''%'' \<notin> set msg \<Longrightarrow> args \<noteq> [] \<Longrightarrow> loud (w_log (log_line flag level msg args c w))"
  by (auto simp: loud_def log_line_def split: option.splits)

lemma clock_log: "clock e w = (t, w') \<Longrightarrow> w_log w' = w_log w"
  by (auto simp: clock_def split: prod.splits)

lemma on_prom_log [simp]: "w_log (on_prom f w) = w_log w"
  by (simp add: on_prom_def)

interpretation loud: plain_invariant e "\<lambda>s. loud (w_log (snd s))" for e
  by unfold_locales (auto simp: loud_line dest: clock_log)

text \<open>
  C33. Whatever the client prints through its \<open>SimpleLogger\<close>, over any sequence of calls of \<open>Do\<close>, comes with
  the complaint of \<open>fmt\<close> about arguments that have no verb, printed after the line has ended.
\<close>

theorem log_lines_have_extras:
  assumes "w_log w = []" and "run_requests e n reqs (c, w) = Some (answers, c', w')"
    and "(level, msg, args) \<in> set (w_log w')"
  shows "SimpleLogger_call dt (level, msg, args) =
    Some (level_tag level @ msg @ newline @ ''%!(EXTRA '' @ extra_list dt args @ '')'')"
proof -
  have "loud (w_log w')"
    using loud.run_requests_keeps [OF _ assms(2)] assms(1) by (simp add: loud_def)
  with assms(3) show ?thesis by (intro logger_extra) (auto simp: loud_def)
qed

definition logging_client :: "script Client" where
  "logging_client = (default_client script_env)\<lparr>c_logger := Some SimpleLogger,
     c_debug := Some ((DefaultDebugConfig script_env)\<lparr>dc_Enabled := True\<rparr>)\<rparr>"

lemma log_lines_have_extras_witness:
  "SimpleLogger_call (\<lambda>_. []) (Debug, ''Starting request'',
     named [(''requestID'', StringArg ''req_0''), (''method'', StringArg ''GET''),
            (''url'', StringArg ''http://h/''), (''endpoint'', StringArg ''h/'')]) =
   Some (''[DEBUG] Starting request'' @ newline @
     ''%!(EXTRA string=requestID, string=req_0, string=method, string=GET, '' @
     ''string=url, string=http://h/, string=endpoint, string=h/)'')"
proof -
  let ?line = "(Debug, ''Starting request'',
     named [(''requestID'', StringArg ''req_0''), (''method'', StringArg ''GET''),
            (''url'', StringArg ''http://h/''), (''endpoint'', StringArg ''h/'')])"
  have "CHR ''0'' = char_of (48 :: nat)" by (simp add: eq_char_of)
  then have z: "itoa 0 = ''0''" by (simp add: itoa_def nat_text.simps)
  obtain answers c' w' where d: "run_requests script_env 1 [get_request ''h'' ''/''] (logging_client, script_world [])
      = Some (answers, c', w')" and l: "?line \<in> set (w_log w')"
    by (simp add: call_defs logging_client_def fire_timers_def log_start_def log_line_def new_request_id_def
        DefaultDebugConfig_def generateRequestID_def z getEndpointFromRequest_def default_client_def [of script_env])
  have "w_log (script_world []) = []" by simp
  from log_lines_have_extras [OF this d l, of "\<lambda>_. []"] show ?thesis
    by (simp add: level_tag_def typed_text_def)
qed

end
