(* ===== verification/ClientCaching.thy ===== *)
theory ClientCaching
  imports ClientGuarantees
begin

text \<open>
  Two calls in a row: what the first one leaves behind for the second. A response that \<open>Do\<close> returned
  and stored answers the next call with the same key for as long as its TTL lasts, and while the
  deduplication entry of a call is kept, later callers with its key get its result.
\<close>

subsection \<open>Time passes\<close>

definition later :: "'x env \<Rightarrow> ('x \<Rightarrow> int) \<Rightarrow> ('x \<Rightarrow> nat) \<Rightarrow> int \<Rightarrow> 'x state \<Rightarrow> bool" where
  "later e T counted t0 s \<longleftrightarrow> ticking e T counted \<and> calls_once T counted (fst s) \<and> t0 \<le> T (w_out (snd s))"

lemma later_world:
  "later e T counted t0 (c, w) \<Longrightarrow> T (w_out w) \<le> T (w_out w') \<Longrightarrow> later e T counted t0 (c, w')"
  by (auto simp: later_def)

interpretation later: plain_invariant e "later e T counted t0" for e T counted t0
proof unfold_locales
  fix c w d dc gen req res req' x
  assume p: "later e T counted t0 (c, w)"
  then have tick: "ticking e T counted" and once: "calls_once T counted c" by (simp_all add: later_def)
  show "later e T counted t0 (c, w\<lparr>w_out := snd (e_rand e (w_out w))\<rparr>)"
    and "later e T counted t0 (c, w\<lparr>w_out := e_sleep e d (w_out w)\<rparr>)"
    by (rule later_world [OF p]; use tick in \<open>simp add: ticking_def\<close>)+
  show "c_debug c = Some dc \<Longrightarrow> dc_RequestIDGen dc = Some gen \<Longrightarrow> later e T counted t0 (c, w\<lparr>w_out := snd (gen (w_out w))\<rparr>)"
    by (rule later_world [OF p]) (use once in \<open>auto simp: calls_once_def\<close>)
  assume "executeMiddleware c req (w_out w) = Some (res, req', x)"
  then have "T (w_out w) \<le> T x" using once unfolding calls_once_def by blast
  then show "later e T counted t0 (c, w\<lparr>w_out := x\<rparr>)" by (intro later_world [OF p]) simp
next
  fix c w t w'
  assume p: "later e T counted t0 (c, w)" and t: "clock e w = (t, w')"
  from p have "ticking e T counted" by (simp add: later_def)
  from ticking_clock [OF this t] show "later e T counted t0 (c, w')" by (intro later_world [OF p]) simp
qed (auto simp: later_def on_prom_def)

subsection \<open>The beginning of a call\<close>

lemma Do_start:
  assumes "Do e n req (c, w) = Some (ans, req', s')" and "ticking e T counted" and "calls_once T counted c"
  obtains st rid w1 where "serve e n req (getEndpointFromRequest req) st rid (c, w1) = Some (ans, req', s')"
    "w_caches w1 = w_caches w" "T (w_out w) \<le> T (w_out w1)" "counted (w_out w1) = counted (w_out w)"
proof -
  obtain st w1 where t: "clock e w = (st, w1)" by (cases "clock e w")
  obtain rid c1 w2 where r: "new_request_id (c, w1) = (rid, c1, w2)" by (cases "new_request_id (c, w1)") auto
  have w2: "c1 = c" "w_caches w2 = w_caches w1" "T (w_out w1) \<le> T (w_out w2)" "counted (w_out w2) = counted (w_out w1)"
    using r assms(3) by (auto simp: calls_once_def elim!: new_request_id_world)
  from assms(1) t r obtain w3 where l: "log_start req rid c1 w2 = Some w3"
    by (cases "log_start req rid c1 w2") (auto simp: Do_def)
  then have w3: "w_caches w3 = w_caches w2" "w_out w3 = w_out w2"
    by (auto simp: log_start_def Let_def split: if_splits)
  note tick = ticking_clock [OF assms(2) t]
  let ?w = "on_prom (RecordRequestStart (c_metrics c) (rq_Method req) (getEndpointFromRequest req)) w3"
  have "serve e n req (getEndpointFromRequest req) st rid (c, ?w) = Some (ans, req', s')"
    using assms(1) t r l w2(1) by (simp add: Do_def Let_def)
  moreover have "w_caches ?w = w_caches w" using clock_fields [OF t] w2 w3 by simp
  moreover have "T (w_out w) \<le> T (w_out ?w)" "counted (w_out ?w) = counted (w_out w)"
    using tick w2 w3 by (simp_all add: on_prom_def)
  ultimately show ?thesis by (rule that)
qed

subsection \<open>The client with an in-memory cache in TTL mode\<close>

definition memory_client ::
  "nat \<Rightarrow> (request \<Rightarrow> bool) \<Rightarrow> (request \<Rightarrow> string) \<Rightarrow> 'x Client \<Rightarrow> bool" where
  "memory_client a cond kf c \<longleftrightarrow> c_cache c = Some a \<and> c_cacheProvider c = None \<and> c_cacheMode c = TTLOnly \<and>
     c_cacheCondition c = Some cond \<and> c_cacheKeyFunc c = Some kf \<and> c_deduplication c = None"

lemma memory_client_same [simp]:
  "memory_client a cond kf (c\<lparr>c_circuitBreaker := cb, c_retryBudget := rb\<rparr>) = memory_client a cond kf c"
  by (simp add: memory_client_def)

text \<open>What is stored of a response whose body was read to \<open>body\<close>.\<close>

definition stored_entry :: "response \<Rightarrow> string \<Rightarrow> CacheEntry" where
  "stored_entry resp body =
     \<lparr>ent_Response = Some resp, ent_Body = body, ent_StatusCode = rs_StatusCode resp, ent_Header = rs_Header resp,
      ent_ExpiresAt = zero_time, ent_ETag = [], ent_LastModified = None, ent_MaxAge = None, ent_StaleAt = None,
      ent_IsStale = False\<rparr>"

lemma createCacheEntry_stored:
  "createCacheEntry resp = Some (Some entry, resp') \<Longrightarrow>
   \<exists>body. resp' = resp\<lparr>rs_Body := Reader body True\<rparr> \<and> entry = stored_entry resp' body"
  by (auto simp: createCacheEntry_def stored_entry_def Let_def split: option.splits prod.splits)

lemma store_response_in_memory:
  assumes "memory_client a cond kf c" and "w_caches w a = Some (InMemory m)"
    and "store_response e req rid resp (c, w) = Some (resp', s')"
  obtains now w1 w' body where "clock e w = (now, w1)" "s' = (c, w')" "resp' = resp\<lparr>rs_Body := Reader body True\<rparr>"
    "w_out w' = w_out w1" "w_caches w' = (w_caches w)(a \<mapsto>
       InMemory (imc_Set now (kf req) (stored_entry resp' body) (getCacheTTLForRequest (c_cacheTTL c) req) m))"
proof -
  note c = assms(1) [unfolded memory_client_def]
  obtain now w1 where t: "clock e w = (now, w1)" by (cases "clock e w")
  from assms(3) c t obtain entry where e: "createCacheEntry resp = Some (Some entry, resp')"
    by (auto simp: store_response_def bind_eq_Some_conv Let_def)
  from createCacheEntry_stored [OF e] obtain body where
    b: "resp' = resp\<lparr>rs_Body := Reader body True\<rparr>" "entry = stored_entry resp' body" by blast
  have out: "w_out (on_prom f w2) = w_out w2" for f w2 by (simp add: on_prom_def)
  obtain c' w' where s': "s' = (c', w')" by (cases s')
  from assms(2,3) c e t b(2) clock_fields [OF t]
  have "c' = c \<and> w_out w' = w_out w1 \<and> w_caches w' = (w_caches w)(a \<mapsto>
       InMemory (imc_Set now (kf req) (stored_entry resp' body) (getCacheTTLForRequest (c_cacheTTL c) req) m))"
    by (auto simp: store_response_def with_cache_def Let_def out s')
  with that [OF t _ b(1)] s' show ?thesis by blast
qed

lemma lookup_memory:
  assumes "memory_client a cond kf c" and "cond req" and "w_caches w a = Some (InMemory m)"
    and "clock e w = (t, w1)" and "lookup_cache e n req st rid (c, w) = Some (r, req', c', w')"
  shows "req' = req \<and> c' = c" and "fst (imc_Get t (kf req) m) = None \<Longrightarrow>
      r = Inr True \<and> w_caches w' = (w_caches w)(a \<mapsto> InMemory (snd (imc_Get t (kf req) m))) \<and> w_out w' = w_out w1"
    and "fst (imc_Get t (kf req) m) = Some entry \<Longrightarrow>
      r = Inl (Answered (Some (createResponseFromCache entry), None)) \<and>
      (quiet e counted \<longrightarrow> counted (w_out w') = counted (w_out w1))"
proof -
  note c = assms(1) [unfolded memory_client_def]
  obtain found m' where g: "imc_Get t (kf req) m = (found, m')" by force
  let ?w = "w1\<lparr>w_caches := (w_caches w)(a \<mapsto> InMemory m')\<rparr>"
  have w: "with_cache a (\<lambda>obj. Some (obj_Get t (kf req) obj)) w1 = Some (found, ?w)"
    using assms(3) clock_fields [OF assms(4)] g by (simp add: with_cache_def)
  have out: "w_out (on_prom f w2) = w_out w2" "w_caches (on_prom f w2) = w_caches w2" for f w2
    by (simp_all add: on_prom_def)
  have hit: "counted (w_out (record_hit e r st msg args status c w2)) = counted (w_out w2)"
    if "quiet e counted" for r msg args status c w2
    using clock_counted [OF that] by (simp add: record_hit_def Let_def out split: prod.splits)
  show "req' = req \<and> c' = c"
    using assms(2,4,5) c w by (cases found) (auto simp: lookup_cache_def Let_def mode_defs)
  show "fst (imc_Get t (kf req) m) = None \<Longrightarrow>
      r = Inr True \<and> w_caches w' = (w_caches w)(a \<mapsto> InMemory (snd (imc_Get t (kf req) m))) \<and> w_out w' = w_out w1"
    using assms(2,4,5) c w g by (auto simp: lookup_cache_def Let_def mode_defs out)
  show "fst (imc_Get t (kf req) m) = Some entry \<Longrightarrow>
      r = Inl (Answered (Some (createResponseFromCache entry), None)) \<and>
      (quiet e counted \<longrightarrow> counted (w_out w') = counted (w_out w1))"
    using assms(2,4,5) c w g by (auto simp: lookup_cache_def Let_def mode_defs hit)
qed

lemma complete_nobody [simp]: "complete_dedup e req False res s = Some s"
  by (cases s) (simp add: complete_dedup_def split: option.splits)

text \<open>The first call: the lookup misses, the loop answers, the response is stored.\<close>

lemma first_call:
  assumes "ticking e T counted" and "calls_once T counted c" and "memory_client a cond kf c" and "cond req"
    and "w_caches w a = Some (InMemory m)" and "imc_view m (kf req) = None"
    and "Do e n req (c, w) = Some (Answered (Some resp, None), req', s')" and "rs_StatusCode resp < 400"
  obtains now cb rb w' body where "s' = (c\<lparr>c_circuitBreaker := cb, c_retryBudget := rb\<rparr>, w')" "T (w_out w) \<le> now"
    "rs_Body resp = Reader body True"
    "w_caches w' = (w_caches w)(a \<mapsto>
       InMemory (imc_Set now (kf req') (stored_entry resp body) (getCacheTTLForRequest (c_cacheTTL c) req') m))"
proof -
  note c = assms(3) [unfolded memory_client_def]
  let ?ep = "getEndpointFromRequest req"
  obtain st rid w1 where s: "serve e n req ?ep st rid (c, w1) = Some (Answered (Some resp, None), req', s')"
    and w1: "w_caches w1 = w_caches w" "T (w_out w) \<le> T (w_out w1)"
    using Do_start [OF assms(7,1,2)] by metis
  obtain t w2 where t: "clock e w1 = (t, w2)" by (cases "clock e w1")
  have get: "imc_Get t (kf req) m = (None, m)" using assms(6) by (simp add: imc_Get_def imc_view_def Let_def)
  from s c obtain r req2 c2 w3 where l: "lookup_cache e n req st rid (c, w1) = Some (r, req2, c2, w3)"
    by (cases "lookup_cache e n req st rid (c, w1)") (auto simp: serve_def join_dedup_def)
  have m1: "w_caches w1 a = Some (InMemory m)" using w1 assms(5) by simp
  note look = lookup_memory [OF assms(3,4) m1 t l]
  from look(1,2) get w1 assms(5) have look: "req2 = req" "c2 = c" "r = Inr True" "w_caches w3 = w_caches w" "w_out w3 = w_out w2"
    by (auto simp: fun_upd_idem)
  have later0: "later e T counted (T (w_out w)) (c, w3)"
    using assms(1,2) w1(2) ticking_clock [OF assms(1) t] look(5) by (simp add: later_def)
  from s c l look obtain ans req3 s3 where d: "doWithRetry e n req 0 rid st (c, w3) = Some (ans, req3, s3)"
    by (cases "doWithRetry e n req 0 rid st (c, w3)") (auto simp: serve_def join_dedup_def fetch_def mode_defs)
  have later1: "later e T counted (T (w_out w)) s3" by (rule later.loop_keeps [OF later0 d])
  obtain cb rb where s3: "fst s3 = c\<lparr>c_circuitBreaker := cb, c_retryBudget := rb\<rparr>" "w_caches (snd s3) = w_caches w"
    using frame_client [OF loop_frame [OF d]] loop_frame [OF d] look(4) by (auto simp: frame_def)
  obtain w4 where w4: "s3 = (c\<lparr>c_circuitBreaker := cb, c_retryBudget := rb\<rparr>, w4)" using s3(1) by (cases s3) auto
  let ?c = "c\<lparr>c_circuitBreaker := cb, c_retryBudget := rb\<rparr>"
  have mem: "memory_client a cond kf ?c" using assms(3) by simp
  from s c l look d w4 obtain res where ans: "ans = Answered res" "req3 = req'"
    and fin: "finish_request e req' ?ep st rid True False res (?c, w4) = Some ((Some resp, None), s')"
    by (cases ans) (auto simp: serve_def join_dedup_def fetch_def mode_defs bind_eq_Some_conv)
  let ?w4 = "on_prom (RecordRequestEnd (c_metrics ?c) (rq_Method req') ?ep) w4"
  obtain t' w5 where t': "clock e ?w4 = (t', w5)" by (cases "clock e ?w4")
  from fin t' assms(8) mem obtain resp0 f where
    st: "store_response e req' rid resp0 (?c, on_prom f w5) = Some (resp, s')"
    by (auto simp: finish_request_def bind_eq_Some_conv Let_def split: if_splits)
  have "later e T counted (T (w_out w)) (?c, ?w4)" using later1 unfolding w4 by (rule later.prom_plain)
  from later.prom_plain [OF later.clock_plain [OF this t']]
  have later2: "later e T counted (T (w_out w)) (?c, on_prom f w5)" .
  have m5: "w_caches (on_prom f w5) = w_caches w"
    using clock_fields [OF t'] s3(2) w4 by (simp add: on_prom_def)
  then have "w_caches (on_prom f w5) a = Some (InMemory m)" using assms(5) by simp
  from store_response_in_memory [OF mem this st] obtain now w6 w' body where
    n: "clock e (on_prom f w5) = (now, w6)" "s' = (?c, w')" "resp = resp0\<lparr>rs_Body := Reader body True\<rparr>"
    "w_caches w' = (w_caches (on_prom f w5))(a \<mapsto>
       InMemory (imc_Set now (kf req') (stored_entry resp body) (getCacheTTLForRequest (c_cacheTTL ?c) req') m))" .
  have "T (w_out w) \<le> now"
    using later2 ticking_clock(1) [OF assms(1) n(1)] by (simp add: later_def)
  from that [OF n(2) this] n(3,4) m5 show ?thesis by simp
qed

text \<open>The second call: a lookup that finds the entry, unless it comes too late.\<close>

lemma second_call:
  assumes "ticking e T counted" and "calls_once T counted c" and "memory_client a cond kf c" and "cond req"
    and "w_caches w a = Some (InMemory m)" and "imc_view m (kf req) = Some entry"
    and "Do e n req (c, w) = Some (ans, req', s')" and "T (w_out (snd s')) \<le> ent_ExpiresAt entry"
  shows "ans = Answered (Some (createResponseFromCache entry), None) \<and>
    counted (w_out (snd s')) = counted (w_out w)"
proof -
  note c = assms(3) [unfolded memory_client_def]
  let ?ep = "getEndpointFromRequest req"
  obtain st rid w1 where s: "serve e n req ?ep st rid (c, w1) = Some (ans, req', s')"
    and w1: "w_caches w1 = w_caches w" "counted (w_out w1) = counted (w_out w)"
    using Do_start [OF assms(7,1,2)] by metis
  obtain t w2 where t: "clock e w1 = (t, w2)" by (cases "clock e w1")
  note tick = ticking_clock [OF assms(1) t]
  from s c obtain r req2 c2 w3 where l: "lookup_cache e n req st rid (c, w1) = Some (r, req2, c2, w3)"
    by (cases "lookup_cache e n req st rid (c, w1)") (auto simp: serve_def join_dedup_def)
  have m1: "w_caches w1 a = Some (InMemory m)" using w1 assms(5) by simp
  note look = lookup_memory [OF assms(3,4) m1 t l]
  show ?thesis
  proof (cases "t \<le> ent_ExpiresAt entry")
    case True
    then have "fst (imc_Get t (kf req) m) = Some entry" using assms(6) by (simp add: imc_Get_def imc_view_def Let_def)
    from look(1) look(3) [OF this, of counted] s c l tick(3) w1(2) assms(1) show ?thesis
      by (auto simp: serve_def join_dedup_def ticking_def)
  next
    case False
    then have "fst (imc_Get t (kf req) m) = None" using assms(6) by (simp add: imc_Get_def imc_view_def Let_def)
    from look(1) look(2) [OF this] have look: "req2 = req" "c2 = c" "r = Inr True" "w_out w3 = w_out w2" by auto
    have "later e T counted t (c, w3)" using assms(1,2) tick look by (simp add: later_def)
    moreover from s c l look obtain ans3 req3 s3 where
      f: "fetch e n req st rid True (c, w3) = Some (False, ans3, req3, s3)"
      by (cases "doWithRetry e n req 0 rid st (c, w3)") (auto simp: serve_def join_dedup_def fetch_def mode_defs)
    ultimately have "later e T counted t s3" by (rule later.fetch_keeps)
    moreover from s c l look f have "s' = s3 \<or> (\<exists>res res'. finish_request e req3 ?ep st rid True False res s3 = Some (res', s'))"
      by (cases ans3) (auto simp: serve_def join_dedup_def bind_eq_Some_conv)
    ultimately have "later e T counted t s'" by (auto dest: later.finish_request_keeps)
    with False assms(8) show ?thesis by (simp add: later_def)
  qed
qed

subsection \<open>Properties\<close>


definition memory_example :: "script Client \<times> script world" where
  "memory_example = (cached_client, (script_world [])\<lparr>w_caches := [0 \<mapsto> InMemory NewInMemoryCache]\<rparr>)"

lemma script_calls_once:
  "c_middleware c = [] \<Longrightarrow> c_httpClient c = Some h \<Longrightarrow> hc_do h = script_do \<Longrightarrow>
   c_debug c = Some (DefaultDebugConfig script_env) \<Longrightarrow> calls_once sc_now (\<lambda>x. length (sc_seen x)) c"
  by (auto simp: calls_once_def no_middleware script_do_def Let_def DefaultDebugConfig_def generateRequestID_def)

lemma imc_Get_Set:
  "imc_valid c \<Longrightarrow> now \<le> t + ttl \<Longrightarrow>
   imc_Get now k (imc_Set t k entry ttl c) = (Some (entry\<lparr>ent_ExpiresAt := t + ttl\<rparr>), imc_Set t k entry ttl c)"
  using imc_getShard_less [of c k] by (simp add: imc_Get_def imc_Set_def Let_def)


text \<open>What the owner leaves behind.\<close>

lemma owner_completes:
  assumes "ticking e T counted" and "calls_once T counted c"
    and "c_cache c = None" and "c_cacheProvider c = None"
    and "c_deduplication c = Some dt" and "c_dedupCondition c = Some cond" and "c_dedupKeyFunc c = Some kf"
    and "cond req" and "kf req = Some k" and "dt_entries dt k = None"
    and "Do e n req (c, w) = Some (Answered res, req1, c1, w1)" and "kf req1 = Some k"
  obtains dt2 a where "calls_once T counted c1" "c_dedupCondition c1 = Some cond" "c_dedupKeyFunc c1 = Some kf"
    "c_deduplication c1 = Some dt2" "dt_entries dt2 k = Some a"
    "de_done (dt_heap dt2 a)" "de_response (dt_heap dt2 a) = fst res" "de_err (dt_heap dt2 a) = snd res"
proof -
  let ?ep = "getEndpointFromRequest req"
  obtain st rid w3 where s: "serve e n req ?ep st rid (c, w3) = Some (Answered res, req1, c1, w1)"
    using Do_start [OF assms(11,1,2)] by metis
  define dt1 where "dt1 = snd (GetOrCreateEntry k dt)"
  define a where "a = dt_fresh dt"
  have g: "GetOrCreateEntry k dt = ((a, True), dt1)" "dt_entries dt1 k = Some a" "\<not> de_done (dt_heap dt1 a)"
    using assms(10) by (simp_all add: GetOrCreateEntry_def dt1_def a_def Let_def)
  let ?c = "c\<lparr>c_deduplication := Some dt1\<rparr>"
  let ?w4 = "log_line (\<lambda>_. True) Debug ''Deduplication miss - proceeding with request''
    [(''requestID'', StringArg rid), (''dedupKey'', StringArg k)] ?c w3"
  from s assms(3-9) g(1) obtain ans3 req3 s3 where d: "doWithRetry e n req 0 rid st (?c, ?w4) = Some (ans3, req3, s3)"
    by (cases "doWithRetry e n req 0 rid st (?c, ?w4)") (auto simp: serve_def join_dedup_def lookup_cache_def fetch_def Let_def)
  with s assms(3-9) g(1) obtain res3 where ans: "ans3 = Answered res3" "req3 = req1"
    and fin: "finish_request e req1 ?ep st rid False True res3 s3 = Some (res, c1, w1)"
    by (cases ans3) (auto simp: serve_def join_dedup_def lookup_cache_def fetch_def Let_def bind_eq_Some_conv)
  obtain cb rb w5 where s3: "s3 = (?c\<lparr>c_circuitBreaker := cb, c_retryBudget := rb\<rparr>, w5)"
    using frame_client [OF loop_frame [OF d]] by (cases s3) auto
  let ?c3 = "?c\<lparr>c_circuitBreaker := cb, c_retryBudget := rb\<rparr>"
  from fin s3 obtain w6 where "complete_dedup e req1 True res (?c3, w6) = Some (c1, w1)"
    by (auto simp: finish_request_def bind_eq_Some_conv Let_def split: prod.splits)
  with assms(7,12) g(2,3) obtain now where c1: "c1 = ?c3\<lparr>c_deduplication := Some (dt1\<lparr>
      dt_heap := (dt_heap dt1)(a := (dt_heap dt1 a)\<lparr>de_response := fst res, de_err := snd res, de_done := True\<rparr>),
      dt_timers := dt_timers dt1 @ [(now + 100 * Millisecond, k)]\<rparr>)\<rparr>"
    by (auto simp: complete_dedup_def Complete_def Let_def split: prod.splits)
  have "calls_once T counted c1" "c_dedupCondition c1 = Some cond" "c_dedupKeyFunc c1 = Some kf"
    using assms(2,6,7) by (simp_all add: c1 calls_once_def executeMiddleware_def transport_def)
  moreover obtain dt2 where "c_deduplication c1 = Some dt2" "dt_entries dt2 k = Some a"
    "de_done (dt_heap dt2 a)" "de_response (dt_heap dt2 a) = fst res" "de_err (dt_heap dt2 a) = snd res"
    using g(2) c1 by auto
  ultimately show ?thesis using that by blast
qed

text \<open>
  C17. A finished call answers for those that come late: with deduplication and no cache, once \<open>Do\<close> has
  returned an answer (a response or an error) for a request it owns, and as long as the timer that drops
  the entry 100 ms later has not fired, a call with the same key whose context is not done returns that
  same answer, and does not call the transport.
\<close>

theorem finished_call_is_shared:
  assumes "ticking e T counted" and "calls_once T counted c"
    and "c_cache c = None" and "c_cacheProvider c = None"
    and "c_deduplication c = Some dt" and "c_dedupCondition c = Some cond" and "c_dedupKeyFunc c = Some kf"
    and "cond req" and "kf req = Some k" and "dt_entries dt k = None"
    and "Do e n req (c, w) = Some (Answered res, req1, c1, w1)" and "kf req1 = Some k"
    and "cond req2" and "kf req2 = Some k" and "\<And>x. e_ctx e req2 x = None"
    and "Do e n2 req2 (c1, w1) = Some (ans, req2', c2, w2)"
  shows "ans = Answered res \<and> counted (w_out w2) = counted (w_out w1)"
proof -
  obtain dt2 a where once: "calls_once T counted c1"
    and fields: "c_dedupCondition c1 = Some cond" "c_dedupKeyFunc c1 = Some kf"
    and dt2: "c_deduplication c1 = Some dt2" "dt_entries dt2 k = Some a"
      "de_done (dt_heap dt2 a)" "de_response (dt_heap dt2 a) = fst res" "de_err (dt_heap dt2 a) = snd res"
    using owner_completes [OF assms(1-12)] by metis
  obtain st2 rid2 w7 where s2: "serve e n2 req2 (getEndpointFromRequest req2) st2 rid2 (c1, w7) = Some (ans, req2', c2, w2)"
    and w7: "counted (w_out w7) = counted (w_out w1)"
    using Do_start [OF assms(16,1) once] by metis
  define dt3 where "dt3 = snd (GetOrCreateEntry k dt2)"
  have g2: "GetOrCreateEntry k dt2 = ((a, False), dt3)" using dt2(2) by (simp add: GetOrCreateEntry_def dt3_def Let_def)
  have "Wait (dt_heap dt3 a) None = [res]"
    using dt2 by (simp add: GetOrCreateEntry_def dt3_def Let_def Wait_def)
  moreover obtain t w8 where t: "clock e w7 = (t, w8)" by (cases "clock e w7")
  moreover have "w_out (on_prom f w) = w_out w" for f w by (simp add: on_prom_def)
  ultimately show ?thesis
    using s2 dt2(1) fields assms(13-15) g2 w7 ticking_clock(3) [OF assms(1) t]
    by (auto simp: serve_def join_dedup_def Let_def)
qed

text \<open>A network error is handed on to the next caller in this way.\<close>

definition shared_client :: "script Client" where
  "shared_client = (default_client script_env)\<lparr>c_maxRetries := 0, c_deduplication := Some NewDeduplicationTracker,
     c_dedupCondition := Some (\<lambda>_. True), c_dedupKeyFunc := Some (\<lambda>_. Some ''k'')\<rparr>"

lemma finished_call_is_shared_witness:
  "\<exists>res req1 s1 ans req2 s2.
     Do script_env 1 (get_request ''h'' ''/'') (shared_client, script_world [(None, Some net_error)]) =
       Some (Answered res, req1, s1) \<and> fst res = None \<and>
     Do script_env 1 (get_request ''h'' ''/'') s1 = Some (ans, req2, s2) \<and>
     ans = Answered res \<and> length (sc_seen (w_out (snd s2))) = 1"
proof -
  let ?r = "get_request ''h'' ''/''" and ?w = "script_world [(None, Some net_error)]"
  note defs = call_defs shared_client_def default_client_def [of script_env] GetOrCreateEntry_def NewDeduplicationTracker_def
    Complete_def Wait_def Millisecond_def quiet_debug_def DefaultDebugConfig_def
  obtain res req1 c1 w1 where d1: "Do script_env 1 ?r (shared_client, ?w) = Some (Answered res, req1, c1, w1)"
    and w1: "length (sc_seen (w_out w1)) = 1" "fst res = None"
    and d2: "\<exists>ans req2 c2 w2. Do script_env 1 ?r (c1, w1) = Some (ans, req2, c2, w2)"
    by (simp add: defs)
  then obtain ans req2 c2 w2 where d2: "Do script_env 1 ?r (c1, w1) = Some (ans, req2, c2, w2)" by blast
  have once: "calls_once sc_now (\<lambda>x. length (sc_seen x)) shared_client"
    by (rule script_calls_once [where h = "\<lparr>hc_Timeout = 30 * Second, hc_do = script_do\<rparr>"])
      (simp_all add: shared_client_def)
  have "ans = Answered res \<and> length (sc_seen (w_out w2)) = length (sc_seen (w_out w1))"
    by (rule finished_call_is_shared [where dt = NewDeduplicationTracker and cond = "\<lambda>_. True" and
          kf = "\<lambda>_. Some ''k''" and k = "''k''", OF script_ticks once _ _ _ _ _ _ _ _ d1 _ _ _ _ d2])
      (simp_all add: shared_client_def NewDeduplicationTracker_def)
  with d1 d2 w1 show ?thesis by auto
qed

end
