(* ===== verification/Examples.thy ===== *)
theory Examples
  imports ClientCaching
begin

text \<open>
  The program \<open>example/main.go\<close>: the seven clients it builds, and its sections in their order. A
  section gives the lines it prints (without the date that \<open>log\<close> puts before its own) and how it ends:
  it goes on, exits with a failure, or waits for ever (or for fuel). The text of a duration and that of a
  response's status are parameters, and so is the printing of the middleware, which happens inside a
  call.
\<close>

subsection \<open>The clients\<close>

definition httpbinJSON :: string where
  "httpbinJSON = ''https://httpbin.org/json''"

definition basic_options :: "'x Option list" where
  "basic_options =
     [WithMaxRetries 3, WithInitialBackoff (100 * Millisecond), WithMaxBackoff (5 * Second), WithRateLimiter 10 Second,
      WithCache (2 * Minute), WithCircuitBreaker \<lparr>FailureThreshold = 0, RecoveryTimeout = 0, SuccessThreshold = 0\<rparr>,
      WithDeduplication, WithSimpleLogger, WithDebug]"

definition decorrelated_options :: "'x Option list" where
  "decorrelated_options =
     [WithBackoffStrategy DecorrelatedJitter, WithMaxRetries 3, WithInitialBackoff (100 * Millisecond),
      WithMaxBackoff (5 * Second), WithSimpleLogger]"

fun retry_on_failure :: "response option \<Rightarrow> go_error option \<Rightarrow> bool option" where
  "retry_on_failure resp err =
     Some (err \<noteq> None \<or> (case resp of None \<Rightarrow> False | Some r \<Rightarrow> rs_StatusCode r \<ge> 500))"

definition timing_middleware :: "'x env \<Rightarrow> (string \<Rightarrow> 'x \<Rightarrow> 'x) \<Rightarrow> (int \<Rightarrow> string) \<Rightarrow> 'x Middleware" where
  "timing_middleware e print dt req nxt x =
     (let req = req\<lparr>rq_Header := header_set ''User-Agent'' ''klayengo-example'' (rq_Header req)\<rparr>;
          (start, x) = e_now e x
      in do {
           (res, req, x) \<leftarrow> nxt req x;
           u \<leftarrow> rq_URL req;
           (let (now, x) = e_now e x
            in Some (res, req, print (''request '' @ url_Host u @ '' took '' @ dt (time_sub now start) @ newline) x))
         })"

definition advanced_options :: "'x env \<Rightarrow> (string \<Rightarrow> 'x \<Rightarrow> 'x) \<Rightarrow> (int \<Rightarrow> string) \<Rightarrow> 'x Option list" where
  "advanced_options e print dt =
     [WithRetryCondition (Some retry_on_failure), WithMiddleware [Some (timing_middleware e print dt)], WithMetrics,
      WithCircuitBreaker \<lparr>FailureThreshold = 3, RecoveryTimeout = 5 * Second, SuccessThreshold = 1\<rparr>, WithMaxRetries 2]"

definition example_policy :: DefaultRetryPolicy where
  "example_policy = NewDefaultRetryPolicy 3 (100 * Millisecond) (5 * Second) (Fin 2) (flt (1 / 10))"

definition retry_options :: "'x Option list" where
  "retry_options =
     [WithRetryPolicy (Some (DefaultPolicy example_policy)), WithRetryBudget 5 Minute, WithSimpleLogger, WithDebug]"

definition budget_options :: "'x Option list" where
  "budget_options =
     [WithRetryBudget 2 (10 * Second), WithMaxRetries 5, WithInitialBackoff (10 * Millisecond), WithSimpleLogger]"

text \<open>\<open>NewRateLimiter\<close> for a limiter of its own, which the caller holds by its address.\<close>

definition new_limiter :: "'x env \<Rightarrow> int \<Rightarrow> int \<Rightarrow> 'x world \<Rightarrow> nat \<times> 'x world" where
  "new_limiter e maxTokens refillRate w =
     (let (now, w) = clock e w; a = w_fresh w
      in (a, w\<lparr>w_fresh := a + 1,
               w_limiters := (w_limiters w)(a \<mapsto> PlainLimiter (NewRateLimiter (i64 now) maxTokens refillRate))\<rparr>))"

definition per_host_options :: "nat \<Rightarrow> nat \<Rightarrow> 'x Option list" where
  "per_host_options apiLimiter webLimiter =
     [WithLimiterKeyFunc (Some DefaultHostKeyFunc), WithLimiterFor ''host:httpbin.org'' (Some (LimiterAt apiLimiter)),
      WithLimiterFor ''host:example.com'' (Some (LimiterAt webLimiter)), WithRateLimiter 2 Second, WithSimpleLogger]"

definition per_route_options :: "nat \<Rightarrow> nat \<Rightarrow> 'x Option list" where
  "per_route_options jsonLimiter htmlLimiter =
     [WithLimiterKeyFunc (Some DefaultRouteKeyFunc), WithLimiterFor ''route:GET:/json'' (Some (LimiterAt jsonLimiter)),
      WithLimiterFor ''route:GET:/html'' (Some (LimiterAt htmlLimiter)), WithSimpleLogger]"

subsection \<open>The sections\<close>

datatype ending = Goes_on | Exits | Waits

type_synonym 'x demo = "'x world \<Rightarrow> (ending \<times> string list \<times> 'x world) option"

text \<open>\<open>None\<close>: a nil body is closed, which panics.\<close>

definition close_body :: "response \<Rightarrow> unit option" where
  "close_body resp = (if rs_Body resp = NilBody then None else Some ())"

definition when_valid :: "string \<Rightarrow> 'x Client \<Rightarrow> 'x demo \<Rightarrow> 'x demo" where
  "when_valid name c rest w =
     (if IsValid c then rest w
      else Some (Exits, [''invalid '' @ name @ '' client config: '' @
        (case ValidationError c of None \<Rightarrow> ''<nil>'' | Some err \<Rightarrow> Error err) @ newline], w))"

text \<open>A request that has to succeed.\<close>

definition must_get :: "'x env \<Rightarrow> nat \<Rightarrow> string \<Rightarrow> 'x Client \<Rightarrow> 'x demo" where
  "must_get e n name c w = do {
     (ans, c, w) \<leftarrow> Get e n httpbinJSON (c, w);
     (case ans of
        Answered (_, Some err) \<Rightarrow> Some (Exits, [name @ '' GET failed: '' @ Error err @ newline], w)
      | Answered (Some resp, None) \<Rightarrow> do {
          close_body resp;
          Some (Goes_on, [name @ '' GET status '' @ itoa (rs_StatusCode resp) @ newline], w)
        }
      | Answered (None, None) \<Rightarrow> None
      | _ \<Rightarrow> Some (Waits, [], w))
   }"

definition basic_section :: "'x env \<Rightarrow> nat \<Rightarrow> 'x demo" where
  "basic_section e n w = do {
     (basic, w) \<leftarrow> New basic_options e w;
     when_valid ''basic'' basic (must_get e n ''basic'' basic) w
   }"

definition decorrelated_section :: "'x env \<Rightarrow> nat \<Rightarrow> 'x demo" where
  "decorrelated_section e n w = do {
     (c, w) \<leftarrow> New decorrelated_options e w;
     when_valid ''decorrelated'' c (must_get e n ''decorrelated jitter'' c) w
   }"

definition advanced_section :: "'x env \<Rightarrow> nat \<Rightarrow> (string \<Rightarrow> 'x \<Rightarrow> 'x) \<Rightarrow> (int \<Rightarrow> string) \<Rightarrow> 'x demo" where
  "advanced_section e n print dt w = do {
     (c, w) \<leftarrow> New (advanced_options e print dt) e w;
     must_get e n ''advanced'' c w
   }"

definition retry_section :: "'x env \<Rightarrow> nat \<Rightarrow> 'x demo" where
  "retry_section e n w = do {
     (c, w) \<leftarrow> New retry_options e w;
     when_valid ''retry'' c (\<lambda>w.
       let title = newline @ ''--- Testing Retry Policy with Retry-After Support ---'' @ newline in do {
         (ans, c, w) \<leftarrow> Get e n httpbinJSON (c, w);
         (case ans of
            Answered (_, Some err) \<Rightarrow>
              Some (Goes_on, [title, ''retry policy GET failed (this might be expected): '' @ Error err @ newline], w)
          | Answered (Some resp, None) \<Rightarrow> do {
              close_body resp;
              Some (Goes_on, [title, ''retry policy GET successful, status: '' @ itoa (rs_StatusCode resp) @ newline], w)
            }
          | Answered (None, None) \<Rightarrow> None
          | _ \<Rightarrow> Some (Waits, [title], w))
       }) w
   }"

text \<open>The two requests against the endpoint that fails; their responses are not used.\<close>

fun report :: "string \<Rightarrow> answer \<Rightarrow> string list" where
  "report what (Answered (_, Some err)) = [what @ '': '' @ Error err @ newline]"
| "report what _ = []"

definition waits :: "answer \<Rightarrow> bool" where
  "waits ans \<longleftrightarrow> (case ans of Answered _ \<Rightarrow> False | _ \<Rightarrow> True)"

definition budget_section :: "'x env \<Rightarrow> nat \<Rightarrow> 'x demo" where
  "budget_section e n w =
     (let title = newline @ ''--- Testing Retry Budget Exhaustion ---'' @ newline; url = ''https://httpbin.org/status/500'' in do {
        (c, w) \<leftarrow> New budget_options e w;
        (ans1, c, w) \<leftarrow> Get e n url (c, w);
        if waits ans1 then Some (Waits, [title], w)
        else do {
          (ans2, c, w) \<leftarrow> Get e n url (c, w);
          Some (if waits ans2 then Waits else Goes_on,
            title # report ''First request failed as expected'' ans1 @
            report ''Second request failed due to retry budget'' ans2, w)
        }
      })"

text \<open>Numbered requests with a pause after each.\<close>

fun request_loop ::
  "'x env \<Rightarrow> nat \<Rightarrow> (response \<Rightarrow> string) \<Rightarrow> (int \<Rightarrow> string \<Rightarrow> string) \<Rightarrow> int \<Rightarrow> (int \<times> string) list \<Rightarrow> 'x state \<Rightarrow>
   (ending \<times> string list \<times> 'x state) option" where
  "request_loop e n status name pause [] s = Some (Goes_on, [], s)"
| "request_loop e n status name pause ((i, url) # rest) s = do {
     (ans, c, w) \<leftarrow> Get e n url s;
     line \<leftarrow> (case ans of
                Answered (_, Some err) \<Rightarrow> Some (name i url @ '' failed: '' @ Error err @ newline)
              | Answered (Some resp, None) \<Rightarrow> do {
                  close_body resp;
                  Some (name i url @ '' succeeded: '' @ status resp @ newline)
                }
              | Answered (None, None) \<Rightarrow> None
              | _ \<Rightarrow> Some []);
     if waits ans then Some (Waits, [], c, w)
     else do {
       (how, lines, s) \<leftarrow> request_loop e n status name pause rest (c, w\<lparr>w_out := e_sleep e pause (w_out w)\<rparr>);
       Some (how, line # lines, s)
     }
   }"

definition per_host_section :: "'x env \<Rightarrow> nat \<Rightarrow> (response \<Rightarrow> string) \<Rightarrow> 'x demo" where
  "per_host_section e n status w =
     (let (apiLimiter, w) = new_limiter e 5 Second w; (webLimiter, w) = new_limiter e 20 Second w in do {
        (c, w) \<leftarrow> New (per_host_options apiLimiter webLimiter) e w;
        (how, lines, c, w) \<leftarrow> request_loop e n status (\<lambda>i url. ''Request '' @ itoa (i + 1)) (50 * Millisecond)
          (map (\<lambda>i. (i, httpbinJSON)) [0..7]) (c, w);
        Some (how, (newline @ ''--- Testing Per-Host Rate Limiting ---'' @ newline) # lines, w)
      })"

definition per_route_section :: "'x env \<Rightarrow> nat \<Rightarrow> (response \<Rightarrow> string) \<Rightarrow> 'x demo" where
  "per_route_section e n status w =
     (let (jsonLimiter, w) = new_limiter e 3 Second w; (htmlLimiter, w) = new_limiter e 10 Second w in do {
        (c, w) \<leftarrow> New (per_route_options jsonLimiter htmlLimiter) e w;
        (how, lines, c, w) \<leftarrow> request_loop e n status (\<lambda>i url. ''Route request '' @ itoa (i + 1) @ '' to '' @ url)
          (100 * Millisecond)
          (map (\<lambda>i. (i, if i mod 2 = 1 then ''https://httpbin.org/html'' else ''https://httpbin.org/json'')) [0..5]) (c, w);
        Some (how, (newline @ ''--- Testing Per-Route Rate Limiting ---'' @ newline) # lines, w)
      })"

fun in_sequence :: "'x demo list \<Rightarrow> 'x demo" where
  "in_sequence [] w = Some (Goes_on, [], w)"
| "in_sequence (sec # secs) w = do {
     (how, lines, w) \<leftarrow> sec w;
     if how = Goes_on then do {
       (how, lines', w) \<leftarrow> in_sequence secs w;
       Some (how, lines @ lines', w)
     }
     else Some (how, lines, w)
   }"

definition example_main ::
  "'x env \<Rightarrow> nat \<Rightarrow> (string \<Rightarrow> 'x \<Rightarrow> 'x) \<Rightarrow> (int \<Rightarrow> string) \<Rightarrow> (response \<Rightarrow> string) \<Rightarrow> 'x demo" where
  "example_main e n print dt status =
     in_sequence [basic_section e n, decorrelated_section e n, advanced_section e n print dt, retry_section e n,
       budget_section e n, per_host_section e n status, per_route_section e n status]"

subsection \<open>The clients are valid\<close>

lemmas example_option_defs =
  configure_def WithMaxRetries_def WithInitialBackoff_def WithMaxBackoff_def WithRateLimiter_def WithCache_def
  WithCircuitBreaker_def WithDeduplication_def WithSimpleLogger_def WithDebug_def WithBackoffStrategy_def
  WithRetryCondition_def WithMiddleware_def WithMetrics_def WithRetryPolicy_def WithRetryBudget_def
  WithLimiterKeyFunc_def WithLimiterFor_def rateLimiter_as_Limiter_def debug_or_default_def Let_def

lemmas validation_defs =
  validation_messages_def validateRetryConfig_def validateRetryPolicyConfig_def validateRetryBudgetConfig_def
  validateBackoffStrategyConfig_def validateRateLimiterConfig_def validateCacheConfig_def
  validateCircuitBreakerConfig_def validateDebugConfig_def validateDeduplicationConfig_def
  validateMiddlewareConfig_def validateHTTPClientConfig_def validateOptionCombinations_def
  validateExtremeValues_def the_rateLimiter_def

lemmas example_value_defs =
  default_client_def default_jitter [unfolded float_consts] duration_defs strategy_codes less_eq_float64_def float_consts
  NewCircuitBreaker_def breaker_defaults_def DefaultDebugConfig_def mul64_def i64_def NewRateLimiter_def NewRetryBudget_def

lemmas example_valid_defs = New_def ValidateConfiguration_def IsValid_def updateBackoffCalculator_def
  example_option_defs validation_defs example_value_defs

lemma basic_valid: "\<exists>c w'. New basic_options e w = Some (c, w') \<and> IsValid c"
proof -
  obtain now w1 where "clock e w = (now, w1)" by (cases "clock e w")
  then show ?thesis by (simp add: basic_options_def example_valid_defs)
qed

lemma decorrelated_valid: "\<exists>c w'. New decorrelated_options e w = Some (c, w') \<and> IsValid c"
  by (simp add: decorrelated_options_def example_valid_defs)

lemma advanced_valid:
  assumes "NewMetricsCollector e (w_out w) \<noteq> None"
  shows "\<exists>c w'. New (advanced_options e print dt) e w = Some (c, w') \<and> IsValid c"
proof -
  from assms obtain mc x where "NewMetricsCollector e (w_out w) = Some (mc, x)" by auto
  then show ?thesis by (simp add: advanced_options_def example_valid_defs)
qed

lemma retry_valid: "\<exists>c w'. New retry_options e w = Some (c, w') \<and> IsValid c"
proof -
  obtain now w1 where "clock e w = (now, w1)" by (cases "clock e w")
  then show ?thesis by (simp add: retry_options_def example_valid_defs)
qed

text \<open>The client of the budget section, as it is made.\<close>

definition budget_made :: "'x env \<Rightarrow> int \<Rightarrow> 'x Client" where
  "budget_made e now = (default_client e)\<lparr>c_retryBudget := Some (NewRetryBudget (i64 now) 2 (10 * Second)),
     c_maxRetries := 5, c_initialBackoff := 10 * Millisecond,
     c_debug := Some ((DefaultDebugConfig e)\<lparr>dc_Enabled := True\<rparr>), c_logger := Some SimpleLogger\<rparr>"

lemma New_budget:
  assumes "clock e w = (now, w1)"
  shows "New budget_options e w = Some (budget_made e now, w1)" "IsValid (budget_made e now)"
  using assms by (simp_all add: budget_options_def example_valid_defs budget_made_def)

lemma budget_valid: "\<exists>c w'. New budget_options e w = Some (c, w') \<and> IsValid c"
  using New_budget [of e w] by (cases "clock e w") auto

text \<open>The per-host client: its registry took its fallback before there was a limiter to fall back to.\<close>

definition per_host_registry :: "nat \<Rightarrow> nat \<Rightarrow> RateLimiterRegistry" where
  "per_host_registry a b = RegisterLimiter ''host:example.com'' (Some (LimiterAt b)) (RegisterLimiter ''host:httpbin.org''
     (Some (LimiterAt a)) (NewRateLimiterRegistry (Some DefaultHostKeyFunc) (Some NilLimiter)))"

definition per_host_made :: "'x env \<Rightarrow> nat \<Rightarrow> nat \<Rightarrow> nat \<Rightarrow> 'x Client" where
  "per_host_made e a b own = (default_client e)\<lparr>c_rateLimiter := Some own, c_limiterRegistry := Some (per_host_registry a b),
     c_limiterKeyFunc := Some DefaultHostKeyFunc, c_debug := Some ((DefaultDebugConfig e)\<lparr>dc_Enabled := True\<rparr>),
     c_logger := Some SimpleLogger\<rparr>"

lemma per_host_registry_GetLimiter:
  "GetLimiter (per_host_registry a b) req = map_option (\<lambda>key.
     if key = ''host:httpbin.org'' then (Some (LimiterAt a), key) else if key = ''host:example.com'' then (Some (LimiterAt b), key)
     else (Some NilLimiter, ''default'')) (DefaultHostKeyFunc req)"
  by (auto simp: per_host_registry_def GetLimiter_def RegisterLimiter_def NewRateLimiterRegistry_def split: option.splits)

lemma New_per_host:
  assumes "clock e w = (now, w1)"
  shows "New (per_host_options a b) e w = Some (per_host_made e a b (w_fresh w1), w1\<lparr>w_fresh := w_fresh w1 + 1,
      w_limiters := (w_limiters w1)(w_fresh w1 \<mapsto> PlainLimiter (NewRateLimiter (i64 now) 2 Second))\<rparr>)"
    "IsValid (per_host_made e a b own)"
  using assms by (simp_all add: per_host_options_def example_valid_defs per_host_made_def per_host_registry_def)

lemma per_host_valid: "\<exists>c w'. New (per_host_options a b) e w = Some (c, w') \<and> IsValid c"
  using New_per_host [of e w] by (cases "clock e w") auto

lemma per_route_valid: "\<exists>c w'. New (per_route_options a b) e w = Some (c, w') \<and> IsValid c"
  by (simp add: per_route_options_def example_valid_defs)


subsection \<open>What the sections show\<close>

text \<open>The budget of the section, and nothing but the transport of the library below it.\<close>

lemma budget_client:
  assumes "New budget_options e w = Some (c, w')"
  obtains now where "clock e w = (now, w')" "c_retryBudget c = Some (NewRetryBudget (i64 now) 2 (10 * Second))"
    "executeMiddleware c = e_do e (30 * Second)" "c_debug c = Some ((DefaultDebugConfig e)\<lparr>dc_Enabled := True\<rparr>)"
proof -
  obtain now w1 where t: "clock e w = (now, w1)" by (cases "clock e w")
  with assms New_budget(1) [OF t] that show ?thesis
    by (auto simp: budget_made_def executeMiddleware_def transport_def default_client_def)
qed

context client_invariant
begin

lemma request_loop_keeps:
  assumes "\<And>c w. P Idle (c, w) \<Longrightarrow> P Idle (c, w\<lparr>w_out := e_sleep e pause (w_out w)\<rparr>)"
  shows "P Idle s \<Longrightarrow> request_loop e n status name pause reqs s = Some (how, lines, s') \<Longrightarrow> P Idle s'"
proof (induction reqs arbitrary: s how lines)
  case (Cons req rest)
  obtain i url where r: "req = (i, url)" by (cases req)
  with Cons.prems(2) obtain ans c w where g: "Get e n url s = Some (ans, c, w)"
    by (auto simp: bind_eq_Some_conv)
  note s1 = Get_keeps [OF Cons.prems(1) g]
  from Cons.prems(2) r g s1 Cons.IH [OF assms [OF s1]] show ?case
    by (auto simp: bind_eq_Some_conv split: if_splits)
qed simp

end

text \<open>
  The budget section of the example: as its comments say, the two requests together are retried at
  most twice while they take less than ten seconds, and twice more for each ten seconds they take,
  whatever the server answers.
\<close>

theorem example_budget_bound:
  assumes "counts_pauses e T retried"
    and "\<And>t req x res req' x'. e_do e t req x = Some (res, req', x') \<Longrightarrow> retried x' = retried x \<and> T x \<le> T x'"
    and "budget_section e n w = Some (how, lines, w')" and "0 \<le> T (w_out w)" and "T (w_out w') < 2 ^ 62"
  shows "int (retried (w_out w')) - int (retried (w_out w)) \<le> 2 * (1 + (T (w_out w') - T (w_out w)) div (10 * Second))"
proof -
  from assms(3) obtain c w1 where new: "New budget_options e w = Some (c, w1)"
    by (auto simp: budget_section_def Let_def bind_eq_Some_conv)
  from budget_client [OF new] obtain now where t: "clock e w = (now, w1)"
    and c: "c_retryBudget c = Some (NewRetryBudget (i64 now) 2 (10 * Second))" "executeMiddleware c = e_do e (30 * Second)"
      "c_debug c = Some ((DefaultDebugConfig e)\<lparr>dc_Enabled := True\<rparr>)" .
  have now: "T (w_out w) \<le> now" "now \<le> T (w_out w1)" "retried (w_out w1) = retried (w_out w)"
    using assms(1) t by (auto simp: counts_pauses_def clock_def split: prod.splits) (metis fst_conv snd_conv)+
  have alone: "pauses_alone T retried c"
    using assms(1,2) by (auto simp: pauses_alone_def c DefaultDebugConfig_def generateRequestID_def counts_pauses_def
        split: prod.splits) (metis fst_conv snd_conv order_trans)+
  from assms(3) new obtain ans1 s1 where g1: "Get e n ''https://httpbin.org/status/500'' (c, w1) = Some (ans1, s1)"
    and rest: "w' = snd s1 \<or> (\<exists>ans2 c2. Get e n ''https://httpbin.org/status/500'' s1 = Some (ans2, c2, w'))"
    by (auto simp: budget_section_def Let_def bind_eq_Some_conv split: if_splits)
  have "ticking e T (\<lambda>_. 0)" "calls_once T (\<lambda>_. 0) c"
    using assms(1) alone by (simp_all add: ticking_def quiet_def counts_pauses_def calls_once_def pauses_alone_def)
  then have "later e T (\<lambda>_. 0) now (c, w1)" using now by (simp add: later_def)
  note l1 = later.Get_keeps [OF this g1]
  then have "now \<le> T (w_out w')"
    using rest later.Get_keeps [OF l1] by (auto simp: later_def)
  with now assms(4,5) have start: "i64 now = now" "0 \<le> now" by (auto simp: in64_def)
  have th: "thrifty e T retried now 2 (10 * Second) (int (retried (w_out w1))) Idle (c, w1)"
    by (rule thrifty_start [OF assms(1) alone c(1) [unfolded start(1)]]) (use now start in \<open>simp_all add: duration_defs\<close>)
  note t1 = thrifty.Get_keeps [OF this g1]
  obtain c' where "thrifty e T retried now 2 (10 * Second) (int (retried (w_out w1))) Idle (c', w')"
    using rest t1 thrifty.Get_keeps [OF t1] by (metis prod.collapse)
  from thrifty_end [OF this assms(5)] have
    "int (retried (w_out w')) - int (retried (w_out w)) \<le> 2 * (1 + (T (w_out w') - now) div (10 * Second))"
    by (simp add: now(3))
  also have "\<dots> \<le> 2 * (1 + (T (w_out w') - T (w_out w)) div (10 * Second))"
    using now(1) by (simp add: zdiv_mono1 duration_defs)
  finally show ?thesis .
qed


text \<open>A server that always fails: both requests end at the budget, after two retries in all.\<close>

definition failing_env :: "script env" where
  "failing_env = slow_env\<lparr>e_new_request := \<lambda>m u b. Inr (get_request ''httpbin.org'' ''/status/500'')\<rparr>"

lemma example_budget_bound_witness:
  "\<exists>lines w'. budget_section failing_env 6 (script_world (replicate 8 (Some (status_response 500), None)))
      = Some (Goes_on, lines, w') \<and> sc_now (w_out w') = 2 * Second \<and> length (sc_seen (w_out w')) = 4 \<and>
    sc_now (w_out w') div Second \<le> 2"
proof -
  let ?w = "script_world (replicate 8 (Some (status_response 500), None))"
  obtain lines w' where d: "budget_section failing_env 6 ?w = Some (Goes_on, lines, w')"
    and w': "sc_now (w_out w') = 2 * Second" "length (sc_seen (w_out w')) = 4"
    by (simp add: call_defs failing_env_def slow_env_def budget_section_def Get_def New_budget clock_def budget_made_def
        default_client_def duration_defs NewRetryBudget_def NewCircuitBreaker_def breaker_defaults_def strategy_codes
        rb_Allow_def sub64_def new_request_id_def log_start_def log_line_def
        generateRequestID_def waits_def DefaultDebugConfig_def)
  have "counts_pauses failing_env sc_now (\<lambda>x. nat (sc_now x div Second))"
    by (auto simp: counts_pauses_def failing_env_def slow_env_def Second_def)
  then have "int (nat (sc_now (w_out w') div Second)) - int (nat (sc_now (w_out ?w) div Second))
      \<le> 2 * (1 + (sc_now (w_out w') - sc_now (w_out ?w)) div (10 * Second))"
    by (rule example_budget_bound [OF _ _ d])
      (auto simp: failing_env_def slow_env_def script_do_def Let_def w' Second_def)
  with d w' show ?thesis by (auto simp: duration_defs)
qed


lemma clock_fresh: "clock e w = (t, w') \<Longrightarrow> w_fresh w' = w_fresh w"
  by (auto simp: clock_def split: prod.splits)

lemma per_host_client:
  assumes "New (per_host_options a b) e w = Some (c, w')"
  obtains now w1 own where "clock e w = (now, w1)" "w_out w' = w_out w1" "c = per_host_made e a b own"
    "w_limiters w' = (w_limiters w1)(w_fresh w1 \<mapsto> PlainLimiter (NewRateLimiter (i64 now) 2 Second))"
proof -
  obtain now w1 where t: "clock e w = (now, w1)" by (cases "clock e w")
  with assms New_per_host(1) [OF t] that show ?thesis by auto
qed

lemma per_host_made_simps [simp]:
  "c_limiterRegistry (per_host_made e a b own) = Some (per_host_registry a b)"
  "c_debug (per_host_made e a b own) = Some ((DefaultDebugConfig e)\<lparr>dc_Enabled := True\<rparr>)"
  "executeMiddleware (per_host_made e a b own) = e_do e (30 * Second)"
  "c_deduplication (per_host_made e a b own) = None" "c_cache (per_host_made e a b own) = None"
  "c_cacheProvider (per_host_made e a b own) = None"
  by (simp_all add: per_host_made_def default_client_def executeMiddleware_def transport_def)

text \<open>
  C38. The fallback of the per-host client is no fallback: the option \<open>WithRateLimiter\<close>, marked so in the
  example and in the README, comes after the registry has taken the nil pointer, and the first request
  to a host without a limiter of its own panics.
\<close>

theorem example_other_host_panics:
  assumes "New (per_host_options a b) e w = Some (c, w')"
    and "DefaultHostKeyFunc req = Some key" and "key \<notin> {''host:httpbin.org'', ''host:example.com''}"
  shows "IsValid c \<and> Do e (Suc n) req (c, w2) = None"
proof
  from per_host_valid [of a b e w] assms(1) show "IsValid c" by auto
  obtain own where c: "c = per_host_made e a b own" using per_host_client [OF assms(1)] by metis
  have "GetLimiter (per_host_registry a b) req = Some (Some NilLimiter, ''default'')"
    using assms(2,3) by (simp add: per_host_registry_GetLimiter)
  then have "ask_limiter e req (c, w3) = None" for w3
    by (simp add: c ask_limiter_def reg_Allow_def split: prod.splits)
  then have loop: "doWithRetry e (Suc n) req att rid st (c, w3) = None" for att rid st w3
    by (simp add: try_once_def)
  have "serve e (Suc n) req ep st rid (c, w3) = None" for ep st rid w3
    using c loop by (simp add: serve_def join_dedup_def lookup_cache_def fetch_def)
  moreover obtain st w4 where "clock e w2 = (st, w4)" by (cases "clock e w2")
  moreover obtain rid w5 where "new_request_id (c, w4) = (rid, c, w5)"
    by (cases "new_request_id (c, w4)") (auto elim!: new_request_id_world)
  ultimately show "Do e (Suc n) req (c, w2) = None"
    by (simp add: Do_def Let_def)
qed

lemma example_other_host_panics_witness:
  "\<exists>c w'. New (per_host_options 0 1) script_env (script_world []) = Some (c, w') \<and> IsValid c \<and>
    Do script_env 4 (get_request ''api.example.com'' ''/'') (c, w') = None"
proof -
  obtain c w' where n: "New (per_host_options 0 1) script_env (script_world []) = Some (c, w')"
    using per_host_valid by blast
  have "DefaultHostKeyFunc (get_request ''api.example.com'' ''/'') = Some ''host:api.example.com''"
    by (simp add: DefaultHostKeyFunc_def get_request_def)
  from example_other_host_panics [OF n this, of 3 w'] n show ?thesis by (simp add: eval_nat_numeral del: doWithRetry.simps)
qed


text \<open>The section up to its loop.\<close>

lemma per_host_start:
  assumes "per_host_section e n status w = Some (how, lines, w')" and "ticking e T counted"
  obtains c c' w1 t1 a b own where "c = per_host_made e a b own"
    "request_loop e n status (\<lambda>i url. ''Request '' @ itoa (i + 1)) (50 * Millisecond)
      (map (\<lambda>i. (i, httpbinJSON)) [0..7]) (c, w1) = Some (how, tl lines, c', w')"
    "w_limiters w1 a = Some (PlainLimiter (NewRateLimiter (i64 t1) 5 Second))"
    "T (w_out w) \<le> t1" "t1 \<le> T (w_out w1)" "counted (w_out w1) = counted (w_out w)"
proof -
  obtain t1 v1 where v1: "clock e w = (t1, v1)" by (cases "clock e w")
  define v2 where "v2 = v1\<lparr>w_fresh := w_fresh v1 + 1,
    w_limiters := (w_limiters v1)(w_fresh v1 \<mapsto> PlainLimiter (NewRateLimiter (i64 t1) 5 Second))\<rparr>"
  obtain t2 v3 where v3: "clock e v2 = (t2, v3)" by (cases "clock e v2")
  define v4 where "v4 = v3\<lparr>w_fresh := w_fresh v3 + 1,
    w_limiters := (w_limiters v3)(w_fresh v3 \<mapsto> PlainLimiter (NewRateLimiter (i64 t2) 20 Second))\<rparr>"
  have "new_limiter e 5 Second w = (w_fresh v1, v2)" "new_limiter e 20 Second v2 = (w_fresh v3, v4)"
    using v1 v3 by (simp_all add: new_limiter_def v2_def v4_def Let_def)
  with assms(1) obtain c w1 c' where new: "New (per_host_options (w_fresh v1) (w_fresh v3)) e v4 = Some (c, w1)"
    and loop: "request_loop e n status (\<lambda>i url. ''Request '' @ itoa (i + 1)) (50 * Millisecond)
      (map (\<lambda>i. (i, httpbinJSON)) [0..7]) (c, w1) = Some (how, tl lines, c', w')"
    by (auto simp: per_host_section_def Let_def bind_eq_Some_conv)
  from per_host_client [OF new] obtain t3 v5 own where v5: "clock e v4 = (t3, v5)" "w_out w1 = w_out v5"
    "w_limiters w1 = (w_limiters v5)(w_fresh v5 \<mapsto> PlainLimiter (NewRateLimiter (i64 t3) 2 Second))"
    and c: "c = per_host_made e (w_fresh v1) (w_fresh v3) own"
    by metis
  have tick: "T (w_out w) \<le> t1" "t1 \<le> T (w_out w1)" "counted (w_out w1) = counted (w_out w)"
    using ticking_clock [OF assms(2) v1] ticking_clock [OF assms(2) v3] ticking_clock [OF assms(2) v5(1)] v5(2)
    by (simp_all add: v2_def v4_def)
  have lim: "w_limiters w1 (w_fresh v1) = Some (PlainLimiter (NewRateLimiter (i64 t1) 5 Second))"
    using v5(3) clock_fields [OF v3] clock_fields [OF v5(1)] clock_fresh [OF v3] clock_fresh [OF v5(1)]
    by (simp add: v2_def v4_def)
  from that [OF c loop lim tick] show ?thesis .
qed

text \<open>
  C40. The per-host section of the example: its requests to httpbin.org reach the transport at most five
  times, and once more for each second it takes, whatever is answered.
\<close>

theorem example_host_rate:
  assumes "ticking e T counted"
    and "\<And>t req x res req' x'. e_do e t req x = Some (res, req', x') \<Longrightarrow>
      counted x' \<le> counted x + of_bool (DefaultHostKeyFunc req = Some ''host:httpbin.org'') \<and> T x \<le> T x'"
    and "per_host_section e n status w = Some (how, lines, w')" and "0 \<le> T (w_out w)" and "T (w_out w') < 2 ^ 62"
  shows "int (counted (w_out w')) - int (counted (w_out w)) \<le> 5 + (T (w_out w') - T (w_out w)) div Second"
proof -
  obtain c c' w1 t1 a b own where c: "c = per_host_made e a b own"
    and loop: "request_loop e n status (\<lambda>i url. ''Request '' @ itoa (i + 1)) (50 * Millisecond)
      (map (\<lambda>i. (i, httpbinJSON)) [0..7]) (c, w1) = Some (how, tl lines, c', w')"
    and lim: "w_limiters w1 a = Some (PlainLimiter (NewRateLimiter (i64 t1) 5 Second))"
    and tick: "T (w_out w) \<le> t1" "t1 \<le> T (w_out w1)" "counted (w_out w1) = counted (w_out w)"
    using per_host_start [OF assms(3,1)] by metis
  let ?sel = "\<lambda>req. DefaultHostKeyFunc req = Some ''host:httpbin.org''"
  have guard: "guarded ?sel a c"
    by (simp add: c guarded_def per_host_registry_GetLimiter)
  have gen: "counted (snd (e_now e x)) = counted x" "T x \<le> T (snd (e_now e x))" for x
    using assms(1) by (auto simp: ticking_def quiet_def intro: order_trans)
  have calls: "calls_for ?sel T counted c" and once: "calls_once T (\<lambda>_. 0) c"
    using assms(2) gen by (auto simp: calls_for_def calls_once_def c DefaultDebugConfig_def generateRequestID_def split: prod.splits)
      (metis snd_conv)+
  have pause: "ticking e T (\<lambda>_. 0)" using assms(1) by (simp add: ticking_def quiet_def)
  have "later e T (\<lambda>_. 0) t1 (c, w1)" using pause once tick(2) by (simp add: later_def)
  from later.request_loop_keeps [OF later.sleep_plain this loop] have "t1 \<le> T (w_out w')" by (simp add: later_def)
  with tick(1) assms(4,5) have t1: "i64 t1 = t1" "0 \<le> t1" by (auto simp: in64_def)
  have "paced e ?sel T counted a Second (Second * (5 + int (counted (w_out w1))) - t1) Idle (c, w1)"
    by (rule paced_start [OF assms(1) calls guard lim [unfolded t1(1)]]) (use tick t1 in \<open>simp_all add: Second_def\<close>)
  note p = paced.request_loop_keeps [OF paced_sleep this loop]
  from paced_end [OF p assms(5)] have "int (counted (w_out w')) - int (counted (w_out w)) \<le> 5 + (T (w_out w') - t1) div Second"
    by (simp add: Second_def tick(3))
  also have "\<dots> \<le> 5 + (T (w_out w') - T (w_out w)) div Second"
    using tick(1) by (simp add: zdiv_mono1 Second_def)
  finally show ?thesis .
qed


text \<open>The section as it runs against a server that answers at once: three of the eight requests are refused.\<close>

definition json_env :: "script env" where
  "json_env = script_env\<lparr>e_new_request := \<lambda>m u b. Inr (get_request ''httpbin.org'' ''/json'')\<rparr>"

definition sent_to_httpbin :: "script \<Rightarrow> nat" where
  "sent_to_httpbin x = length (filter (\<lambda>req. DefaultHostKeyFunc req = Some ''host:httpbin.org'') (sc_seen x))"

lemma json_env_simps [simp]:
  "e_now json_env x = (sc_now x, x)" "e_sleep json_env d x = x\<lparr>sc_now := sc_now x + max 0 d\<rparr>"
  "e_rand json_env x = (0, x)" "e_do json_env = script_do"
  "e_new_request json_env m u b = Inr (get_request ''httpbin.org'' ''/json'')"
  "clock json_env w = (sc_now (w_out w), w)"
  by (simp_all add: json_env_def clock_def)

text \<open>One request in the first second, with \<open>k\<close> tokens left: the client stays as it was made.\<close>

definition host_ready :: "int \<Rightarrow> script world \<Rightarrow> bool" where
  "host_ready k w \<longleftrightarrow> 0 \<le> k \<and> k \<le> 5 \<and> 0 \<le> sc_now (w_out w) \<and> sc_now (w_out w) < Second \<and> sc_replies (w_out w) = [] \<and>
     w_limiters w 0 = Some (PlainLimiter \<lparr>rl_tokens = k, rl_maxTokens = 5, rl_refillRate = Second, rl_lastRefill = 0\<rparr>)"

lemma host_Allow:
  assumes "host_ready k w"
  shows "reg_Allow (i64 (sc_now (w_out w))) (per_host_registry 0 1) (get_request ''httpbin.org'' ''/json'') (w_limiters w) =
    Some ((0 < k, ''host:httpbin.org''), (w_limiters w)(0 \<mapsto> PlainLimiter
      \<lparr>rl_tokens = max 0 (k - 1), rl_maxTokens = 5, rl_refillRate = Second, rl_lastRefill = 0\<rparr>))"
proof -
  have k: "0 \<le> k" "k \<le> 5" "0 \<le> sc_now (w_out w)" "sc_now (w_out w) < Second"
    and w: "w_limiters w 0 = Some (PlainLimiter \<lparr>rl_tokens = k, rl_maxTokens = 5, rl_refillRate = Second, rl_lastRefill = 0\<rparr>)"
    using assms by (simp_all add: host_ready_def)
  then have "sub64 (sc_now (w_out w)) 0 = sc_now (w_out w)" "div64 (sc_now (w_out w)) Second = 0"
    "i64 (sc_now (w_out w)) = sc_now (w_out w)" "sub64 k 1 = k - 1"
    by (simp_all add: sub64_exact div64_exact in64_def Second_def)
  with k w show ?thesis
    by (auto simp: reg_Allow_def per_host_registry_GetLimiter DefaultHostKeyFunc_def get_request_def rl_Allow_def
        rl_refill_defs rl_consumeToken_def max_def)
qed

lemma host_get:
  assumes "host_ready k w" and c: "c = per_host_made json_env 0 1 own"
  shows "\<exists>res w'. Get json_env (Suc n) u (c, w) = Some (Answered res, c, w') \<and>
     (if k = 0 then snd res \<noteq> None \<and> sc_seen (w_out w') = sc_seen (w_out w)
      else res = (Some (status_response 200), None) \<and> length (sc_seen (w_out w')) = length (sc_seen (w_out w)) + 1) \<and>
     host_ready (max 0 (k - 1)) w' \<and> sc_now (w_out w') = sc_now (w_out w)"
proof -
  have k: "0 \<le> k" "sc_replies (w_out w) = []" using assms by (simp_all add: host_ready_def)
  obtain rid where rid: "\<And>x. generateRequestID json_env x = (rid x, x)"
    by (simp add: generateRequestID_def)
  define req where "req = get_request ''httpbin.org'' ''/json''"
  obtain v where v: "rq_URL req = Some v" by (simp add: req_def get_request_def)
  define cb where "cb = NewCircuitBreaker \<lparr>FailureThreshold = 0, RecoveryTimeout = 0, SuccessThreshold = 0\<rparr>"
  have fields: "c_metrics c = None" "c_maxRetries c = 3" "c_retryPolicy c = None" "c_retryBudget c = None"
    "c_retryCondition c = Some DefaultRetryCondition" "c_circuitBreaker c = cb" "c_deduplication c = None"
    "c_cache c = None" "c_cacheProvider c = None" "executeMiddleware c = script_do (30 * Second)"
    "c_debug c = Some ((DefaultDebugConfig json_env)\<lparr>dc_Enabled := True\<rparr>)" "c_limiterRegistry c = Some (per_host_registry 0 1)"
    by (simp_all add: c cb_def) (simp_all add: per_host_made_def default_client_def)
  have b: "cb_Allow t cb = (True, cb)" "cb_RecordSuccess cb = cb" for t
    by (simp_all add: cb_def cb_Allow_def cb_RecordSuccess_def NewCircuitBreaker_def)
  have same: "c\<lparr>c_circuitBreaker := cb\<rparr> = c" by (simp add: fields(6) [symmetric])
  have e: "e_new_request json_env m u' b' = Inr req" for m u' b' by (simp add: req_def)
  have prom: "w_out (on_prom f w1) = w_out w1" "w_limiters (on_prom f w1) = w_limiters w1" for f and w1 :: "script world" by (simp_all add: on_prom_def)
  have st: "rs_StatusCode (status_response n) = n" for n by (simp add: status_response_def)
  note defs = Let_def Get_def Do_def serve_def join_dedup_def lookup_cache_def fetch_def finish_request_def complete_dedup_def
    new_request_id_def log_start_def DefaultDebugConfig_def rid try_once_def ask_limiter_def record_tokens_def ask_breaker_def
    record_outcome_def conclude_def decide_retry_def failed_def fail_with_def createClientError_def fields b same prom v script_do_def
    req_def [symmetric] e st
  show ?thesis
    using k host_Allow [OF assms(1)] assms(1)
    by (cases "k = 0") (simp_all add: defs host_ready_def del: json_env_simps(5))
qed

lemma host_loop:
  assumes "host_ready k w" and c: "c = per_host_made json_env 0 1 own"
    and "sc_now (w_out w) + 50 * Millisecond * int (length reqs) < Second"
  shows "\<exists>lines w'. request_loop json_env (Suc n) status name (50 * Millisecond) reqs (c, w) = Some (Goes_on, lines, c, w') \<and>
     length (sc_seen (w_out w')) = length (sc_seen (w_out w)) + min (nat k) (length reqs) \<and>
     sc_now (w_out w') = sc_now (w_out w) + 50 * Millisecond * int (length reqs)"
  using assms(1,3)
proof (induction reqs arbitrary: k w)
  case (Cons r rest)
  obtain i u where r: "r = (i, u)" by (cases r)
  from host_get [OF Cons.prems(1) c, of n u] obtain res w1 where
    g: "Get json_env (Suc n) u (c, w) = Some (Answered res, c, w1)"
    and w1: "if k = 0 then snd res \<noteq> None \<and> sc_seen (w_out w1) = sc_seen (w_out w)
      else res = (Some (status_response 200), None) \<and> length (sc_seen (w_out w1)) = length (sc_seen (w_out w)) + 1"
      "host_ready (max 0 (k - 1)) w1" "sc_now (w_out w1) = sc_now (w_out w)"
    by blast
  let ?w2 = "w1\<lparr>w_out := e_sleep json_env (50 * Millisecond) (w_out w1)\<rparr>"
  have "0 \<le> k" "sc_now (w_out w) + 50 * Millisecond < Second"
    using Cons.prems by (simp_all add: host_ready_def duration_defs)
  with w1(2,3) have "host_ready (max 0 (k - 1)) ?w2" by (simp add: host_ready_def duration_defs)
  moreover have "sc_now (w_out ?w2) + 50 * Millisecond * int (length rest) < Second"
    using Cons.prems(2) w1(3) by (simp add: duration_defs)
  ultimately obtain lines w' where "request_loop json_env (Suc n) status name (50 * Millisecond) rest (c, ?w2)
      = Some (Goes_on, lines, c, w')"
    and l: "length (sc_seen (w_out w')) = length (sc_seen (w_out w1)) + min (nat (max 0 (k - 1))) (length rest)"
    and t: "sc_now (w_out w') = sc_now (w_out ?w2) + 50 * Millisecond * int (length rest)"
    using Cons.IH by fastforce
  with g w1(1) have "\<exists>lines. request_loop json_env (Suc n) status name (50 * Millisecond) (r # rest) (c, w)
      = Some (Goes_on, lines, c, w')"
    by (cases res; cases "fst res"; cases "snd res")
      (auto simp: r waits_def close_body_def status_response_def split: if_splits)
  moreover have "length (sc_seen (w_out w')) = length (sc_seen (w_out w)) + min (nat k) (length (r # rest))"
    using l w1(1) \<open>0 \<le> k\<close> by (auto split: if_splits)
  moreover have "sc_now (w_out w') = sc_now (w_out w) + 50 * Millisecond * int (length (r # rest))"
    using t w1(3) by (simp add: duration_defs)
  ultimately show ?case by blast
qed simp

lemma example_host_rate_witness:
  "\<exists>lines w'. per_host_section json_env 4 (\<lambda>_. ''200 OK'') (script_world []) = Some (Goes_on, lines, w') \<and>
    length (sc_seen (w_out w')) = 5 \<and> int (sent_to_httpbin (w_out w')) \<le> 5 + sc_now (w_out w') div Second"
proof -
  let ?w = "script_world []"
  define v1 where "v1 = snd (new_limiter json_env 5 Second ?w)"
  define v2 where "v2 = snd (new_limiter json_env 20 Second v1)"
  have lims: "new_limiter json_env 5 Second ?w = (0, v1)" "new_limiter json_env 20 Second v1 = (1, v2)"
    by (simp_all add: v1_def v2_def new_limiter_def script_world_def)
  obtain c w1 own where n: "New (per_host_options 0 1) json_env v2 = Some (c, w1)" and c: "c = per_host_made json_env 0 1 own"
    and w1: "host_ready 5 w1" "sc_now (w_out w1) = 0" "sc_seen (w_out w1) = []"
    using New_per_host(1) [of json_env v2 0 v2 0 1]
    by (auto simp: v1_def v2_def new_limiter_def host_ready_def NewRateLimiter_def script_world_def Second_def i64_def)
  obtain lines w' where "request_loop json_env (Suc 3) (\<lambda>_. ''200 OK'') (\<lambda>i url. ''Request '' @ itoa (i + 1)) (50 * Millisecond)
      (map (\<lambda>i. (i, httpbinJSON)) [0..7]) (c, w1) = Some (Goes_on, lines, c, w')" and w': "length (sc_seen (w_out w')) = 5" "sc_now (w_out w') = 400 * Millisecond"
    using host_loop [OF w1(1) c, where reqs = "map (\<lambda>i. (i, httpbinJSON)) [0..7]" and n = 3 and status = "\<lambda>_. ''200 OK''"
        and name = "\<lambda>i url. ''Request '' @ itoa (i + 1)"] w1(2,3)
    by (auto simp: duration_defs)
  with lims n obtain lines' where d: "per_host_section json_env 4 (\<lambda>_. ''200 OK'') ?w = Some (Goes_on, lines', w')"
    by (simp add: per_host_section_def eval_nat_numeral del: request_loop.simps)
  have "ticking json_env sc_now sent_to_httpbin"
    by (auto simp: ticking_def quiet_def sent_to_httpbin_def)
  then have "int (sent_to_httpbin (w_out w')) - int (sent_to_httpbin (w_out ?w)) \<le> 5 + (sc_now (w_out w') - sc_now (w_out ?w)) div Second"
    by (rule example_host_rate [OF _ _ d]) (auto simp: script_do_def Let_def sent_to_httpbin_def w' duration_defs)
  with d w' show ?thesis by (auto simp: sent_to_httpbin_def)
qed

end
